(* ===== verification/Prelude.thy ===== *)
theory Prelude
  imports Main "HOL-Library.Word"
begin

text \<open>
  Shared vocabulary of the development: byte strings and machine integers, the
  result type of fallible Go functions, and big-endian integer encodings.

  A Go slice is a list. A nil slice and an empty slice are the same list unless
  the code distinguishes them, in which case the model uses an option. A Go
  \<open>(value, error)\<close> pair is a sum whose left side is the error. Error values
  keep which check failed and drop the formatted numbers of the message. The
  length of a slice and an index into it are naturals; a conversion of a length to
  uint64 loses nothing, so a comparison made in uint64 is one of naturals.
\<close>

unbundle bit_operations_syntax

type_synonym byte = "8 word"
type_synonym bytes = "8 word list"
type_synonym u16 = "16 word"
type_synonym u32 = "32 word"
type_synonym u64 = "64 word"

named_theorems parse_simps "unfolding rules for parsers and serializers"

section \<open>Fallible results\<close>

definition bindE :: "'e + 'a \<Rightarrow> ('a \<Rightarrow> 'e + 'b) \<Rightarrow> 'e + 'b" where
  "bindE m f = (case m of Inl e \<Rightarrow> Inl e | Inr x \<Rightarrow> f x)"

definition is_ok :: "'e + 'a \<Rightarrow> bool" where
  "is_ok r = (case r of Inl _ \<Rightarrow> False | Inr _ \<Rightarrow> True)"

definition mapE :: "('e \<Rightarrow> 'f) \<Rightarrow> 'e + 'a \<Rightarrow> 'f + 'a" where
  "mapE f r = (case r of Inl e \<Rightarrow> Inl (f e) | Inr x \<Rightarrow> Inr x)"

lemma bindE_simps [simp]:
  "bindE (Inl e) f = Inl e"
  "bindE (Inr x) f = f x"
  by (simp_all add: bindE_def)

lemma bindE_Inr_iff: "bindE m f = Inr y \<longleftrightarrow> (\<exists>x. m = Inr x \<and> f x = Inr y)"
  by (cases m) simp_all

lemma bindE_InrE [elim]:
  assumes "bindE m f = Inr y"
  obtains x where "m = Inr x" "f x = Inr y"
  using assms by (auto simp: bindE_Inr_iff)

lemma bindE_cong [fundef_cong]:
  "m = m' \<Longrightarrow> (\<And>x. m' = Inr x \<Longrightarrow> f x = f' x) \<Longrightarrow> bindE m f = bindE m' f'"
  by (cases m') simp_all

lemma is_ok_simps [simp]: "is_ok (Inr x)" "\<not> is_ok (Inl e)"
  by (simp_all add: is_ok_def)

lemma is_ok_iff: "is_ok r \<longleftrightarrow> (\<exists>x. r = Inr x)"
  by (cases r) simp_all

lemma mapE_simps [simp]: "mapE f (Inl e) = Inl (f e)" "mapE f (Inr x) = Inr x"
  by (simp_all add: mapE_def)

lemma mapE_Inr_iff [simp]: "mapE f r = Inr x \<longleftrightarrow> r = Inr x"
  by (cases r) simp_all

section \<open>Strings\<close>

text \<open>The bytes of a Go string constant.\<close>

definition str :: "string \<Rightarrow> bytes" where
  "str s = map of_char s"

lemma length_str [simp]: "length (str s) = length s"
  by (simp add: str_def)

section \<open>Big-endian integers\<close>

text \<open>
  \<open>be k n\<close> is the sequence \<open>byte(n >> 8*(k-1)), ..., byte(n >> 8), byte(n)\<close> the
  code appends for a k-byte field, each conversion to a byte truncating;
  \<open>unbe\<close> is the shift-and-or that reads such a field back.
\<close>

fun be :: "nat \<Rightarrow> nat \<Rightarrow> bytes" where
  "be 0 n = []"
| "be (Suc k) n = of_nat (n div 256 ^ k) # be k n"

definition unbe :: "bytes \<Rightarrow> nat" where
  "unbe bs = foldl (\<lambda>acc b. acc * 256 + unat b) 0 bs"

lemma length_be [simp]: "length (be k n) = k"
  by (induction k) simp_all

lemma be_numeral:
  "be 1 n = [of_nat n]"
  "be 2 n = [of_nat (n div 256), of_nat n]"
  "be 3 n = [of_nat (n div 65536), of_nat (n div 256), of_nat n]"
  "be 4 n = [of_nat (n div 16777216), of_nat (n div 65536), of_nat (n div 256), of_nat n]"
proof -
  have s: "1 = Suc 0" "2 = Suc 1" "3 = Suc 2" "4 = Suc (3 :: nat)" by simp_all
  show 1: "be 1 n = [of_nat n]" by simp
  show 2: "be 2 n = [of_nat (n div 256), of_nat n]"
    unfolding s(2) be.simps(2) 1 by simp
  show 3: "be 3 n = [of_nat (n div 65536), of_nat (n div 256), of_nat n]"
    unfolding s(3) be.simps(2) 2 by simp
  show "be 4 n = [of_nat (n div 16777216), of_nat (n div 65536), of_nat (n div 256), of_nat n]"
    unfolding s(4) be.simps(2) 3 by simp
qed

lemma foldl_unbe_acc:
  "foldl (\<lambda>acc b. acc * 256 + unat (b :: byte)) a bs
     = a * 256 ^ length bs + foldl (\<lambda>acc b. acc * 256 + unat b) 0 bs"
proof (induction bs arbitrary: a)
  case (Cons b bs)
  show ?case
    using Cons.IH [of "a * 256 + unat b"] Cons.IH [of "unat b"]
    by (simp add: algebra_simps)
qed simp

lemma unbe_Nil [simp]: "unbe [] = 0"
  by (simp add: unbe_def)

lemma unbe_Cons: "unbe (b # bs) = unat b * 256 ^ length bs + unbe bs"
  by (simp add: unbe_def) (rule foldl_unbe_acc)

lemma unbe_append: "unbe (xs @ ys) = unbe xs * 256 ^ length ys + unbe ys"
  by (simp add: unbe_def) (rule foldl_unbe_acc)

lemma unat_byte_lt [simp]: "unat (b :: byte) < 256"
  using unsigned_less [of b] by simp

lemma unbe_lt: "unbe bs < 256 ^ length bs"
proof (induction bs)
  case (Cons b bs)
  have "unat b * 256 ^ length bs + unbe bs < unat b * 256 ^ length bs + 256 ^ length bs"
    using Cons.IH by simp
  also have "\<dots> = (unat b + 1) * 256 ^ length bs" by simp
  also have "\<dots> \<le> 256 * 256 ^ length bs"
    using unat_byte_lt [of b] by (intro mult_le_mono1) linarith
  finally show ?case by (simp add: unbe_Cons)
qed simp

lemma unat_of_nat_byte: "unat (of_nat n :: byte) = n mod 256"
  by (simp add: unat_of_nat)

lemma unbe_be [simp]: "unbe (be k n) = n mod 256 ^ k"
proof (induction k)
  case (Suc k)
  have "n mod 256 ^ Suc k = (n div 256 ^ k mod 256) * 256 ^ k + n mod 256 ^ k"
    by (simp add: mod_mult2_eq mult.commute [of 256])
  then show ?case
    using Suc.IH by (simp add: unbe_Cons unat_of_nat_byte)
qed simp

lemma unbe_be_id: "n < 256 ^ k \<Longrightarrow> unbe (be k n) = n"
  by simp

lemma be_mod: "be k (n mod 256 ^ k) = be k n"
proof (induction k arbitrary: n)
  case (Suc k)
  have 1: "(of_nat (n mod 256 ^ Suc k div 256 ^ k) :: byte) = of_nat (n div 256 ^ k)"
    by (rule word_unat_eq_iff [THEN iffD2])
       (simp add: unat_of_nat mod_mult2_eq mult.commute [of 256])
  have 2: "be k (n mod 256 ^ Suc k) = be k n"
    using Suc.IH [of "n mod 256 ^ Suc k"] Suc.IH [of n]
    by (metis mod_mult2_eq mod_mult_self2 mult.commute power_Suc mod_mod_trivial
        dvd_triv_right mod_mod_cancel)
  show ?case using 1 2 by (simp only: be.simps)
qed simp

lemma be_unbe [simp]: "be (length bs) (unbe bs) = bs"
proof (induction bs)
  case (Cons b bs)
  have lt: "unbe bs < 256 ^ length bs" by (rule unbe_lt)
  then have div: "unbe (b # bs) div 256 ^ length bs = unat b"
    by (simp add: unbe_Cons)
  have "unbe (b # bs) mod 256 ^ length bs = unbe bs"
    using lt by (simp add: unbe_Cons)
  then have "be (length bs) (unbe (b # bs)) = be (length bs) (unbe bs)"
    using be_mod [of "length bs" "unbe (b # bs)"] by simp
  then show ?case using div Cons.IH by simp
qed simp

lemma be_unbe_len: "length bs = k \<Longrightarrow> be k (unbe bs) = bs"
  using be_unbe by blast

lemma unbe_one [simp]: "unbe [a] = unat a"
  by (simp add: unbe_Cons)

lemma unbe_two [simp]: "unbe [a, b] = unat a * 256 + unat b"
  by (simp add: unbe_Cons)

section \<open>Shift-and-or accumulation on 64-bit words\<close>

text \<open>
  The loop body \<open>v = v<<8 | uint64(b)\<close> of the integer readers. It is multiplication
  and addition as long as no bit is shifted out.
\<close>

lemma unat_of_nat_u64: "n < 18446744073709551616 \<Longrightarrow> unat (of_nat n :: u64) = n"
  by (simp add: unat_of_nat)

lemma unat_u64_lt [simp]: "unat (v :: u64) < 18446744073709551616"
  using unsigned_less [of v] by simp

lemma shift_step_le: "n * 256 + unat (b :: byte) + 1 \<le> (n + 1) * 256"
proof -
  have "unat b + 1 \<le> 256" using unat_byte_lt [of b] by linarith
  then show ?thesis by (simp add: algebra_simps)
qed

lemma unat_shift_or:
  assumes "unat v < 72057594037927936"
  shows "unat (push_bit 8 v OR ucast (b :: byte) :: u64) = unat v * 256 + unat b"
proof -
  have "push_bit 8 v AND (ucast b :: u64) = 0"
    by (rule bit_eqI) (auto simp: bit_simps dest: bit_imp_le_length)
  then have "push_bit 8 v OR ucast b = push_bit 8 v + (ucast b :: u64)"
    by (simp add: disjunctive_add_eq_or)
  also have "\<dots> = of_nat (unat v * 256 + unat b)"
    by (simp add: push_bit_eq_mult mult.commute)
  finally have "unat (push_bit 8 v OR ucast b :: u64) = unat (of_nat (unat v * 256 + unat b) :: u64)"
    by (rule arg_cong)
  moreover have "unat v * 256 + unat b < 18446744073709551616"
    using shift_step_le [of "unat v" b] assms by simp
  ultimately show ?thesis by (simp only: unat_of_nat_u64)
qed

definition shift_or_acc :: "u64 \<Rightarrow> bytes \<Rightarrow> u64" where
  "shift_or_acc v bs = foldl (\<lambda>v b. push_bit 8 v OR ucast b) v bs"

lemma shift_or_acc_simps [simp]:
  "shift_or_acc v [] = v"
  "shift_or_acc v (b # bs) = shift_or_acc (push_bit 8 v OR ucast b) bs"
  by (simp_all add: shift_or_acc_def)

lemma unat_shift_or_acc:
  assumes "(unat v + 1) * 256 ^ length bs \<le> 18446744073709551616"
  shows "unat (shift_or_acc v bs) = unat v * 256 ^ length bs + unbe bs"
  using assms
proof (induction bs arbitrary: v)
  case (Cons b bs)
  have "(unat v + 1) * 256 \<le> (unat v + 1) * 256 * 256 ^ length bs" by simp
  also have "\<dots> \<le> 18446744073709551616" using Cons.prems by (simp add: algebra_simps)
  finally have "unat v < 72057594037927936" by simp
  note step = unat_shift_or [OF this, of b]
  have "(unat v * 256 + unat b + 1) * 256 ^ length bs \<le> (unat v + 1) * 256 * 256 ^ length bs"
    by (intro mult_le_mono1 shift_step_le)
  also have "\<dots> \<le> 18446744073709551616" using Cons.prems by (simp add: algebra_simps)
  finally show ?case
    using Cons.IH [of "push_bit 8 v OR ucast b"] step
    by (simp add: unbe_Cons algebra_simps)
qed simp

section \<open>Words and naturals\<close>

text \<open>\<open>byte(v >> k)\<close>.\<close>

definition byte_at :: "u64 \<Rightarrow> nat \<Rightarrow> byte" where
  "byte_at v k = ucast (drop_bit k v)"

lemma byte_at_nat: "byte_at v k = of_nat (unat v div 2 ^ k)"
  by (rule word_unat_eq_iff [THEN iffD2])
     (simp add: byte_at_def unsigned_ucast_eq unat_drop_bit_eq unat_of_nat
        drop_bit_eq_div [where 'a = nat] take_bit_eq_mod [where 'a = nat])

lemma u64_le_iff: "v \<le> w \<longleftrightarrow> unat v \<le> unat (w :: u64)"
  by (simp add: word_le_nat_alt)

lemma u64_less_iff: "v < w \<longleftrightarrow> unat v < unat (w :: u64)"
  by (simp add: word_less_nat_alt)

lemma u64_eq_iff: "v = w \<longleftrightarrow> unat v = unat (w :: u64)"
  by (simp add: word_unat_eq_iff)

lemma unat_u64_pow2: "k < 64 \<Longrightarrow> unat (2 ^ k :: u64) = 2 ^ k"
proof -
  assume "k < 64"
  then have "(2::nat) ^ k < 2 ^ 64" by (intro power_strict_increasing) simp_all
  then have "unat (of_nat (2 ^ k) :: u64) = 2 ^ k" by (intro unat_of_nat_u64) simp
  then show ?thesis by simp
qed

lemma be_byte_at: "map (\<lambda>i. byte_at v (8 * i)) (rev [0..<k]) = be k (unat v)"
  by (induction k) (simp_all add: byte_at_nat power_mult)

end
