(* ===== verification/Codec.thy ===== *)
theory Codec
  imports Prelude "HOL-Library.Sublist"
begin

text \<open>
  The parsing cursor shared by every wire format of the library, and the interface
  locales that the codecs implement.

  The Go parsers keep an index \<open>p\<close> into a buffer \<open>b\<close> and test \<open>p + n > len(b)\<close>
  before they read \<open>b[p:p+n]\<close>. The model keeps the unread suffix instead:
  \<open>takeN n b\<close> fails exactly when that test fires and otherwise splits the next n
  bytes off.
\<close>

section \<open>The cursor\<close>

definition takeN :: "nat \<Rightarrow> bytes \<Rightarrow> (bytes \<times> bytes) option" where
  "takeN n b = (if length b < n then None else Some (take n b, drop n b))"

lemma takeN_append [simp]: "length xs = n \<Longrightarrow> takeN n (xs @ ys) = Some (xs, ys)"
  by (simp add: takeN_def)

lemma takeN_be [simp]: "takeN k (be k n @ ys) = Some (be k n, ys)"
  by simp

lemma takeN_SomeD: "takeN n b = Some (x, y) \<Longrightarrow> b = x @ y \<and> length x = n"
  by (auto simp: takeN_def split: if_splits)

lemma takeN_Some_iff: "takeN n b = Some (x, y) \<longleftrightarrow> b = x @ y \<and> length x = n"
  by (auto simp: takeN_def split: if_splits)

lemma takeN_None_iff [simp]: "takeN n b = None \<longleftrightarrow> length b < n"
  by (simp add: takeN_def)

lemma takeN_all [simp]: "length xs = n \<Longrightarrow> takeN n xs = Some (xs, [])"
  by (simp add: takeN_def)

lemma takeN_one [simp]: "takeN (Suc 0) (x # xs) = Some ([x], xs)"
  by (simp add: takeN_def)

lemma takeN_shorter: "takeN n b = Some (x, y) \<Longrightarrow> 0 < n \<Longrightarrow> length y < length b"
  by (auto dest: takeN_SomeD)

text \<open>\<open>need e m\<close> turns a failed cursor step into the error e.\<close>

definition need :: "'e \<Rightarrow> 'a option \<Rightarrow> 'e + 'a" where
  "need e m = (case m of None \<Rightarrow> Inl e | Some x \<Rightarrow> Inr x)"

lemma need_simps [simp]: "need e None = Inl e" "need e (Some x) = Inr x"
  by (simp_all add: need_def)

lemma need_Inr_iff [simp]: "need e m = Inr x \<longleftrightarrow> m = Some x"
  by (cases m) simp_all

section \<open>Interfaces\<close>

text \<open>
  A self-delimiting encoder: the decoder recovers the value and the number of
  bytes it consumed whatever follows the encoding. \<open>ok\<close> is the set of values the
  two sides exchange, for the formats whose reader has a limit the writer lacks.
\<close>

locale wire_encoder =
  fixes ok :: "'a \<Rightarrow> bool"
    and enc :: "'a \<Rightarrow> 'f + bytes"
    and dec :: "bytes \<Rightarrow> 'e + ('a \<times> nat)"
  assumes dec_enc: "ok x \<Longrightarrow> enc x = Inr e \<Longrightarrow> dec (e @ rest) = Inr (x, length e)"
begin

lemma dec_enc_exact: "ok x \<Longrightarrow> enc x = Inr e \<Longrightarrow> dec e = Inr (x, length e)"
  using dec_enc [of x e "[]"] by simp

lemma enc_prefix_free:
  assumes "ok x" "ok y" and "enc x = Inr e" and "enc y = Inr f" and "prefix e f"
  shows "x = y"
proof -
  from assms(5) obtain rest where "f = e @ rest" by (auto elim: prefixE)
  then have "dec f = Inr (x, length e)" using dec_enc [OF assms(1,3)] by simp
  moreover have "dec f = Inr (y, length f)" by (rule dec_enc_exact [OF assms(2,4)])
  ultimately show ?thesis by simp
qed

lemma enc_inject: "ok x \<Longrightarrow> ok y \<Longrightarrow> enc x = Inr e \<Longrightarrow> enc y = Inr e \<Longrightarrow> x = y"
  by (rule enc_prefix_free) auto

text \<open>Two encodings at the front of the same stream are the same encoding.\<close>

lemma enc_unique_parse:
  assumes "ok x" "ok y" and "enc x = Inr e" and "enc y = Inr f" and "e @ r = f @ s"
  shows "x = y \<and> e = f \<and> r = s"
proof -
  have "dec (e @ r) = Inr (x, length e)" by (rule dec_enc [OF assms(1,3)])
  moreover have "dec (e @ r) = Inr (y, length f)"
    unfolding assms(5) by (rule dec_enc [OF assms(2,4)])
  ultimately show ?thesis using assms(5) by simp
qed

end

text \<open>
  A canonical codec: in addition, what the decoder consumed is the encoding of
  what it returned, so the decoder accepts no second spelling of a value.
\<close>

locale wire_codec = wire_encoder ok enc dec
  for ok :: "'a \<Rightarrow> bool" and enc :: "'a \<Rightarrow> 'f + bytes" and dec :: "bytes \<Rightarrow> 'e + ('a \<times> nat)" +
  assumes enc_dec: "dec b = Inr (x, n) \<Longrightarrow> n \<le> length b \<and> ok x \<and> enc x = Inr (take n b)"
begin

lemma dec_accepts_iff:
  "dec b = Inr (x, n) \<longleftrightarrow> ok x \<and> (\<exists>e r. enc x = Inr e \<and> b = e @ r \<and> n = length e)"
proof
  assume "dec b = Inr (x, n)"
  from enc_dec [OF this] show "ok x \<and> (\<exists>e r. enc x = Inr e \<and> b = e @ r \<and> n = length e)"
    by (intro conjI exI [of _ "take n b"] exI [of _ "drop n b"]) simp_all
next
  assume "ok x \<and> (\<exists>e r. enc x = Inr e \<and> b = e @ r \<and> n = length e)"
  then show "dec b = Inr (x, n)" using dec_enc by blast
qed

lemma dec_consumed_inject:
  "dec b = Inr (x, n) \<Longrightarrow> dec c = Inr (x, m) \<Longrightarrow> take n b = take m c"
  using enc_dec by (metis sum.inject(2))

text \<open>The decoder looks only at what it consumes.\<close>

lemma dec_append: "dec b = Inr (x, n) \<Longrightarrow> dec (b @ c) = Inr (x, n)"
  using dec_accepts_iff by (metis append.assoc)

end

end
