(* ===== verification/Varint.thy ===== *)
theory Varint
  imports Codec
begin

text \<open>
  QUIC variable-length integers, \<open>src/quicgm/varint.go\<close>. Values are uint64 words;
  the shifts and masks are the code's own.
\<close>

section \<open>The codec\<close>

datatype varint_error = VarintTooLarge | VarintEmpty | VarintTruncated | VarintNonMinimal

definition maxVarint1 :: u64 where "maxVarint1 = 63"
definition maxVarint2 :: u64 where "maxVarint2 = 16383"
definition maxVarint4 :: u64 where "maxVarint4 = 1073741823"
definition MaxVarint :: u64 where "MaxVarint = 4611686018427387903"

definition VarintLen :: "u64 \<Rightarrow> nat" where
  "VarintLen v =
    (if v \<le> maxVarint1 then 1
     else if v \<le> maxVarint2 then 2
     else if v \<le> maxVarint4 then 4
     else 8)"

definition AppendVarint :: "bytes \<Rightarrow> u64 \<Rightarrow> varint_error + bytes" where
  "AppendVarint b v =
    (if v > MaxVarint then Inl VarintTooLarge
     else if v \<le> maxVarint1 then Inr (b @ [byte_at v 0])
     else if v \<le> maxVarint2 then Inr (b @ [byte_at v 8 OR 0x40, byte_at v 0])
     else if v \<le> maxVarint4 then
       Inr (b @ [byte_at v 24 OR 0x80, byte_at v 16, byte_at v 8, byte_at v 0])
     else
       Inr (b @ [byte_at v 56 OR 0xc0, byte_at v 48, byte_at v 40, byte_at v 32,
                 byte_at v 24, byte_at v 16, byte_at v 8, byte_at v 0]))"

text \<open>
  The loop \<open>for i := 1; i < length; i++ { v = v<<8 | uint64(b[i]) }\<close> is
  \<open>shift_or_acc\<close> over \<open>b[1:length]\<close>.
\<close>

definition ReadVarint :: "bytes \<Rightarrow> varint_error + (u64 \<times> nat)" where
  "ReadVarint b =
    (case b of
       [] \<Rightarrow> Inl VarintEmpty
     | b0 # _ \<Rightarrow>
         (let len = 2 ^ unat (drop_bit 6 b0) in
          if length b < len then Inl VarintTruncated
          else
            (let v = shift_or_acc (ucast (b0 AND 0x3f)) (take (len - 1) (drop 1 b)) in
             if VarintLen v < len then Inl VarintNonMinimal else Inr (v, len))))"


section \<open>Reading the codec in arithmetic\<close>

text \<open>
  \<open>varint_tag L\<close> is the two-bit length prefix, shifted into place, of an L-byte
  varint, and \<open>varint_image L n\<close> the L bytes that carry n.
\<close>

definition varint_tag :: "nat \<Rightarrow> nat" where
  "varint_tag L = (if L = 1 then 0 else if L = 2 then 64 else if L = 4 then 128 else 192)"

definition varint_image :: "nat \<Rightarrow> nat \<Rightarrow> bytes" where
  "varint_image L n = of_nat (n div 256 ^ (L - 1) + varint_tag L) # be (L - 1) n"

lemma varint_limits [simp]:
  "unat maxVarint1 = 63" "unat maxVarint2 = 16383" "unat maxVarint4 = 1073741823"
  "unat MaxVarint = 4611686018427387903"
  by (simp_all add: maxVarint1_def maxVarint2_def maxVarint4_def MaxVarint_def)

lemma VarintLen_cases: "VarintLen v \<in> {1, 2, 4, 8}"
  by (simp add: VarintLen_def)

lemma VarintLen_nat:
  "VarintLen v = (if unat v \<le> 63 then 1 else if unat v \<le> 16383 then 2
                  else if unat v \<le> 1073741823 then 4 else 8)"
  by (simp add: VarintLen_def u64_le_iff)

lemma unat_low6: "unat (x AND 0x3f :: byte) = unat x mod 64"
proof -
  have "x AND 0x3f = take_bit 6 x"
    by (simp add: take_bit_eq_mask mask_eq_exp_minus_1)
  then show ?thesis by (simp add: unsigned_take_bit_eq take_bit_eq_mod [where 'a = nat])
qed

lemma unat_high2: "unat (drop_bit 6 x :: byte) = unat x div 64"
  by (simp add: unat_drop_bit_eq drop_bit_eq_div [where 'a = nat])

lemma or_tag:
  assumes "unat x < 64" and "t \<in> {0, 0x40, 0x80, 0xc0}"
  shows "x OR t = of_nat (unat x + unat (t :: byte))"
proof -
  have "(x OR t) AND 0x3f = (x AND 0x3f) OR (t AND 0x3f)"
    by (simp add: bit.conj_disj_distrib2)
  moreover have "t AND 0x3f = 0" using assms(2) by auto
  ultimately have low: "unat (x OR t) mod 64 = unat x"
    using assms(1) by (metis mod_less or.right_neutral unat_low6)
  have "drop_bit 6 x = 0"
    by (rule word_unat_eq_iff [THEN iffD2]) (use assms(1) in \<open>simp add: unat_high2\<close>)
  then have "drop_bit 6 (x OR t) = drop_bit 6 t" by simp
  then have high: "unat (x OR t) div 64 = unat t div 64"
    by (metis unat_high2)
  have "unat t mod 64 = 0" using assms(2) by auto
  then have "unat (x OR t) = unat x + unat t"
    using low high by (metis add.commute add.right_neutral div_mult_mod_eq)
  then have "of_nat (unat (x OR t)) = (of_nat (unat x + unat t) :: byte)" by (rule arg_cong)
  then show ?thesis by simp
qed

lemma AppendVarint_image:
  assumes "v \<le> MaxVarint"
  shows "AppendVarint b v = Inr (b @ varint_image (VarintLen v) (unat v))"
proof -
  have le: "unat v \<le> 4611686018427387903" using assms by (simp add: u64_le_iff)
  have t2: "of_nat (unat v div 256) OR 0x40 = (of_nat (unat v div 256 + 64) :: byte)"
    if "unat v \<le> 16383"
    using or_tag [of "of_nat (unat v div 256)" "0x40"] that
    by (simp add: unat_of_nat_byte)
  have t4: "of_nat (unat v div 16777216) OR 0x80 = (of_nat (unat v div 16777216 + 128) :: byte)"
    if "unat v \<le> 1073741823"
    using or_tag [of "of_nat (unat v div 16777216)" "0x80"] that
    by (simp add: unat_of_nat_byte)
  have t8: "of_nat (unat v div 72057594037927936) OR 0xc0
      = (of_nat (unat v div 72057594037927936 + 192) :: byte)"
    using or_tag [of "of_nat (unat v div 72057594037927936)" "0xc0"] le
    by (simp add: unat_of_nat_byte)
  have be7: "be 7 n = [of_nat (n div 281474976710656), of_nat (n div 1099511627776),
      of_nat (n div 4294967296), of_nat (n div 16777216), of_nat (n div 65536),
      of_nat (n div 256), of_nat n]" for n
  proof -
    have "be (Suc (Suc (Suc 4))) n = [of_nat (n div 281474976710656), of_nat (n div 1099511627776),
      of_nat (n div 4294967296), of_nat (n div 16777216), of_nat (n div 65536),
      of_nat (n div 256), of_nat n]"
      unfolding be.simps(2) be_numeral by simp
    then show ?thesis by simp
  qed
  have "\<not> v > MaxVarint" using assms by simp
  then show ?thesis
    using t2 t4 t8
    by (auto simp: AppendVarint_def VarintLen_def varint_image_def varint_tag_def
        byte_at_nat u64_le_iff be7 be_numeral)
qed

lemma varint_tag_pow: "k < 4 \<Longrightarrow> varint_tag (2 ^ k) = 64 * k"
  by (auto simp: varint_tag_def less_Suc_eq numeral_eq_Suc)

lemma VarintLen_bound:
  "v \<le> MaxVarint \<Longrightarrow> unat v div 256 ^ (VarintLen v - 1) < 64"
  by (auto simp: VarintLen_nat u64_le_iff)

lemma VarintLen_le:
  assumes "unat v < 64 * 256 ^ (L - 1)" and "L \<in> {1, 2, 4, 8}"
  shows "VarintLen v \<le> L"
  using assms by (auto simp: VarintLen_nat)

lemma varint_pow_cases: "k < 4 \<Longrightarrow> (2::nat) ^ k \<in> {1, 2, 4, 8}"
  by (auto simp: less_Suc_eq numeral_eq_Suc)

lemma high2_lt: "unat (b0 :: byte) div 64 < 4"
  using unat_byte_lt [of b0] by linarith

text \<open>The value the reader accumulates, when the buffer is long enough.\<close>

definition varint_value :: "byte \<Rightarrow> bytes \<Rightarrow> u64" where
  "varint_value b0 bs = shift_or_acc (ucast (b0 AND 0x3f)) bs"

lemma unat_varint_value:
  assumes "length bs \<le> 7"
  shows "unat (varint_value b0 bs) = unat b0 mod 64 * 256 ^ length bs + unbe bs"
proof -
  have u: "unat (ucast (b0 AND 0x3f) :: u64) = unat b0 mod 64"
    using unat_byte_lt [of b0] by (simp add: unsigned_ucast_eq unat_low6 take_bit_eq_mod [where 'a = nat])
  have "(unat b0 mod 64 + 1) * 256 ^ length bs \<le> 64 * 256 ^ (7::nat)"
    using assms by (intro mult_le_mono power_increasing) (auto simp: Suc_le_eq)
  then have "(unat b0 mod 64 + 1) * 256 ^ length bs \<le> 18446744073709551616" by simp
  then show ?thesis
    unfolding varint_value_def using unat_shift_or_acc [of "ucast (b0 AND 0x3f)" bs] u by simp
qed

lemma ReadVarint_Cons:
  assumes "L = 2 ^ (unat b0 div 64)" and "length bs = L - 1"
  shows "ReadVarint (b0 # bs @ rest)
    = (if VarintLen (varint_value b0 bs) < L then Inl VarintNonMinimal
       else Inr (varint_value b0 bs, L))"
proof -
  have "0 < L" using assms(1) by simp
  then show ?thesis
    using assms by (simp add: ReadVarint_def varint_value_def unat_high2 Let_def)
qed

lemma ReadVarint_image:
  assumes "v \<le> MaxVarint"
  shows "ReadVarint (varint_image (VarintLen v) (unat v) @ rest) = Inr (v, VarintLen v)"
proof -
  define L where "L = VarintLen v"
  define q where "q = unat v div 256 ^ (L - 1)"
  define b0 :: byte where "b0 = of_nat (q + varint_tag L)"
  have q: "q < 64" unfolding q_def L_def by (rule VarintLen_bound [OF assms])
  obtain k where k: "L = 2 ^ k" "k < 4"
  proof -
    have "L = 2 ^ 0 \<or> L = 2 ^ 1 \<or> L = 2 ^ 2 \<or> L = 2 ^ 3"
      unfolding L_def by (simp add: VarintLen_def)
    then show ?thesis using that by fastforce
  qed
  have "q + 64 * k < 256" using q k(2) by linarith
  then have b0: "unat b0 = q + 64 * k"
    by (simp only: b0_def k(1) varint_tag_pow [OF k(2)] unat_of_nat_byte mod_less)
  have L: "L = 2 ^ (unat b0 div 64)" using b0 q k by simp
  have "L \<in> {1, 2, 4, 8}" unfolding L_def by (rule VarintLen_cases)
  then have len: "length (be (L - 1) (unat v)) \<le> 7" by auto
  have "unat (varint_value b0 (be (L - 1) (unat v))) = unat v"
    using unat_varint_value [OF len, of b0] b0 q div_mult_mod_eq [of "unat v" "256 ^ (L - 1)"]
    by (simp add: q_def)
  then have val: "varint_value b0 (be (L - 1) (unat v)) = v"
    by (rule word_unat_eq_iff [THEN iffD2])
  have "ReadVarint (b0 # be (L - 1) (unat v) @ rest) = Inr (v, L)"
    using ReadVarint_Cons [OF L, of "be (L - 1) (unat v)" rest] val by (simp add: L_def)
  then show ?thesis by (simp add: varint_image_def b0_def q_def L_def)
qed

lemma ReadVarint_Inr:
  assumes "ReadVarint b = Inr (v, L)"
  shows "v \<le> MaxVarint \<and> L = VarintLen v \<and> L \<le> length b \<and> take L b = varint_image L (unat v)"
proof -
  obtain b0 bs where b: "b = b0 # bs" using assms by (cases b) (simp_all add: ReadVarint_def)
  define k where "k = unat b0 div 64"
  have k: "k < 4" unfolding k_def by (rule high2_lt)
  have L: "L = 2 ^ k" "\<not> length b < 2 ^ k"
    using assms by (auto simp: ReadVarint_def b k_def unat_high2 Let_def split: if_splits)
  define t where "t = take (L - 1) bs"
  have Lc: "L \<in> {1, 2, 4, 8}" unfolding L(1) by (rule varint_pow_cases [OF k])
  have len: "length t = L - 1" using L b by (simp add: t_def)
  have len7: "length t \<le> 7" using len Lc by auto
  have bs: "bs = t @ drop (L - 1) bs" by (simp add: t_def)
  have read: "ReadVarint b = (if VarintLen (varint_value b0 t) < L then Inl VarintNonMinimal
       else Inr (varint_value b0 t, L))"
    unfolding b using ReadVarint_Cons [of L b0 t "drop (L - 1) bs"] L(1) len bs
    by (simp add: k_def)
  then have v: "v = varint_value b0 t" "L \<le> VarintLen v"
    using assms by (auto split: if_splits)
  have uv: "unat v = unat b0 mod 64 * 256 ^ (L - 1) + unbe t"
    using unat_varint_value [OF len7, of b0] v(1) len by simp
  have ut: "unbe t < 256 ^ (L - 1)" using unbe_lt [of t] len by simp
  have "unat v < (unat b0 mod 64 + 1) * 256 ^ (L - 1)" using uv ut by simp
  also have "\<dots> \<le> 64 * 256 ^ (L - 1)" by (intro mult_le_mono1) (simp add: Suc_le_eq)
  finally have lt: "unat v < 64 * 256 ^ (L - 1)" .
  have eqL: "L = VarintLen v" using VarintLen_le [OF lt Lc] v(2) by simp
  have max: "v \<le> MaxVarint" using lt Lc by (auto simp: u64_le_iff)
  have q: "unat v div 256 ^ (L - 1) = unat b0 mod 64" using uv ut by simp
  have "unat b0 mod 64 + 64 * k = unat b0" unfolding k_def by simp
  then have "unat v div 256 ^ (L - 1) + varint_tag L = unat b0"
    using q L(1) varint_tag_pow [OF k] by simp
  then have "of_nat (unat v div 256 ^ (L - 1) + varint_tag L) = (of_nat (unat b0) :: byte)"
    by (rule arg_cong)
  then have hd: "of_nat (unat v div 256 ^ (L - 1) + varint_tag L) = b0" by simp
  have "unat v mod 256 ^ (L - 1) = unbe t" using uv ut by simp
  then have "be (L - 1) (unat v) = t"
    using be_mod [of "L - 1" "unat v"] be_unbe_len [OF len] by simp
  moreover have "take L b = b0 # t" using L(1) by (simp add: b t_def take_Cons')
  ultimately show ?thesis using eqL max L hd by (simp add: varint_image_def)
qed

section \<open>The codec contract\<close>

lemma length_varint_image [simp]: "0 < L \<Longrightarrow> length (varint_image L n) = L"
  by (simp add: varint_image_def)

lemma VarintLen_pos [simp]: "0 < VarintLen v"
  by (simp add: VarintLen_def)

lemma AppendVarint_iff:
  "AppendVarint b v = Inr e \<longleftrightarrow>
     v \<le> MaxVarint \<and> e = b @ varint_image (VarintLen v) (unat v)"
proof (cases "v \<le> MaxVarint")
  case True
  then show ?thesis by (auto simp: AppendVarint_image)
next
  case False
  then have "MaxVarint < v" by simp
  with False show ?thesis by (simp add: AppendVarint_def)
qed

lemma AppendVarint_prefix: "AppendVarint b v = bindE (AppendVarint [] v) (\<lambda>w. Inr (b @ w))"
  by (simp add: AppendVarint_def)

interpretation varint: wire_codec "\<lambda>_. True" "AppendVarint []" ReadVarint
proof
  fix x e rest
  assume "AppendVarint [] x = Inr e"
  then show "ReadVarint (e @ rest) = Inr (x, length e)"
    by (simp add: AppendVarint_iff ReadVarint_image)
next
  fix b x n
  assume "ReadVarint b = Inr (x, n)"
  from ReadVarint_Inr [OF this] show "n \<le> length b \<and> True \<and> AppendVarint [] x = Inr (take n b)"
    by (auto simp: AppendVarint_iff)
qed

lemma ReadVarint_append:
  assumes "AppendVarint b v = Inr e"
  obtains w where "e = b @ w" "length w = VarintLen v" "AppendVarint [] v = Inr w"
    "\<And>rest. ReadVarint (w @ rest) = Inr (v, VarintLen v)"
  using assms that [of "varint_image (VarintLen v) (unat v)"]
  by (auto simp: AppendVarint_iff ReadVarint_image)

lemma ReadVarint_split:
  assumes "ReadVarint b = Inr (v, n)"
  obtains w rest where "b = w @ rest" "length w = n" "AppendVarint [] v = Inr w" "v \<le> MaxVarint"
proof -
  from varint.dec_accepts_iff [THEN iffD1, OF assms] obtain e r where
    e: "AppendVarint [] v = Inr e" "b = e @ r" "n = length e" by blast
  from e(1) have "v \<le> MaxVarint" by (simp add: AppendVarint_iff)
  with e show thesis by (intro that [of e r]) simp_all
qed

text \<open>
  The reader accepts a buffer with value v and length n exactly when the buffer
  starts with the n bytes the writer produces for v: the codec round-trips on every
  representable value whatever bytes follow, and no second spelling (a padded
  encoding, a value above the maximum) is accepted.
\<close>

lemma ReadVarint_accepts_iff:
  "ReadVarint b = Inr (v, n) \<longleftrightarrow> (\<exists>e r. AppendVarint [] v = Inr e \<and> b = e @ r \<and> n = length e)"
  using varint.dec_accepts_iff by simp

end
