(* ===== verification/PacketNumber.thy ===== *)
theory PacketNumber
  imports Varint
begin

text \<open>
  Truncated packet numbers, \<open>src/quicgm/packetnumber.go\<close>. Packet numbers are uint64
  words. The int64 comparisons of the decoder are signed comparisons of the same
  bit patterns.
\<close>

section \<open>Operations\<close>

type_synonym PacketNumberLen = nat

datatype pn_error = PNNotAboveAcked | PNGapTooLarge

definition ChoosePacketNumberLen :: "u64 \<Rightarrow> u64 option \<Rightarrow> pn_error + PacketNumberLen" where
  "ChoosePacketNumberLen pn largestAcked =
    (case largestAcked of
       None \<Rightarrow> Inr 4
     | Some la \<Rightarrow>
         if pn \<le> la then Inl PNNotAboveAcked
         else
           (let gap = pn - la in
            if gap < push_bit 7 1 then Inr 1
            else if gap < push_bit 15 1 then Inr 2
            else if gap < push_bit 23 1 then Inr 3
            else if gap < push_bit 31 1 then Inr 4
            else Inl PNGapTooLarge))"

definition TruncatePacketNumber :: "u64 \<Rightarrow> PacketNumberLen \<Rightarrow> u64" where
  "TruncatePacketNumber pn n =
    (if n < 1 \<or> n > 4 then 0 else pn AND (push_bit (8 * n) 1 - 1))"

definition DecodePacketNumber :: "u64 \<Rightarrow> u64 \<Rightarrow> PacketNumberLen \<Rightarrow> u64" where
  "DecodePacketNumber largestAcked truncatedPN n =
    (if n < 1 \<or> n > 4 then 0
     else
       (let pnNBits = 8 * n;
            pnWin = push_bit pnNBits 1 :: u64;
            pnHwin = drop_bit 1 pnWin;
            pnMask = pnWin - 1;
            expected = largestAcked + 1;
            candidateU = (expected AND NOT pnMask) OR truncatedPN in
        if sint candidateU \<le> sint (expected - pnHwin) \<and> candidateU + pnWin < push_bit 62 1
        then candidateU + pnWin
        else if sint candidateU > sint (expected + pnHwin) \<and> sint candidateU \<ge> sint pnWin
        then candidateU - pnWin
        else candidateU))"

definition AppendPacketNumber :: "bytes \<Rightarrow> u64 \<Rightarrow> PacketNumberLen \<Rightarrow> bytes" where
  "AppendPacketNumber b pn n =
    (if n < 1 \<or> n > 4 then b
     else
       (let t = TruncatePacketNumber pn n in
        b @ map (\<lambda>i. byte_at t (8 * i)) (rev [0..<n])))"

section \<open>Reconstruction\<close>

lemma sint_of_int_u64:
  "- 9223372036854775808 \<le> x \<Longrightarrow> x < 9223372036854775808 \<Longrightarrow> sint (of_int x :: u64) = x"
  by (simp add: signed_of_int signed_take_bit_int_eq_self)

lemma unat_Truncate:
  "1 \<le> n \<Longrightarrow> n \<le> 4 \<Longrightarrow> unat (TruncatePacketNumber pn n) = unat pn mod 256 ^ n"
proof -
  assume n: "1 \<le> n" "n \<le> 4"
  have "TruncatePacketNumber pn n = take_bit (8 * n) pn"
    using n by (simp add: TruncatePacketNumber_def take_bit_eq_mask mask_eq_exp_minus_1 push_bit_of_1)
  moreover have "(2::nat) ^ (8 * n) = 256 ^ n" by (simp add: power_mult)
  ultimately show ?thesis
    by (simp add: unsigned_take_bit_eq take_bit_eq_mod [where 'a = nat])
qed

lemma AppendPacketNumber_be:
  "1 \<le> n \<Longrightarrow> n \<le> 4 \<Longrightarrow> AppendPacketNumber b pn n = b @ be n (unat pn)"
  using be_mod [of n "unat pn"] by (simp add: AppendPacketNumber_def be_byte_at unat_Truncate)

text \<open>The candidate: the expected number with its low n bytes replaced.\<close>

lemma unat_candidate:
  assumes k: "k \<le> 32" and t: "unat t < 2 ^ k"
  shows "unat ((e AND NOT (push_bit k 1 - 1)) OR t :: u64) = unat e div 2 ^ k * 2 ^ k + unat t"
proof -
  have m: "(push_bit k 1 - 1 :: u64) = mask k"
    by (simp add: mask_eq_exp_minus_1 push_bit_of_1)
  have t': "take_bit k t = t"
    using t k by (simp add: u64_eq_iff unsigned_take_bit_eq take_bit_eq_mod [where 'a = nat])
  have hi: "e AND NOT (mask k) = push_bit k (drop_bit k e)"
    by (rule bit_eqI) (auto simp: bit_simps)
  have "(push_bit k (drop_bit k e)) AND take_bit k t = 0"
    by (rule bit_eqI) (auto simp: bit_simps)
  then have "(e AND NOT (push_bit k 1 - 1)) OR t = push_bit k (drop_bit k e) + t"
    by (simp only: m hi t' disjunctive_add_eq_or)
  also have "\<dots> = of_nat (unat e div 2 ^ k * 2 ^ k + unat t)"
    using k by (simp add: push_bit_eq_mult u64_eq_iff unat_word_ariths unat_of_nat
        unat_drop_bit_eq drop_bit_eq_div [where 'a = nat] mod_simps)
  finally have *: "unat ((e AND NOT (push_bit k 1 - 1)) OR t)
      = unat (of_nat (unat e div 2 ^ k * 2 ^ k + unat t) :: u64)" by (rule arg_cong)
  have "unat e div 2 ^ k * 2 ^ k + unat t < 18446744073709551616"
  proof -
    have "(18446744073709551616::nat) = 2 ^ (64 - k) * 2 ^ k"
      using k by (simp flip: power_add)
    moreover have "unat e div 2 ^ k < 2 ^ (64 - k)"
      using unat_u64_lt [of e] calculation by (simp only: less_mult_imp_div_less)
    then have "(unat e div 2 ^ k + 1) * 2 ^ k \<le> 2 ^ (64 - k) * 2 ^ k"
      by (intro mult_le_mono1) simp
    ultimately show ?thesis using t by simp
  qed
  then show ?thesis unfolding * by (rule unat_of_nat_u64)
qed

lemma sint_u64: "unat v < 9223372036854775808 \<Longrightarrow> sint (v :: u64) = int (unat v)"
proof -
  assume "unat v < 9223372036854775808"
  then have "int (unat v) < 9223372036854775808" by linarith
  then have "sint (of_int (int (unat v)) :: u64) = int (unat v)" by (intro sint_of_int_u64) linarith+
  then show ?thesis by simp
qed

text \<open>
  The decoder over the integers: with every quantity below \<open>2^63\<close> no addition of the
  code wraps and no signed comparison changes sign.
\<close>

lemma DecodePacketNumber_int:
  assumes n: "1 \<le> n" "n \<le> 4" and la: "unat la < 4611686018427387904" and t: "unat t < 256 ^ n"
  defines "win \<equiv> 256 ^ n :: nat" and "e \<equiv> unat la + 1"
  defines "c \<equiv> e div win * win + unat t"
  shows "unat (DecodePacketNumber la t n) =
    (if c + win div 2 \<le> e \<and> c + win < 4611686018427387904 then c + win
     else if c > e + win div 2 \<and> c \<ge> win then c - win
     else c)"
proof -
  define k where "k = 8 * n"
  have k: "k \<le> 32" "1 \<le> k" using n by (auto simp: k_def)
  have win: "2 ^ k = win" by (simp add: win_def k_def power_mult)
  have win_le: "win \<le> 4294967296"
  proof -
    have "(2::nat) ^ k \<le> 2 ^ 32" using k by (intro power_increasing) simp_all
    then show ?thesis using win by simp
  qed
  have even: "win = 2 * (win div 2)"
  proof -
    have "even ((2::nat) ^ k)" using k by simp
    then show ?thesis using win by auto
  qed
  define W where "W = (push_bit k 1 :: u64)"
  define H where "H = drop_bit 1 W"
  define E where "E = la + 1"
  define C where "C = (E AND NOT (W - 1)) OR t"
  have uW: "unat W = win" using k win by (simp add: W_def push_bit_of_1 unat_u64_pow2)
  have uH: "unat H = win div 2"
    by (simp add: H_def unat_drop_bit_eq uW drop_bit_eq_div [where 'a = nat])
  have uE: "unat E = e"
    using la by (simp add: E_def e_def unat_word_ariths)
  have uC: "unat C = c"
    unfolding C_def W_def using unat_candidate [OF k(1), of t E] t win uE
    by (simp add: c_def win_def)
  have e_le: "e \<le> 4611686018427387904" using la by (simp add: e_def)
  have "e div win * win \<le> e" by simp
  then have c_lt: "c < 4611686018427387904 + 4294967296"
    using t win_le e_le unfolding c_def win_def by linarith
  have s1: "sint (E - H) = int e - int (win div 2)"
  proof -
    have "E - H = of_int (int e - int (win div 2))" using uE uH by (simp flip: uE uH)
    then show ?thesis using e_le win_le by (simp only: sint_of_int_u64)
  qed
  have s2: "sint (E + H) = int e + int (win div 2)"
  proof -
    have "E + H = of_int (int e + int (win div 2))" by (simp flip: uE uH)
    then show ?thesis using e_le win_le by (simp only: sint_of_int_u64)
  qed
  have s3: "sint C = int c" and s4: "sint W = int win"
    using sint_u64 [of C] sint_u64 [of W] uC uW c_lt win_le by simp_all
  have a: "unat (C + W) = c + win"
    using uC uW c_lt win_le by (simp add: unat_word_ariths)
  have b: "unat (C - W) = c - win" if "win \<le> c"
    using that uC uW by (simp add: unat_sub_if')
  have lim: "C + W < push_bit 62 1 \<longleftrightarrow> c + win < 4611686018427387904"
    by (simp add: u64_less_iff a push_bit_of_1)
  have "DecodePacketNumber la t n =
    (if sint C \<le> sint (E - H) \<and> C + W < push_bit 62 1 then C + W
     else if sint C > sint (E + H) \<and> sint C \<ge> sint W then C - W else C)"
    using n unfolding C_def H_def E_def W_def k_def DecodePacketNumber_def Let_def by simp
  then show ?thesis
    unfolding s1 s2 s3 s4 lim using a b uC by auto
qed

text \<open>
  Replacing the low digit of e by that of p gives p up to one window; which of the
  three cases applies is decided by the distance to e.
\<close>

lemma window_reconstruct:
  fixes p e w :: nat
  assumes w: "0 < w" "even w" and lo: "e < p + w div 2" and hi: "p \<le> e + w div 2"
    and max: "p < M"
  defines "c \<equiv> e div w * w + p mod w"
  shows "(if c + w div 2 \<le> e \<and> c + w < M then c + w
          else if c > e + w div 2 \<and> c \<ge> w then c - w else c) = p"
proof -
  define h where "h = w div 2"
  have w2: "w = 2 * h" using w(2) by (auto simp: h_def)
  define qe qp where "qe = e div w" and "qp = p div w"
  define re rp where "re = e mod w" and "rp = p mod w"
  have e: "e = qe * w + re" "re < w" using w(1) by (simp_all add: qe_def re_def)
  have p: "p = qp * w + rp" "rp < w" using w(1) by (simp_all add: qp_def rp_def)
  have c: "c = qe * w + rp" by (simp add: c_def qe_def rp_def)
  have lo': "qe * w + re < qp * w + rp + h" and hi': "qp * w + rp \<le> qe * w + re + h"
    using lo hi e p by (simp_all add: h_def)
  consider "qp = qe" | "qp = qe + 1" | "qe = qp + 1"
  proof -
    have "qe * w < (qp + 2) * w" using lo' p(2) w2 by (simp add: algebra_simps)
    then have 1: "qe < qp + 2" by (metis mult_less_cancel2)
    have "qp * w < (qe + 2) * w" using hi' e(2) w2 w(1) by (simp add: algebra_simps)
    then have "qp < qe + 2" by (metis mult_less_cancel2)
    with 1 that show thesis by linarith
  qed
  then show ?thesis
  proof cases
    case 1
    then have "c = p" using c p by simp
    then show ?thesis using lo hi by auto
  next
    case 2
    then have cp: "p = c + w" using c p by (simp add: algebra_simps)
    have "c + w div 2 \<le> e" using cp hi w2 unfolding h_def [symmetric] by simp
    then show ?thesis using cp max by simp
  next
    case 3
    then have cp: "c = p + w" using c p by (simp add: algebra_simps)
    have "\<not> c + w div 2 \<le> e" "c > e + w div 2" "c \<ge> w"
      using cp lo w2 unfolding h_def [symmetric] by simp_all
    then show ?thesis using cp by simp
  qed
qed

lemma Decode_Truncate:
  assumes n: "1 \<le> n" "n \<le> 4"
    and pn: "unat pn < 4611686018427387904" and la: "unat la < 4611686018427387904"
    and lo: "unat la + 1 < unat pn + 256 ^ n div 2"
    and hi: "unat pn \<le> unat la + 1 + 256 ^ n div 2"
  shows "DecodePacketNumber la (TruncatePacketNumber pn n) n = pn"
proof -
  have even: "even (256 ^ n :: nat)" using n by simp
  have "unat (TruncatePacketNumber pn n) < 256 ^ n" using unat_Truncate [OF n] by simp
  note dec = DecodePacketNumber_int [OF n la this]
  have "unat (DecodePacketNumber la (TruncatePacketNumber pn n) n) = unat pn"
    unfolding dec unat_Truncate [OF n]
    by (intro window_reconstruct [OF _ even lo hi pn]) simp
  then show ?thesis by (simp only: u64_eq_iff)
qed

text \<open>
  C34. For every packet number below \<open>2^62\<close> that lies within half a window of the next
  expected number, ahead or behind, the decoder recovers the full number from its
  low n bytes.
\<close>

theorem DecodePacketNumber_window:
  assumes "1 \<le> n" and "n \<le> 4"
    and "unat pn < 2 ^ 62" and "unat la < 2 ^ 62"
    and "unat la + 1 < unat pn + 256 ^ n div 2"
    and "unat pn \<le> unat la + 1 + 256 ^ n div 2"
  shows "DecodePacketNumber la (TruncatePacketNumber pn n) n = pn"
  using assms by (intro Decode_Truncate) simp_all

theorem DecodePacketNumber_window_witness:
  "DecodePacketNumber 0xa82f30ea (TruncatePacketNumber 0xa82f9b32 2) 2 = 0xa82f9b32"
  by (rule DecodePacketNumber_window) simp_all

text \<open>The sender's choice of width always falls in that window.\<close>

lemma ChoosePacketNumberLen_window:
  assumes "ChoosePacketNumberLen pn (Some la) = Inr n"
  shows "1 \<le> n \<and> n \<le> 4 \<and> la < pn \<and> unat pn - unat la < 256 ^ n div 2"
proof -
  have gt: "unat la < unat pn"
    using assms by (auto simp: ChoosePacketNumberLen_def u64_le_iff split: if_splits)
  then have gap: "unat (pn - la) = unat pn - unat la"
    by (simp add: unat_sub_if')
  then show ?thesis
    using assms gt
    by (auto simp: ChoosePacketNumberLen_def u64_le_iff u64_less_iff Let_def push_bit_of_1
        split: if_splits)
qed

text \<open>
  C33. A width that \<open>ChoosePacketNumberLen\<close> returns is always enough: the receiver
  whose largest acknowledged number is the one the sender used recovers the packet
  number from the bytes \<open>AppendPacketNumber\<close> puts on the wire.
\<close>

theorem packet_number_roundtrip:
  assumes "ChoosePacketNumberLen pn (Some la) = Inr n" and "unat pn < 2 ^ 62"
  shows "\<exists>w. AppendPacketNumber b pn n = b @ w \<and> length w = n \<and>
    DecodePacketNumber la (of_nat (unbe w)) n = pn"
proof -
  from ChoosePacketNumberLen_window [OF assms(1)]
  have n: "1 \<le> n" "n \<le> 4" and la: "unat la < unat pn"
    and gap: "unat pn - unat la < 256 ^ n div 2" by (auto simp: u64_less_iff)
  have "of_nat (unbe (be n (unat pn))) = TruncatePacketNumber pn n"
    using unat_Truncate [OF n, of pn] by (simp flip: unat_Truncate [OF n])
  moreover have "DecodePacketNumber la (TruncatePacketNumber pn n) n = pn"
    using n la gap assms(2) by (intro Decode_Truncate) simp_all
  ultimately show ?thesis
    using n by (intro exI [of _ "be n (unat pn)"]) (simp add: AppendPacketNumber_be)
qed

theorem packet_number_roundtrip_witness:
  "\<exists>w. AppendPacketNumber [0x41] 0xac5c02 2 = [0x41] @ w \<and> length w = 2 \<and>
    DecodePacketNumber 0xabe8b3 (of_nat (unbe w)) 2 = 0xac5c02"
  by (rule packet_number_roundtrip) (simp_all add: ChoosePacketNumberLen_def)

end
