(* ===== verification/CryptoFrame.thy ===== *)
theory CryptoFrame
  imports Varint
begin

text \<open>
  QUIC CRYPTO frames, \<open>src/quicgm/crypto_frame.go\<close>: a type, a stream offset and a
  length as varints, then the data.
\<close>

section \<open>Operations\<close>

datatype crypto_frame_error =
    CryptoReadType varint_error
  | CryptoNotCrypto
  | CryptoReadOffset varint_error
  | CryptoReadLength varint_error
  | CryptoPosition
  | CryptoRemaining
  | CryptoTooLong

definition FrameTypeCrypto :: u64 where "FrameTypeCrypto = 0x06"

definition AppendCryptoFrame :: "bytes \<Rightarrow> u64 \<Rightarrow> bytes \<Rightarrow> varint_error + bytes" where
  "AppendCryptoFrame b offset data =
    bindE (AppendVarint b FrameTypeCrypto) (\<lambda>b.
    bindE (AppendVarint b offset) (\<lambda>b.
    bindE (AppendVarint b (of_nat (length data))) (\<lambda>b.
    Inr (b @ data))))"

definition maxCryptoFrameLen :: u64 where "maxCryptoFrameLen = push_bit 20 16"

definition ReadCryptoFrame :: "bytes \<Rightarrow> crypto_frame_error + ((u64 \<times> bytes) \<times> nat)" where
  "ReadCryptoFrame b =
    bindE (mapE CryptoReadType (ReadVarint b)) (\<lambda>(ft, m).
    let pos = m in
    if ft \<noteq> FrameTypeCrypto then Inl CryptoNotCrypto
    else bindE (mapE CryptoReadOffset (ReadVarint (drop pos b))) (\<lambda>(offset, m).
    let pos = pos + m in
    bindE (mapE CryptoReadLength (ReadVarint (drop pos b))) (\<lambda>(len, m).
    let pos = pos + m in
    if pos > length b then Inl CryptoPosition
    else
      (let remaining = length b - pos in
       if remaining < unat len then Inl CryptoRemaining
       else if len > maxCryptoFrameLen then Inl CryptoTooLong
       else
         (let end = pos + unat len in
          Inr ((offset, take (end - pos) (drop pos b)), end))))))"

section \<open>Round trip\<close>

lemma unat_maxCryptoFrameLen [simp]: "unat maxCryptoFrameLen = 16777216"
  by (simp add: maxCryptoFrameLen_def)

text \<open>The data lengths both sides accept.\<close>

definition crypto_ok :: "u64 \<times> bytes \<Rightarrow> bool" where
  "crypto_ok = (\<lambda>(offset, data). length data \<le> 16777216)"

lemma AppendCryptoFrame_iff:
  "AppendCryptoFrame b offset data = Inr e \<longleftrightarrow>
     (\<exists>t o' l. AppendVarint [] FrameTypeCrypto = Inr t \<and> AppendVarint [] offset = Inr o' \<and>
        AppendVarint [] (of_nat (length data)) = Inr l \<and> e = b @ t @ o' @ l @ data)"
  by (auto simp: AppendCryptoFrame_def bindE_Inr_iff AppendVarint_iff)

lemma ReadCryptoFrame_enc:
  assumes ok: "crypto_ok (offset, data)" and enc: "AppendCryptoFrame [] offset data = Inr e"
  shows "ReadCryptoFrame (e @ rest) = Inr ((offset, data), length e)"
proof -
  from enc obtain t o' l where
    t: "AppendVarint [] FrameTypeCrypto = Inr t" and off: "AppendVarint [] offset = Inr o'" and
    l: "AppendVarint [] (of_nat (length data)) = Inr l" and e: "e = t @ o' @ l @ data"
    by (auto simp: AppendCryptoFrame_iff)
  have len: "unat (of_nat (length data) :: u64) = length data"
    using ok by (intro unat_of_nat_u64) (simp add: crypto_ok_def)
  have 1: "ReadVarint (t @ xs) = Inr (FrameTypeCrypto, length t)" for xs
    by (rule varint.dec_enc [OF TrueI t])
  have 2: "ReadVarint (o' @ xs) = Inr (offset, length o')" for xs
    by (rule varint.dec_enc [OF TrueI off])
  have 3: "ReadVarint (l @ xs) = Inr (of_nat (length data), length l)" for xs
    by (rule varint.dec_enc [OF TrueI l])
  have "\<not> maxCryptoFrameLen < of_nat (length data)"
    using ok len by (simp add: u64_less_iff crypto_ok_def)
  then show ?thesis
    by (simp add: ReadCryptoFrame_def e 1 2 3 Let_def len)
qed

lemma ReadCryptoFrame_dec:
  assumes "ReadCryptoFrame b = Inr ((offset, data), n)"
  shows "n \<le> length b \<and> crypto_ok (offset, data) \<and> AppendCryptoFrame [] offset data = Inr (take n b)"
proof -
  from assms obtain m1 m2 m3 len where
    r1: "ReadVarint b = Inr (FrameTypeCrypto, m1)" and
    r2: "ReadVarint (drop m1 b) = Inr (offset, m2)" and
    r3: "ReadVarint (drop (m1 + m2) b) = Inr (len, m3)" and
    pos: "m1 + m2 + m3 \<le> length b" and
    rem: "unat len \<le> length b - (m1 + m2 + m3)" and
    max: "len \<le> maxCryptoFrameLen" and
    data: "data = take (unat len) (drop (m1 + m2 + m3) b)" and
    n: "n = m1 + m2 + m3 + unat len"
    by (auto simp: ReadCryptoFrame_def bindE_Inr_iff Let_def not_less split: if_splits)
  from ReadVarint_split [OF r1] obtain t b1 where
    t: "b = t @ b1" "length t = m1" "AppendVarint [] FrameTypeCrypto = Inr t" .
  have "drop m1 b = b1" using t by auto
  with ReadVarint_split [OF r2] obtain o' b2 where
    o: "b1 = o' @ b2" "length o' = m2" "AppendVarint [] offset = Inr o'" by metis
  have "drop (m1 + m2) b = b2" using t o by auto
  with ReadVarint_split [OF r3] obtain l b3 where
    l: "b2 = l @ b3" "length l = m3" "AppendVarint [] len = Inr l" by metis
  have d: "data = take (unat len) b3" using data t o l by simp
  have ld: "length data = unat len" using d rem t o l by simp
  then have "of_nat (length data) = len" by simp
  moreover have "take n b = t @ o' @ l @ data" using n t o l d by simp
  moreover have "unat len \<le> 16777216" using max by (simp add: u64_le_iff)
  ultimately show ?thesis
    using t o l ld n pos rem by (auto simp: AppendCryptoFrame_iff crypto_ok_def)
qed

interpretation crypto_frame: wire_codec crypto_ok
  "\<lambda>(offset, data). AppendCryptoFrame [] offset data" ReadCryptoFrame
  by unfold_locales (auto simp: ReadCryptoFrame_enc dest: ReadCryptoFrame_dec)

text \<open>
  The frame parser accepts a buffer exactly when it starts with the bytes
  \<open>AppendCryptoFrame\<close> writes for the offset and data it returns and the data are at
  most 16 MiB: the pair round-trips inside any packet payload, and no frame with
  padded varints or a larger length is accepted.
\<close>

lemma ReadCryptoFrame_accepts_iff:
  "ReadCryptoFrame b = Inr ((offset, data), n) \<longleftrightarrow>
     length data \<le> 16777216 \<and>
     (\<exists>e r. AppendCryptoFrame [] offset data = Inr e \<and> b = e @ r \<and> n = length e)"
  using crypto_frame.dec_accepts_iff [of b "(offset, data)" n] by (simp add: crypto_ok_def)

end
