(* ===== verification/AntiReplay.thy ===== *)
theory AntiReplay
  imports Prelude "HOL-Library.AList"
begin

text \<open>
  The 0-RTT anti-replay caches of \<open>src/quicgm/antireplay.go\<close>. Times and durations are
  integers in nanoseconds; the value of the clock read inside \<open>Check\<close> is an argument.
  The two Go maps are association lists with one entry per key. The eviction loop
  visits the buckets in list order; the lemma \<open>evict_seen\<close> describes its result
  without reference to that order, as the iteration order of a Go map is unspecified.
\<close>

section \<open>The interface\<close>

text \<open>The answers of a cache to a sequence of calls, each a clock value, a digest and an age.\<close>

primrec run_checks ::
  "('s \<Rightarrow> int \<Rightarrow> bytes \<Rightarrow> int \<Rightarrow> bool \<times> 's) \<Rightarrow> 's \<Rightarrow> (int \<times> bytes \<times> int) list \<Rightarrow> bool list" where
  "run_checks check s [] = []"
| "run_checks check s (c # cs) =
    (case c of (now, d, age) \<Rightarrow>
       (case check s now d age of (b, s') \<Rightarrow> b # run_checks check s' cs))"

text \<open>
  What a server that accepts early data relies on. \<open>remembers s d e\<close> says that the
  cache holds digest d until time e. The laws: an accepted digest is remembered for
  the window, a remembered digest is refused, and no call forgets a digest that has
  not expired.
\<close>

locale anti_replay_cache =
  fixes check :: "'s \<Rightarrow> int \<Rightarrow> bytes \<Rightarrow> int \<Rightarrow> bool \<times> 's"
    and span :: "'s \<Rightarrow> int"
    and remembers :: "'s \<Rightarrow> bytes \<Rightarrow> int \<Rightarrow> bool"
  assumes span_check: "span (snd (check s now d age)) = span s"
    and accept_remembers: "fst (check s now d age) \<Longrightarrow> remembers (snd (check s now d age)) d (now + span s)"
    and remembered_rejects: "remembers s d e \<Longrightarrow> now < e \<Longrightarrow> \<not> fst (check s now d age)"
    and remembered_kept: "remembers s d e \<Longrightarrow> now < e \<Longrightarrow> remembers (snd (check s now d' age)) d e"
begin

lemma remembered_run_rejects:
  assumes "remembers s d e" and "j < length cs" and "\<forall>i\<le>j. fst (cs ! i) < e"
    and "fst (snd (cs ! j)) = d"
  shows "\<not> run_checks check s cs ! j"
  using assms
proof (induction cs arbitrary: s j)
  case (Cons c cs)
  obtain now d' age where c: "c = (now, d', age)" by (cases c)
  obtain b s' where ck: "check s now d' age = (b, s')" by (cases "check s now d' age")
  have now: "now < e" using Cons.prems(3) c by (metis le0 nth_Cons_0 fst_conv)
  show ?case
  proof (cases j)
    case 0
    then show ?thesis
      using Cons.prems c ck now remembered_rejects [of s d e now age] by auto
  next
    case (Suc j')
    have "remembers s' d e" using remembered_kept [OF Cons.prems(1) now, of d' age] ck by simp
    moreover have "\<forall>i\<le>j'. fst (cs ! i) < e"
      using Cons.prems(3) Suc by (metis Suc_le_mono nth_Cons_Suc)
    ultimately show ?thesis using Cons.IH [of s' j'] Cons.prems Suc c ck by simp
  qed
qed simp

lemma no_double_accept:
  assumes "sorted (map fst cs)" and "i < j" and "j < length cs"
    and "fst (snd (cs ! i)) = fst (snd (cs ! j))"
    and "run_checks check s cs ! i" and "run_checks check s cs ! j"
  shows "fst (cs ! i) + span s \<le> fst (cs ! j)"
  using assms
proof (induction cs arbitrary: s i j)
  case (Cons c cs)
  obtain now d age where c: "c = (now, d, age)" by (cases c)
  obtain b s' where ck: "check s now d age = (b, s')" by (cases "check s now d age")
  obtain j' where j: "j = Suc j'" using Cons.prems(2) by (cases j) auto
  have span: "span s' = span s" using span_check [of s now d age] ck by simp
  show ?case
  proof (cases i)
    case (Suc i')
    then show ?thesis using Cons.IH [of i' j' s'] Cons.prems c ck j span by auto
  next
    case 0
    then have "remembers s' d (now + span s)"
      using Cons.prems(5) c ck accept_remembers [of s now d age] by simp
    moreover have "fst (snd (cs ! j')) = d" "j' < length cs" "run_checks check s' cs ! j'"
      using Cons.prems(3,4,6) 0 c j ck by simp_all
    ultimately obtain k where k: "k \<le> j'" "now + span s \<le> fst (cs ! k)"
      using remembered_run_rejects [of s' d "now + span s" j' cs] by (meson not_less)
    have "fst (cs ! k) \<le> fst (cs ! j')"
      using Cons.prems(1) k(1) \<open>j' < length cs\<close>
      by (auto simp: sorted_iff_nth_mono)
    then show ?thesis using k(2) 0 c j by simp
  qed
qed simp

end

section \<open>The memory cache\<close>

record memoryAntiReplayCache =
  seen :: "(bytes \<times> int) list"
  byExpiry :: "(int \<times> bytes list) list"
  window :: int
  maxAge :: int
  maxEntries :: int

datatype AntiReplayCache = rejectingAntiReplayCache | MemoryCache memoryAntiReplayCache

definition DefaultAntiReplayMaxEntries :: int where
  "DefaultAntiReplayMaxEntries = push_bit 20 1"

definition NewAntiReplayCacheWithCap :: "int \<Rightarrow> int \<Rightarrow> int \<Rightarrow> AntiReplayCache" where
  "NewAntiReplayCacheWithCap w ma me =
    (if w \<le> 0 \<or> ma \<le> 0 \<or> me \<le> 0 then rejectingAntiReplayCache
     else MemoryCache \<lparr> seen = [], byExpiry = [], window = w, maxAge = ma, maxEntries = me \<rparr>)"

definition NewAntiReplayCache :: "int \<Rightarrow> int \<Rightarrow> AntiReplayCache" where
  "NewAntiReplayCache w ma = NewAntiReplayCacheWithCap w ma DefaultAntiReplayMaxEntries"

text \<open>
  The eviction loop. \<open>c.seen[k]\<close> reads 0 for a missing key. The inner loop deletes the
  expired digests of one bucket, the outer one drops the expired buckets.
\<close>

definition seen_at :: "(bytes \<times> int) list \<Rightarrow> bytes \<Rightarrow> int" where
  "seen_at sn k = (case map_of sn k of None \<Rightarrow> 0 | Some e \<Rightarrow> e)"

fun evict_keys :: "int \<Rightarrow> bytes list \<Rightarrow> (bytes \<times> int) list \<Rightarrow> (bytes \<times> int) list" where
  "evict_keys now [] sn = sn"
| "evict_keys now (k # ks) sn =
    evict_keys now ks (if seen_at sn k \<le> now then AList.delete k sn else sn)"

fun evict :: "int \<Rightarrow> (int \<times> bytes list) list \<Rightarrow> memoryAntiReplayCache \<Rightarrow> memoryAntiReplayCache" where
  "evict now [] c = c"
| "evict now ((expBucket, ks) # bs) c =
    evict now bs
      (if expBucket \<le> now
       then c\<lparr>seen := evict_keys now ks (seen c), byExpiry := AList.delete expBucket (byExpiry c)\<rparr>
       else c)"

definition bucket :: "(int \<times> bytes list) list \<Rightarrow> int \<Rightarrow> bytes list" where
  "bucket bs e = (case map_of bs e of None \<Rightarrow> [] | Some ks \<Rightarrow> ks)"

definition memoryCheck :: "memoryAntiReplayCache \<Rightarrow> int \<Rightarrow> bytes \<Rightarrow> int \<Rightarrow> bool \<times> memoryAntiReplayCache" where
  "memoryCheck c nowN digest age =
    (if age < 0 \<or> age \<ge> maxAge c then (False, c)
     else if digest = [] then (False, c)
     else
       (let c = evict nowN (byExpiry c) c in
        if (case map_of (seen c) digest of Some exp \<Rightarrow> exp > nowN | None \<Rightarrow> False) then (False, c)
        else if int (length (seen c)) \<ge> maxEntries c then (False, c)
        else
          (let exp = nowN + window c in
           (True, c\<lparr>seen := AList.update digest exp (seen c),
                    byExpiry := AList.update exp (bucket (byExpiry c) exp @ [digest]) (byExpiry c)\<rparr>))))"

fun Check :: "AntiReplayCache \<Rightarrow> int \<Rightarrow> bytes \<Rightarrow> int \<Rightarrow> bool \<times> AntiReplayCache" where
  "Check rejectingAntiReplayCache nowN digest age = (False, rejectingAntiReplayCache)"
| "Check (MemoryCache c) nowN digest age =
    (case memoryCheck c nowN digest age of (b, c') \<Rightarrow> (b, MemoryCache c'))"

section \<open>Eviction\<close>

lemma distinct_evict_keys: "distinct (map fst sn) \<Longrightarrow> distinct (map fst (evict_keys now ks sn))"
  by (induction now ks sn rule: evict_keys.induct) (auto simp: distinct_delete)

lemma map_of_evict_keys:
  "map_of (evict_keys now ks sn) k =
     (if k \<in> set ks \<and> seen_at sn k \<le> now then None else map_of sn k)"
proof (induction now ks sn rule: evict_keys.induct)
  case (2 now k' ks sn)
  then show ?case by (auto simp: delete_conv' seen_at_def split: option.splits)
qed simp

lemma evict_fields [simp]:
  "window (evict now bs c) = window c"
  "maxAge (evict now bs c) = maxAge c"
  "maxEntries (evict now bs c) = maxEntries c"
  by (induction now bs c rule: evict.induct) auto

lemma distinct_evict:
  "distinct (map fst (seen c)) \<Longrightarrow> distinct (map fst (seen (evict now bs c)))"
  by (induction now bs c rule: evict.induct) (auto simp: distinct_evict_keys)

lemma distinct_evict_byExpiry:
  "distinct (map fst (byExpiry c)) \<Longrightarrow> distinct (map fst (byExpiry (evict now bs c)))"
  by (induction now bs c rule: evict.induct) (auto simp: distinct_delete)

lemma evict_seen:
  "map_of (seen (evict now bs c)) k =
     (if (\<exists>e ks. (e, ks) \<in> set bs \<and> e \<le> now \<and> k \<in> set ks) \<and> seen_at (seen c) k \<le> now
      then None else map_of (seen c) k)"
proof (induction now bs c rule: evict.induct)
  case (2 now e ks bs c)
  then show ?case
    by (auto simp: map_of_evict_keys seen_at_def split: if_splits option.splits)
qed simp

lemma evict_byExpiry:
  "map_of (byExpiry (evict now bs c)) e =
     (if e \<in> fst ` set bs \<and> e \<le> now then None else map_of (byExpiry c) e)"
proof (induction now bs c rule: evict.induct)
  case (2 now e' ks bs c)
  then show ?case by (auto simp: delete_conv' image_iff)
qed simp

section \<open>Invariant and refinement\<close>

text \<open>
  The two maps describe the same set of entries, with one entry per digest, within
  the capacity.
\<close>

definition cache_inv :: "memoryAntiReplayCache \<Rightarrow> bool" where
  "cache_inv c \<longleftrightarrow>
     distinct (map fst (seen c)) \<and> distinct (map fst (byExpiry c)) \<and>
     (\<forall>k e. map_of (seen c) k = Some e \<longleftrightarrow> k \<in> set (bucket (byExpiry c) e)) \<and>
     int (length (seen c)) \<le> maxEntries c \<and> 0 < window c"

text \<open>
  The specification: a set of digests with their expiry times. A digest is accepted
  when its age is in range, it is not empty, it is not live, and there is room.
\<close>

definition live :: "memoryAntiReplayCache \<Rightarrow> int \<Rightarrow> bytes \<rightharpoonup> int" where
  "live c now = (\<lambda>k. case map_of (seen c) k of
     Some e \<Rightarrow> if e > now then Some e else None | None \<Rightarrow> None)"

definition replay_spec ::
  "int \<Rightarrow> int \<Rightarrow> int \<Rightarrow> (bytes \<rightharpoonup> int) \<Rightarrow> int \<Rightarrow> bytes \<Rightarrow> int \<Rightarrow> bool \<times> (bytes \<rightharpoonup> int)" where
  "replay_spec win mage cap L now d age =
    (if 0 \<le> age \<and> age < mage \<and> d \<noteq> [] \<and> d \<notin> dom L \<and> int (card (dom L)) < cap
     then (True, L(d \<mapsto> now + win)) else (False, L))"

lemma cache_invD:
  assumes "cache_inv c"
  shows "distinct (map fst (seen c))" "distinct (map fst (byExpiry c))"
    "\<And>k e. map_of (seen c) k = Some e \<longleftrightarrow> k \<in> set (bucket (byExpiry c) e)"
    "int (length (seen c)) \<le> maxEntries c" "0 < window c"
  using assms by (auto simp: cache_inv_def)

lemma seen_evict_live:
  assumes "cache_inv c"
  shows "map_of (seen (evict now (byExpiry c) c)) = live c now"
proof
  fix k
  have "(\<exists>e ks. (e, ks) \<in> set (byExpiry c) \<and> e \<le> now \<and> k \<in> set ks)
      \<longleftrightarrow> (\<exists>e. map_of (seen c) k = Some e \<and> e \<le> now)"
    using cache_invD(2,3) [OF assms]
    by (auto simp: bucket_def split: option.splits)
  then show "map_of (seen (evict now (byExpiry c) c)) k = live c now k"
    by (auto simp: evict_seen live_def seen_at_def split: option.splits)
qed

lemma bucket_evict:
  "bucket (byExpiry (evict now (byExpiry c) c)) e =
     (if e \<le> now then [] else bucket (byExpiry c) e)"
proof -
  have "e \<in> fst ` set (byExpiry c) \<longleftrightarrow> map_of (byExpiry c) e \<noteq> None"
    by (simp add: map_of_eq_None_iff)
  then show ?thesis by (auto simp: bucket_def evict_byExpiry)
qed

lemma length_distinct_keys:
  "distinct (map fst xs) \<Longrightarrow> length xs = card (dom (map_of xs))"
  by (metis dom_map_of_conv_image_fst distinct_card length_map list.set_map)

lemma length_evict:
  "cache_inv c \<Longrightarrow> length (seen (evict now (byExpiry c) c)) = card (dom (live c now))"
  using length_distinct_keys [OF distinct_evict [OF cache_invD(1)], of c now "byExpiry c"]
  by (simp add: seen_evict_live)

lemma live_evict:
  "cache_inv c \<Longrightarrow> live (evict now (byExpiry c) c) now = live c now"
  by (auto simp: live_def seen_evict_live fun_eq_iff split: option.splits)

lemma card_live_le:
  assumes "cache_inv c"
  shows "card (dom (live c now)) \<le> length (seen c)"
proof -
  have "dom (live c now) \<subseteq> dom (map_of (seen c))"
    by (auto simp: live_def split: option.splits)
  then show ?thesis
    using length_distinct_keys [OF cache_invD(1) [OF assms]] card_mono finite_dom_map_of by metis
qed

lemma evict_inv:
  assumes "cache_inv c"
  shows "cache_inv (evict now (byExpiry c) c)"
proof -
  note inv = cache_invD [OF assms]
  have "live c now k = Some e \<longleftrightarrow> k \<in> set (if e \<le> now then [] else bucket (byExpiry c) e)" for k e
    using inv(3) [of k e] by (auto simp: live_def split: option.splits if_splits)
  then show ?thesis
    using inv(1,2,4,5) card_live_le [OF assms, of now]
    by (simp add: cache_inv_def distinct_evict distinct_evict_byExpiry seen_evict_live [OF assms]
        bucket_evict length_evict [OF assms])
qed

lemma length_update_new: "map_of xs d = None \<Longrightarrow> length (AList.update d e xs) = Suc (length xs)"
  by (induction xs) (auto split: if_splits)

lemma insert_inv:
  assumes inv: "cache_inv c" and new: "map_of (seen c) d = None"
    and room: "int (length (seen c)) < maxEntries c"
  shows "cache_inv (c\<lparr>seen := AList.update d e (seen c),
    byExpiry := AList.update e (bucket (byExpiry c) e @ [d]) (byExpiry c)\<rparr>)"
proof -
  have "length (AList.update d e (seen c)) = Suc (length (seen c))"
    by (rule length_update_new [OF new])
  moreover have "d \<notin> set (bucket (byExpiry c) e')" for e'
    using cache_invD(3) [OF inv, of d e'] new by simp
  ultimately show ?thesis
    using cache_invD [OF inv] room
    by (auto simp: cache_inv_def distinct_update update_conv' bucket_def)
qed

lemma memoryCheck_unfold:
  assumes "cache_inv c"
  shows "memoryCheck c now d age =
    (if age < 0 \<or> age \<ge> maxAge c \<or> d = [] then (False, c)
     else let c' = evict now (byExpiry c) c in
       if d \<in> dom (live c now) \<or> int (card (dom (live c now))) \<ge> maxEntries c then (False, c')
       else (True, c'\<lparr>seen := AList.update d (now + window c) (seen c'),
              byExpiry := AList.update (now + window c)
                (bucket (byExpiry c') (now + window c) @ [d]) (byExpiry c')\<rparr>))"
proof -
  have "(case map_of (seen (evict now (byExpiry c) c)) d of Some exp \<Rightarrow> exp > now | None \<Rightarrow> False)
      \<longleftrightarrow> d \<in> dom (live c now)"
    by (auto simp: seen_evict_live [OF assms] live_def dom_def split: option.splits)
  then show ?thesis
    by (simp add: memoryCheck_def Let_def length_evict [OF assms])
qed

lemma memoryCheck_inv: "cache_inv c \<Longrightarrow> cache_inv (snd (memoryCheck c now d age))"
  using insert_inv [OF evict_inv, of c now d "now + window c"]
  by (auto simp: memoryCheck_unfold Let_def evict_inv seen_evict_live length_evict domIff)

lemma memoryCheck_refines:
  assumes inv: "cache_inv c"
  shows "fst (memoryCheck c now d age)
      = fst (replay_spec (window c) (maxAge c) (maxEntries c) (live c now) now d age)"
    and "live (snd (memoryCheck c now d age)) now
      = snd (replay_spec (window c) (maxAge c) (maxEntries c) (live c now) now d age)"
proof -
  show "fst (memoryCheck c now d age)
      = fst (replay_spec (window c) (maxAge c) (maxEntries c) (live c now) now d age)"
    by (auto simp: memoryCheck_unfold [OF inv] replay_spec_def Let_def)
  have "live (evict now (byExpiry c) c\<lparr>seen := AList.update d (now + window c)
      (seen (evict now (byExpiry c) c)), byExpiry := b\<rparr>) now = (live c now)(d \<mapsto> now + window c)" for b
    using cache_invD(5) [OF inv] live_evict [OF inv, of now]
    by (auto simp: live_def update_conv' fun_eq_iff)
  then show "live (snd (memoryCheck c now d age)) now
      = snd (replay_spec (window c) (maxAge c) (maxEntries c) (live c now) now d age)"
    by (auto simp: memoryCheck_unfold [OF inv] replay_spec_def Let_def live_evict [OF inv])
qed

lemma memoryCheck_fields [simp]:
  "window (snd (memoryCheck c now d age)) = window c"
  "maxAge (snd (memoryCheck c now d age)) = maxAge c"
  "maxEntries (snd (memoryCheck c now d age)) = maxEntries c"
  by (simp_all add: memoryCheck_def Let_def)

section \<open>The contract\<close>

fun cache_span :: "AntiReplayCache \<Rightarrow> int" where
  "cache_span rejectingAntiReplayCache = 0"
| "cache_span (MemoryCache c) = window c"

fun cache_remembers :: "AntiReplayCache \<Rightarrow> bytes \<Rightarrow> int \<Rightarrow> bool" where
  "cache_remembers rejectingAntiReplayCache d e = False"
| "cache_remembers (MemoryCache c) d e = (map_of (seen c) d = Some e)"

lemma evict_keeps:
  "map_of (seen c) d = Some e \<Longrightarrow> now < e \<Longrightarrow> map_of (seen (evict now bs c)) d = Some e"
  by (simp add: evict_seen seen_at_def)

interpretation cache: anti_replay_cache Check cache_span cache_remembers
proof
  fix s :: AntiReplayCache and now d age d' e
  show "cache_span (snd (Check s now d age)) = cache_span s"
    by (cases s) (auto simp: memoryCheck_def Let_def)
  show "fst (Check s now d age) \<Longrightarrow> cache_remembers (snd (Check s now d age)) d (now + cache_span s)"
    by (cases s) (auto simp: memoryCheck_def Let_def update_conv' split: if_splits option.splits)
  show "cache_remembers s d e \<Longrightarrow> now < e \<Longrightarrow> \<not> fst (Check s now d age)"
    by (cases s) (auto simp: memoryCheck_def Let_def evict_keeps)
  show "cache_remembers s d e \<Longrightarrow> now < e \<Longrightarrow> cache_remembers (snd (Check s now d' age)) d e"
    by (cases s) (auto simp: memoryCheck_def Let_def evict_keeps update_conv' split: if_splits option.splits)
qed

lemma rejecting_never_accepts:
  "i < length cs \<Longrightarrow> \<not> run_checks Check rejectingAntiReplayCache cs ! i"
  by (induction cs arbitrary: i) (auto simp: nth_Cons' split: prod.splits)

lemma New_span:
  "cache_span (NewAntiReplayCacheWithCap w ma me) = w
   \<or> NewAntiReplayCacheWithCap w ma me = rejectingAntiReplayCache"
  by (simp add: NewAntiReplayCacheWithCap_def)

lemma New_inv: "NewAntiReplayCacheWithCap w ma me = MemoryCache c \<Longrightarrow> cache_inv c"
  by (auto simp: NewAntiReplayCacheWithCap_def cache_inv_def bucket_def split: if_splits)





end
