(* ===== verification/TicketKeys.thy ===== *)
theory TicketKeys
  imports Prelude
begin

text \<open>
  Rotation of the session-ticket encryption keys, \<open>src/quicgm/pskstore.go\<close>. Times are
  integers in nanoseconds. The random bytes a call reads and the values of the clock
  are arguments; a failed read is None. Zeroing the displaced key has no effect on
  later results, because \<open>keys\<close> hands out copies, and is not represented.
\<close>

section \<open>Operations\<close>

record ticketKeyRotator =
  current :: bytes
  previous :: "bytes option"
  rotatedAt :: int
  rotationPeriod :: int

datatype rotator_error = RotationPeriodNotPositive | SeedTooShort | RandFailed

definition SessionTicketKeyLen :: nat where "SessionTicketKeyLen = 16"

definition newTicketKeyRotator ::
  "bytes \<Rightarrow> int \<Rightarrow> bytes option \<Rightarrow> int \<Rightarrow> rotator_error + ticketKeyRotator" where
  "newTicketKeyRotator seed period rnd now =
    (if period \<le> 0 then Inl RotationPeriodNotPositive
     else
       bindE
         (if length seed > 0 then
            (if length seed < SessionTicketKeyLen then Inl SeedTooShort
             else Inr (take SessionTicketKeyLen seed))
          else (case rnd of None \<Rightarrow> Inl RandFailed | Some cur \<Rightarrow> Inr cur))
         (\<lambda>cur. Inr \<lparr>current = cur, previous = None, rotatedAt = now, rotationPeriod = period\<rparr>))"

definition rotateLocked :: "ticketKeyRotator \<Rightarrow> bytes option \<Rightarrow> int \<Rightarrow> ticketKeyRotator" where
  "rotateLocked r rnd now =
    (case rnd of
       None \<Rightarrow> r
     | Some next \<Rightarrow> r\<lparr>previous := Some (current r), current := next, rotatedAt := now\<rparr>)"

text \<open>\<open>rotate\<close> is \<open>rotateLocked\<close> under the mutex.\<close>

definition rotate_keys :: "ticketKeyRotator \<Rightarrow> bytes option \<Rightarrow> int \<Rightarrow> ticketKeyRotator" where
  "rotate_keys r rnd now = rotateLocked r rnd now"

text \<open>\<open>now1\<close> is the clock read that decides on rotation, \<open>now2\<close> the one that stamps it.\<close>

definition keys_call ::
  "ticketKeyRotator \<Rightarrow> int \<Rightarrow> bytes option \<Rightarrow> int \<Rightarrow> bytes list \<times> ticketKeyRotator" where
  "keys_call r now1 rnd now2 =
    (let r = (if now1 - rotatedAt r \<ge> rotationPeriod r then rotateLocked r rnd now2 else r) in
     ((case previous r of None \<Rightarrow> [current r] | Some prev \<Rightarrow> [current r, prev]), r))"

section \<open>A sequence of calls\<close>

type_synonym keys_input = "int \<times> bytes option \<times> int"

primrec run_keys :: "ticketKeyRotator \<Rightarrow> keys_input list \<Rightarrow> bytes list list" where
  "run_keys r [] = []"
| "run_keys r (c # cs) =
    (case c of (now1, rnd, now2) \<Rightarrow>
       (case keys_call r now1 rnd now2 of (ks, r') \<Rightarrow> ks # run_keys r' cs))"

text \<open>The clock reads of the calls, in order.\<close>

primrec clock_reads :: "keys_input list \<Rightarrow> int list" where
  "clock_reads [] = []"
| "clock_reads (c # cs) = fst c # snd (snd c) # clock_reads cs"

lemma length_run_keys [simp]: "length (run_keys r cs) = length cs"
  by (induction cs arbitrary: r) (auto split: prod.splits)

lemma clock_read_mem: "j < length cs \<Longrightarrow> fst (cs ! j) \<in> set (clock_reads cs)"
  by (induction cs arbitrary: j) (auto simp: nth_Cons split: nat.splits)

lemma keys_call_current: "hd (fst (keys_call r now1 rnd now2)) = current (snd (keys_call r now1 rnd now2))"
  by (auto simp: keys_call_def Let_def split: option.splits)

text \<open>\<open>holds_until r k t\<close>: k stays available to calls made before time t.\<close>

definition holds_until :: "ticketKeyRotator \<Rightarrow> bytes \<Rightarrow> int \<Rightarrow> bool" where
  "holds_until r k t \<longleftrightarrow>
     current r = k \<or> (previous r = Some k \<and> t \<le> rotatedAt r + rotationPeriod r)"

lemma keys_call_holds:
  assumes "holds_until r k t" and "t - rotationPeriod r \<le> now2" and "now1 < t"
  shows "holds_until (snd (keys_call r now1 rnd now2)) k t \<and> k \<in> set (fst (keys_call r now1 rnd now2))"
  using assms by (auto simp: keys_call_def rotateLocked_def holds_until_def Let_def split: option.splits)

lemma keys_call_period [simp]:
  "rotationPeriod (snd (keys_call r now1 rnd now2)) = rotationPeriod r"
  by (simp add: keys_call_def rotateLocked_def Let_def split: option.split)

lemma run_keys_holds:
  assumes "holds_until r k t" and "sorted ((t - rotationPeriod r) # clock_reads cs)"
    and "j < length cs" and "fst (cs ! j) < t"
  shows "k \<in> set (run_keys r cs ! j)"
  using assms
proof (induction cs arbitrary: r j)
  case (Cons c cs)
  obtain now1 rnd now2 where c: "c = (now1, rnd, now2)" by (cases c)
  let ?r' = "snd (keys_call r now1 rnd now2)"
  have run: "run_keys r (c # cs) = fst (keys_call r now1 rnd now2) # run_keys ?r' cs"
    by (simp add: c split: prod.split)
  have le: "fst ((c # cs) ! 0) \<le> fst ((c # cs) ! j)"
  proof (cases j)
    case (Suc j')
    have "fst (cs ! j') \<in> set (clock_reads cs)"
      using Cons.prems(3) Suc by (intro clock_read_mem) simp
    then show ?thesis using Cons.prems(2) Suc c by auto
  qed simp
  have now: "now1 < t" using le Cons.prems(4) c by simp
  have n2: "t - rotationPeriod r \<le> now2" using Cons.prems(2) c by simp
  note step = keys_call_holds [OF Cons.prems(1) n2 now, of rnd]
  show ?case
  proof (cases j)
    case 0
    then show ?thesis using step run by simp
  next
    case (Suc j')
    have "sorted ((t - rotationPeriod ?r') # clock_reads cs)" using Cons.prems(2) c by simp
    then show ?thesis using Cons.IH [of ?r' j'] step Cons.prems Suc run by simp
  qed
qed simp

lemma run_keys_current_kept:
  assumes "sorted (clock_reads cs)" and "i \<le> j" and "j < length cs"
    and "fst (cs ! j) < snd (snd (cs ! i)) + rotationPeriod r"
  shows "hd (run_keys r cs ! i) \<in> set (run_keys r cs ! j)"
  using assms
proof (induction cs arbitrary: r i j)
  case (Cons c cs)
  obtain now1 rnd now2 where c: "c = (now1, rnd, now2)" by (cases c)
  let ?r' = "snd (keys_call r now1 rnd now2)"
  have run: "run_keys r (c # cs) = fst (keys_call r now1 rnd now2) # run_keys ?r' cs"
    by (simp add: c split: prod.split)
  show ?case
  proof (cases j)
    case 0
    then show ?thesis
      using Cons.prems(2) run by (auto simp: keys_call_def Let_def split: option.splits)
  next
    case (Suc j')
    show ?thesis
    proof (cases i)
      case 0
      have "holds_until ?r' (current ?r') (now2 + rotationPeriod r)" by (simp add: holds_until_def)
      from run_keys_holds [OF this, of cs j'] show ?thesis
        using Cons.prems Suc 0 run c keys_call_current [of r now1 rnd now2] by simp
    next
      case (Suc i')
      then show ?thesis using Cons.IH [of i' j' ?r'] Cons.prems \<open>j = Suc j'\<close> run c by simp
    qed
  qed
qed simp

text \<open>
  C25. A key that \<open>keys\<close> returns as the current one stays among the returned keys for a
  full rotation period: every later call made less than one period after the first
  call finished still lists it, whatever rotations and failed random reads happen in
  between, provided the clock does not go backwards.
\<close>

theorem current_key_retained:
  assumes "sorted (clock_reads cs)" and "i \<le> j" and "j < length cs"
    and "fst (cs ! j) < snd (snd (cs ! i)) + rotationPeriod r"
  shows "hd (run_keys r cs ! i) \<in> set (run_keys r cs ! j)"
  by (rule run_keys_current_kept [OF assms])

theorem current_key_retained_witness:
  "\<exists>r. newTicketKeyRotator (replicate 16 1) 10 None 0 = Inr r \<and>
     hd (run_keys r [(1, None, 1), (10, Some (replicate 16 2), 10)] ! 0)
       \<in> set (run_keys r [(1, None, 1), (10, Some (replicate 16 2), 10)] ! 1)"
proof -
  let ?r = "\<lparr>current = replicate 16 1, previous = None, rotatedAt = 0, rotationPeriod = 10\<rparr>"
  have "newTicketKeyRotator (replicate 16 1) 10 None 0 = Inr ?r"
    by (simp add: newTicketKeyRotator_def SessionTicketKeyLen_def)
  moreover have "hd (run_keys ?r [(1, None, 1), (10, Some (replicate 16 2), 10)] ! 0)
       \<in> set (run_keys ?r [(1, None, 1), (10, Some (replicate 16 2), 10)] ! 1)"
    by (rule current_key_retained) simp_all
  ultimately show ?thesis by blast
qed

end
