(* ===== verification/Symmetric.thy ===== *)
theory Symmetric
  imports Codec
begin

text \<open>
  Symmetric primitives. The SM3 hash and the SM4 block cipher come from the gmsm
  package and are the fields of the parameter record \<open>gm_sym\<close>. What the Go standard
  library builds on them is modelled: HMAC (\<open>crypto/hmac\<close>), HKDF (\<open>crypto/hkdf\<close>) and GCM
  (\<open>crypto/cipher\<close>), together with the wrappers of \<open>src/sm3\<close> and the constructor
  \<open>NewGCM\<close> of \<open>src/sm4/modes.go\<close>.
\<close>

section \<open>Parameters\<close>

record gm_sym =
  sm3_Sum :: "bytes \<Rightarrow> bytes"
  sm4_Encrypt :: "bytes \<Rightarrow> bytes \<Rightarrow> bytes"
  sm4_Decrypt :: "bytes \<Rightarrow> bytes \<Rightarrow> bytes"

text \<open>
  What the package documents: a digest has 32 bytes; under a 16-byte key SM4 is a
  permutation of 16-byte blocks with its inverse.
\<close>

definition sm3_ok :: "'x gm_sym_scheme \<Rightarrow> bool" where
  "sm3_ok g \<longleftrightarrow> (\<forall>m. length (sm3_Sum g m) = 32)"

definition sm4_ok :: "'x gm_sym_scheme \<Rightarrow> bool" where
  "sm4_ok g \<longleftrightarrow> (\<forall>k b. length k = 16 \<longrightarrow> length b = 16 \<longrightarrow>
     length (sm4_Encrypt g k b) = 16 \<and> length (sm4_Decrypt g k b) = 16 \<and>
     sm4_Decrypt g k (sm4_Encrypt g k b) = b)"

lemma sm3_len [simp]: "sm3_ok g \<Longrightarrow> length (sm3_Sum g m) = 32"
  by (simp add: sm3_ok_def)

lemma sm4_len [simp]:
  "sm4_ok g \<Longrightarrow> length k = 16 \<Longrightarrow> length b = 16 \<Longrightarrow> length (sm4_Encrypt g k b) = 16"
  unfolding sm4_ok_def by blast

lemma sm4_inverse [simp]:
  "sm4_ok g \<Longrightarrow> length k = 16 \<Longrightarrow> length b = 16 \<Longrightarrow> sm4_Decrypt g k (sm4_Encrypt g k b) = b"
  unfolding sm4_ok_def by blast

text \<open>A concrete instance, for evaluating the model.\<close>

definition xorb :: "bytes \<Rightarrow> bytes \<Rightarrow> bytes" where
  "xorb = map2 (XOR)"

definition toy_hash :: "bytes \<Rightarrow> bytes" where
  "toy_hash m = be 32 (unbe m * 31 + length m + 7)"

definition toy_sym :: gm_sym where
  "toy_sym = \<lparr>sm3_Sum = toy_hash, sm4_Encrypt = xorb, sm4_Decrypt = xorb\<rparr>"

lemma length_xorb [simp]: "length (xorb a b) = min (length a) (length b)"
  by (simp add: xorb_def)

lemma xor_byte_cancel [simp]: "(a XOR b) XOR b = a" "b XOR (b XOR a) = a" for a b :: byte
  by (rule bit_eqI, auto simp: bit_simps)+

lemma xorb_cancel [simp]: "length a \<le> length k \<Longrightarrow> xorb (xorb a k) k = a"
  unfolding xorb_def by (rule nth_equalityI) auto

lemma xorb_self_cancel: "length a = length k \<Longrightarrow> xorb k (xorb k a) = a"
  unfolding xorb_def by (rule nth_equalityI) auto

lemma toy_sm3_ok: "sm3_ok toy_sym"
  by (simp add: sm3_ok_def toy_sym_def toy_hash_def)

lemma toy_sm4_ok: "sm4_ok toy_sym"
  by (simp add: sm4_ok_def toy_sym_def xorb_self_cancel)

section \<open>HMAC and HKDF\<close>

definition hmac_pad :: "'x gm_sym_scheme \<Rightarrow> bytes \<Rightarrow> bytes" where
  "hmac_pad g key =
    (let k = (if length key > 64 then sm3_Sum g key else key) in k @ replicate (64 - length k) 0)"

text \<open>\<open>sm3.NewHMAC(key)\<close>, \<open>Write(msg)\<close>, \<open>Sum(nil)\<close>.\<close>

definition NewHMAC :: "'x gm_sym_scheme \<Rightarrow> bytes \<Rightarrow> bytes \<Rightarrow> bytes" where
  "NewHMAC g key msg =
    (let k = hmac_pad g key in
     sm3_Sum g (map ((XOR) 0x5c) k @ sm3_Sum g (map ((XOR) 0x36) k @ msg)))"

datatype hkdf_error = HkdfLengthNotPositive | HkdfTooLarge

definition hkdfExtract :: "'x gm_sym_scheme \<Rightarrow> bytes \<Rightarrow> bytes \<Rightarrow> bytes" where
  "hkdfExtract g salt ikm = NewHMAC g (if salt = [] then replicate 32 0 else salt) ikm"

fun hkdf_blocks :: "'x gm_sym_scheme \<Rightarrow> bytes \<Rightarrow> bytes \<Rightarrow> bytes \<Rightarrow> nat \<Rightarrow> nat \<Rightarrow> bytes" where
  "hkdf_blocks g prk info prev counter 0 = []"
| "hkdf_blocks g prk info prev counter (Suc n) =
    (let t = NewHMAC g prk (prev @ info @ [of_nat counter]) in
     t @ hkdf_blocks g prk info t (counter + 1) n)"

definition hkdfExpand :: "'x gm_sym_scheme \<Rightarrow> bytes \<Rightarrow> bytes \<Rightarrow> nat \<Rightarrow> hkdf_error + bytes" where
  "hkdfExpand g prk info len =
    (if len > 255 * 32 then Inl HkdfTooLarge
     else Inr (take len (hkdf_blocks g prk info [] 1 ((len + 31) div 32))))"

definition HKDFExtract :: "'x gm_sym_scheme \<Rightarrow> bytes \<Rightarrow> bytes \<Rightarrow> hkdf_error + bytes" where
  "HKDFExtract g salt ikm = Inr (hkdfExtract g salt ikm)"

definition HKDFExpand :: "'x gm_sym_scheme \<Rightarrow> bytes \<Rightarrow> bytes \<Rightarrow> nat \<Rightarrow> hkdf_error + bytes" where
  "HKDFExpand g prk info len =
    (if len = 0 then Inl HkdfLengthNotPositive else hkdfExpand g prk info len)"

definition HKDF :: "'x gm_sym_scheme \<Rightarrow> bytes \<Rightarrow> bytes \<Rightarrow> bytes \<Rightarrow> nat \<Rightarrow> hkdf_error + bytes" where
  "HKDF g salt ikm info len =
    (if len = 0 then Inl HkdfLengthNotPositive
     else hkdfExpand g (hkdfExtract g salt ikm) info len)"

lemma length_NewHMAC [simp]: "sm3_ok g \<Longrightarrow> length (NewHMAC g key msg) = 32"
  by (simp add: NewHMAC_def Let_def)

lemma length_hkdfExtract [simp]: "sm3_ok g \<Longrightarrow> length (hkdfExtract g salt ikm) = 32"
  by (simp add: hkdfExtract_def)

lemma length_hkdf_blocks [simp]:
  "sm3_ok g \<Longrightarrow> length (hkdf_blocks g prk info prev c n) = 32 * n"
  by (induction n arbitrary: prev c) (simp_all add: Let_def)

lemma HKDFExpand_total:
  assumes "sm3_ok g" and "0 < len" and "len \<le> 8160"
  obtains okm where "HKDFExpand g prk info len = Inr okm" "length okm = len"
proof
  show "HKDFExpand g prk info len = Inr (take len (hkdf_blocks g prk info [] 1 ((len + 31) div 32)))"
    using assms by (simp add: HKDFExpand_def hkdfExpand_def)
  show "length (take len (hkdf_blocks g prk info [] 1 ((len + 31) div 32))) = len"
    using assms by simp
qed

section \<open>GCM\<close>

definition gcm_inc32 :: "bytes \<Rightarrow> bytes" where
  "gcm_inc32 j = take 12 j @ be 4 (unbe (drop 12 j) + 1)"

function gctr :: "'x gm_sym_scheme \<Rightarrow> bytes \<Rightarrow> bytes \<Rightarrow> bytes \<Rightarrow> bytes" where
  "gctr g key cb pt =
    (if pt = [] then []
     else xorb (take 16 pt) (sm4_Encrypt g key cb) @ gctr g key (gcm_inc32 cb) (drop 16 pt))"
  by auto
termination
  by (relation "measure (\<lambda>(g, key, cb, pt). length pt)") auto

declare gctr.simps [simp del]

text \<open>Multiplication in the field of GCM, most significant bit first.\<close>

definition gcm_mul :: "128 word \<Rightarrow> 128 word \<Rightarrow> 128 word" where
  "gcm_mul x y =
    fst (foldl (\<lambda>(z, v) i.
      (if bit x (127 - i) then z XOR v else z,
       if bit v 0 then drop_bit 1 v XOR push_bit 120 0xe1 else drop_bit 1 v)) (0, y) [0..<128])"

function gcm_chunks :: "bytes \<Rightarrow> bytes list" where
  "gcm_chunks b = (if b = [] then [] else take 16 b # gcm_chunks (drop 16 b))"
  by auto
termination
  by (relation "measure length") auto

declare gcm_chunks.simps [simp del]

definition gcm_pad :: "bytes \<Rightarrow> bytes" where
  "gcm_pad b = b @ replicate ((16 - length b mod 16) mod 16) 0"

definition ghash :: "128 word \<Rightarrow> bytes \<Rightarrow> 128 word" where
  "ghash h b = foldl (\<lambda>y c. gcm_mul (y XOR of_nat (unbe c)) h) 0 (gcm_chunks b)"

definition gcm_tag :: "'x gm_sym_scheme \<Rightarrow> bytes \<Rightarrow> bytes \<Rightarrow> bytes \<Rightarrow> bytes \<Rightarrow> bytes" where
  "gcm_tag g key nonce ct aad =
    (let h = of_nat (unbe (sm4_Encrypt g key (replicate 16 0)));
         s = ghash h (gcm_pad aad @ gcm_pad ct @ be 8 (8 * length aad) @ be 8 (8 * length ct)) in
     xorb (be 16 (unat s)) (sm4_Encrypt g key (nonce @ be 4 1)))"

definition gcm_max :: nat where "gcm_max = (2 ^ 32 - 2) * 16"

datatype aead_error = AeadNonceLen | AeadKeyLen | AeadTooLarge | AeadOpen

text \<open>\<open>cipher.AEAD.Seal\<close> panics on a plaintext above the limit; the panic is an error value.\<close>

definition gcm_Seal :: "'x gm_sym_scheme \<Rightarrow> bytes \<Rightarrow> bytes \<Rightarrow> bytes \<Rightarrow> bytes \<Rightarrow> aead_error + bytes" where
  "gcm_Seal g key nonce pt aad =
    (if length pt > gcm_max then Inl AeadTooLarge
     else
       (let ct = gctr g key (gcm_inc32 (nonce @ be 4 1)) pt in
        Inr (ct @ gcm_tag g key nonce ct aad)))"

definition gcm_Open :: "'x gm_sym_scheme \<Rightarrow> bytes \<Rightarrow> bytes \<Rightarrow> bytes \<Rightarrow> bytes \<Rightarrow> aead_error + bytes" where
  "gcm_Open g key nonce sealed aad =
    (if length sealed < 16 \<or> length sealed > gcm_max + 16 then Inl AeadOpen
     else
       (let ct = take (length sealed - 16) sealed; tag = drop (length sealed - 16) sealed in
        if gcm_tag g key nonce ct aad \<noteq> tag then Inl AeadOpen
        else Inr (gctr g key (gcm_inc32 (nonce @ be 4 1)) ct)))"

lemma length_inc32 [simp]: "length j = 16 \<Longrightarrow> length (gcm_inc32 j) = 16"
  by (simp add: gcm_inc32_def)

lemma gctr_Nil [simp]: "gctr g key cb [] = []"
  by (subst gctr.simps) simp

lemma gctr_step:
  "pt \<noteq> [] \<Longrightarrow> gctr g key cb pt =
     xorb (take 16 pt) (sm4_Encrypt g key cb) @ gctr g key (gcm_inc32 cb) (drop 16 pt)"
  by (subst gctr.simps) simp

lemma length_gctr [simp]:
  "sm4_ok g \<Longrightarrow> length key = 16 \<Longrightarrow> length cb = 16 \<Longrightarrow> length (gctr g key cb pt) = length pt"
proof (induction pt arbitrary: cb rule: length_induct)
  case (1 pt)
  then show ?case by (cases "pt = []") (simp_all add: gctr_step)
qed

lemma gctr_inverse [simp]:
  "sm4_ok g \<Longrightarrow> length key = 16 \<Longrightarrow> length cb = 16 \<Longrightarrow> gctr g key cb (gctr g key cb pt) = pt"
proof (induction pt arbitrary: cb rule: length_induct)
  case (1 pt)
  show ?case
  proof (cases "pt = []")
    case False
    define c where "c = xorb (take 16 pt) (sm4_Encrypt g key cb)"
    define r where "r = gctr g key (gcm_inc32 cb) (drop 16 pt)"
    have ct: "gctr g key cb pt = c @ r" using False by (simp add: gctr_step c_def r_def)
    have len: "length c = min (length pt) 16" using "1.prems" by (simp add: c_def)
    have r: "length r = length pt - 16" using "1.prems" by (simp add: r_def)
    have tk: "take 16 (c @ r) = c" and dr: "drop 16 (c @ r) = r"
      using len r by (cases "length pt \<le> 16"; simp)+
    have ne: "c @ r \<noteq> []" using len False by (cases pt) (auto simp: min_def split: if_splits)
    have "gctr g key (gcm_inc32 cb) r = drop 16 pt"
      unfolding r_def using "1.IH" "1.prems" False by simp
    moreover have "xorb c (sm4_Encrypt g key cb) = take 16 pt"
      unfolding c_def using "1.prems" by simp
    ultimately show ?thesis unfolding ct gctr_step [OF ne] tk dr by simp
  qed simp
qed

lemma length_gcm_tag [simp]:
  "sm4_ok g \<Longrightarrow> length key = 16 \<Longrightarrow> length nonce = 12 \<Longrightarrow> length (gcm_tag g key nonce ct aad) = 16"
  by (simp add: gcm_tag_def Let_def)

lemma gcm_Seal_total:
  assumes "sm4_ok g" and "length key = 16" and "length nonce = 12" and "length pt \<le> gcm_max"
  obtains ct where "gcm_Seal g key nonce pt aad = Inr ct" "length ct = length pt + 16"
    "gcm_Open g key nonce ct aad = Inr pt"
proof
  let ?c = "gctr g key (gcm_inc32 (nonce @ be 4 1)) pt"
  let ?ct = "?c @ gcm_tag g key nonce ?c aad"
  show "gcm_Seal g key nonce pt aad = Inr ?ct" using assms by (simp add: gcm_Seal_def Let_def)
  show "length ?ct = length pt + 16" using assms by simp
  show "gcm_Open g key nonce ?ct aad = Inr pt" using assms by (simp add: gcm_Open_def Let_def)
qed

lemma gcm_Seal_Inr:
  "gcm_Seal g key nonce pt aad = Inr ct \<Longrightarrow> length pt \<le> gcm_max"
  by (simp add: gcm_Seal_def split: if_splits)

end
