(* ===== verification/KeySchedule.thy ===== *)
theory KeySchedule
  imports Symmetric
begin

text \<open>
  The TLS 1.3 key schedule over SM3 and the QUIC packet keys derived from it:
  \<open>src/tls13gm/hkdf.go\<close>, \<open>labels.go\<close>, \<open>keyschedule.go\<close>, \<open>quic_keys.go\<close> and
  \<open>quic_header.go\<close>. Zeroing of intermediate secrets is not represented, and an error
  that the code wraps in a message keeps its inner value.
\<close>

section \<open>Labels\<close>

definition LabelDerived :: bytes where "LabelDerived = str ''derived''"
definition LabelFinished :: bytes where "LabelFinished = str ''finished''"
definition LabelResumption :: bytes where "LabelResumption = str ''resumption''"
definition LabelClientEarlyTraffic :: bytes where "LabelClientEarlyTraffic = str ''c e traffic''"
definition LabelClientHSTraffic :: bytes where "LabelClientHSTraffic = str ''c hs traffic''"
definition LabelServerHSTraffic :: bytes where "LabelServerHSTraffic = str ''s hs traffic''"
definition LabelClientAPTraffic :: bytes where "LabelClientAPTraffic = str ''c ap traffic''"
definition LabelServerAPTraffic :: bytes where "LabelServerAPTraffic = str ''s ap traffic''"
definition LabelExporterMaster :: bytes where "LabelExporterMaster = str ''exp master''"
definition LabelResumptionMaster :: bytes where "LabelResumptionMaster = str ''res master''"
definition LabelExternalBinder :: bytes where "LabelExternalBinder = str ''ext binder''"
definition LabelResumptionBinder :: bytes where "LabelResumptionBinder = str ''res binder''"
definition LabelEarlyExporterMaster :: bytes where "LabelEarlyExporterMaster = str ''e exp master''"
definition LabelTrafficUpdate :: bytes where "LabelTrafficUpdate = str ''traffic upd''"
definition LabelKey :: bytes where "LabelKey = str ''key''"
definition LabelIV :: bytes where "LabelIV = str ''iv''"
definition LabelQUICKey :: bytes where "LabelQUICKey = str ''quic key''"
definition LabelQUICIV :: bytes where "LabelQUICIV = str ''quic iv''"
definition LabelQUICHP :: bytes where "LabelQUICHP = str ''quic hp''"
definition LabelQUICKU :: bytes where "LabelQUICKU = str ''quic ku''"
definition LabelQUICClientIn :: bytes where "LabelQUICClientIn = str ''client in''"
definition LabelQUICServerIn :: bytes where "LabelQUICServerIn = str ''server in''"

lemmas label_defs = LabelDerived_def LabelFinished_def LabelResumption_def
  LabelClientEarlyTraffic_def LabelClientHSTraffic_def LabelServerHSTraffic_def
  LabelClientAPTraffic_def LabelServerAPTraffic_def LabelExporterMaster_def
  LabelResumptionMaster_def LabelExternalBinder_def LabelResumptionBinder_def
  LabelEarlyExporterMaster_def LabelTrafficUpdate_def LabelKey_def LabelIV_def
  LabelQUICKey_def LabelQUICIV_def LabelQUICHP_def LabelQUICKU_def
  LabelQUICClientIn_def LabelQUICServerIn_def

definition all_labels :: "bytes list" where
  "all_labels =
    [LabelDerived, LabelFinished, LabelResumption, LabelClientEarlyTraffic, LabelClientHSTraffic,
     LabelServerHSTraffic, LabelClientAPTraffic, LabelServerAPTraffic, LabelExporterMaster,
     LabelResumptionMaster, LabelExternalBinder, LabelResumptionBinder, LabelEarlyExporterMaster,
     LabelTrafficUpdate, LabelKey, LabelIV, LabelQUICKey, LabelQUICIV, LabelQUICHP, LabelQUICKU,
     LabelQUICClientIn, LabelQUICServerIn]"

section \<open>HKDF-Expand-Label\<close>

datatype kdf_error =
    KdfLength
  | KdfMaxExpand
  | KdfLabelTooLong
  | KdfContextTooLong
  | KdfHkdf hkdf_error
  | KdfEmptySecret
  | KdfUpdateLength
  | KdfEmptyDCID
  | KdfEmptyFinishedKey

definition buildHKDFLabel :: "bytes \<Rightarrow> bytes \<Rightarrow> nat \<Rightarrow> kdf_error + bytes" where
  "buildHKDFLabel label context len =
    (let fullLabel = str ''tls13 '' @ label in
     if length fullLabel > 255 then Inl KdfLabelTooLong
     else if length context > 255 then Inl KdfContextTooLong
     else Inr (be 2 len @ be 1 (length fullLabel) @ fullLabel @ be 1 (length context) @ context))"

definition HKDFExpandLabel ::
  "'x gm_sym_scheme \<Rightarrow> bytes \<Rightarrow> bytes \<Rightarrow> bytes \<Rightarrow> nat \<Rightarrow> kdf_error + bytes" where
  "HKDFExpandLabel g secret label context len =
    (if len = 0 \<or> len > 65535 then Inl KdfLength
     else if len > 255 * 32 then Inl KdfMaxExpand
     else bindE (buildHKDFLabel label context len) (\<lambda>hkdfLabel.
          mapE KdfHkdf (HKDFExpand g secret hkdfLabel len)))"

definition DeriveSecret :: "'x gm_sym_scheme \<Rightarrow> bytes \<Rightarrow> bytes \<Rightarrow> bytes \<Rightarrow> kdf_error + bytes" where
  "DeriveSecret g secret label transcriptHash = HKDFExpandLabel g secret label transcriptHash 32"

section \<open>The schedule\<close>

record TrafficKeys =
  Key :: bytes
  IV :: bytes

record QUICPacketKeys =
  AEADKey :: bytes
  AEADIV :: bytes
  HeaderKey :: bytes

definition DeriveEarlySecret :: "'x gm_sym_scheme \<Rightarrow> bytes \<Rightarrow> kdf_error + bytes" where
  "DeriveEarlySecret g ikm =
    (let ikm = (if length ikm = 0 then replicate 32 0 else ikm) in
     mapE KdfHkdf (HKDFExtract g [] ikm))"

definition DeriveHandshakeSecret :: "'x gm_sym_scheme \<Rightarrow> bytes \<Rightarrow> bytes \<Rightarrow> kdf_error + bytes" where
  "DeriveHandshakeSecret g earlySecret sharedSecret =
    bindE (DeriveSecret g earlySecret LabelDerived (sm3_Sum g [])) (\<lambda>derivedSecret.
    let sharedSecret = (if length sharedSecret = 0 then replicate 32 0 else sharedSecret) in
    mapE KdfHkdf (HKDFExtract g derivedSecret sharedSecret))"

definition DeriveMasterSecret :: "'x gm_sym_scheme \<Rightarrow> bytes \<Rightarrow> kdf_error + bytes" where
  "DeriveMasterSecret g handshakeSecret =
    bindE (DeriveSecret g handshakeSecret LabelDerived (sm3_Sum g [])) (\<lambda>derivedSecret.
    mapE KdfHkdf (HKDFExtract g derivedSecret (replicate 32 0)))"

definition DeriveTrafficKeys :: "'x gm_sym_scheme \<Rightarrow> bytes \<Rightarrow> nat \<Rightarrow> nat \<Rightarrow> kdf_error + TrafficKeys" where
  "DeriveTrafficKeys g trafficSecret keyLen ivLen =
    bindE (HKDFExpandLabel g trafficSecret LabelKey [] keyLen) (\<lambda>key.
    bindE (HKDFExpandLabel g trafficSecret LabelIV [] ivLen) (\<lambda>iv.
    Inr \<lparr>Key = key, IV = iv\<rparr>))"

definition DeriveFinishedKey :: "'x gm_sym_scheme \<Rightarrow> bytes \<Rightarrow> kdf_error + bytes" where
  "DeriveFinishedKey g trafficSecret = HKDFExpandLabel g trafficSecret LabelFinished [] 32"

definition ComputeFinishedVerifyData :: "'x gm_sym_scheme \<Rightarrow> bytes \<Rightarrow> bytes \<Rightarrow> kdf_error + bytes" where
  "ComputeFinishedVerifyData g finishedKey transcriptHash =
    (if length finishedKey = 0 then Inl KdfEmptyFinishedKey
     else Inr (NewHMAC g finishedKey transcriptHash))"

definition DeriveResumptionPSK :: "'x gm_sym_scheme \<Rightarrow> bytes \<Rightarrow> bytes \<Rightarrow> kdf_error + bytes" where
  "DeriveResumptionPSK g resumptionMasterSecret ticketNonce =
    HKDFExpandLabel g resumptionMasterSecret LabelResumption ticketNonce 32"

definition DeriveResumptionMasterSecret :: "'x gm_sym_scheme \<Rightarrow> bytes \<Rightarrow> bytes \<Rightarrow> kdf_error + bytes" where
  "DeriveResumptionMasterSecret g masterSecret transcriptHash =
    DeriveSecret g masterSecret LabelResumptionMaster transcriptHash"

definition DeriveExporterMasterSecret :: "'x gm_sym_scheme \<Rightarrow> bytes \<Rightarrow> bytes \<Rightarrow> kdf_error + bytes" where
  "DeriveExporterMasterSecret g masterSecret transcriptHash =
    DeriveSecret g masterSecret LabelExporterMaster transcriptHash"

definition DeriveQUICPacketKeys :: "'x gm_sym_scheme \<Rightarrow> bytes \<Rightarrow> kdf_error + QUICPacketKeys" where
  "DeriveQUICPacketKeys g trafficSecret =
    (if length trafficSecret = 0 then Inl KdfEmptySecret
     else
       bindE (HKDFExpandLabel g trafficSecret LabelQUICKey [] 16) (\<lambda>key.
       bindE (HKDFExpandLabel g trafficSecret LabelQUICIV [] 12) (\<lambda>iv.
       bindE (HKDFExpandLabel g trafficSecret LabelQUICHP [] 16) (\<lambda>hp.
       Inr \<lparr>AEADKey = key, AEADIV = iv, HeaderKey = hp\<rparr>))))"

definition DeriveEarlyTrafficKeys :: "'x gm_sym_scheme \<Rightarrow> bytes \<Rightarrow> bytes \<Rightarrow> kdf_error + QUICPacketKeys" where
  "DeriveEarlyTrafficKeys g psk transcriptHash =
    bindE (DeriveEarlySecret g psk) (\<lambda>earlySecret.
    bindE (DeriveSecret g earlySecret LabelClientEarlyTraffic transcriptHash) (\<lambda>earlyTraffic.
    DeriveQUICPacketKeys g earlyTraffic))"

definition QUICKeyUpdate :: "'x gm_sym_scheme \<Rightarrow> bytes \<Rightarrow> kdf_error + bytes" where
  "QUICKeyUpdate g trafficSecret =
    (if length trafficSecret = 0 then Inl KdfEmptySecret
     else
       bindE (HKDFExpandLabel g trafficSecret LabelQUICKU [] (length trafficSecret)) (\<lambda>out.
       if length out \<noteq> length trafficSecret then Inl KdfUpdateLength else Inr out))"

definition quicV1InitialSalt :: bytes where
  "quicV1InitialSalt =
    [0x38, 0x76, 0x2c, 0xf7, 0xf5, 0x59, 0x34, 0xb3, 0x4d, 0x17,
     0x9a, 0xe6, 0xa4, 0xc8, 0x0c, 0xad, 0xcc, 0xbb, 0x7f, 0x0a]"

definition DeriveQUICInitialSecret :: "'x gm_sym_scheme \<Rightarrow> bytes \<Rightarrow> kdf_error + bytes" where
  "DeriveQUICInitialSecret g dcid =
    (if length dcid = 0 then Inl KdfEmptyDCID
     else mapE KdfHkdf (HKDFExtract g quicV1InitialSalt dcid))"

definition DeriveQUICInitialSecrets :: "'x gm_sym_scheme \<Rightarrow> bytes \<Rightarrow> kdf_error + (bytes \<times> bytes)" where
  "DeriveQUICInitialSecrets g dcid =
    bindE (DeriveQUICInitialSecret g dcid) (\<lambda>initialSecret.
    bindE (HKDFExpandLabel g initialSecret LabelQUICClientIn [] 32) (\<lambda>clientIn.
    bindE (HKDFExpandLabel g initialSecret LabelQUICServerIn [] 32) (\<lambda>serverIn.
    Inr (clientIn, serverIn))))"

text \<open>\<open>QUICPacketKeys.Zero\<close>: the fields become nil.\<close>

definition QUICPacketKeys_Zero :: "QUICPacketKeys \<Rightarrow> QUICPacketKeys" where
  "QUICPacketKeys_Zero k = \<lparr>AEADKey = [], AEADIV = [], HeaderKey = []\<rparr>"

section \<open>Header protection mask\<close>

datatype hp_error = HpKeyLen | HpSampleLen

definition HeaderProtectionMask :: "'x gm_sym_scheme \<Rightarrow> bytes \<Rightarrow> bytes \<Rightarrow> hp_error + bytes" where
  "HeaderProtectionMask g hpKey sample =
    (if length hpKey \<noteq> 16 then Inl HpKeyLen
     else if length sample \<noteq> 16 then Inl HpSampleLen
     else Inr (sm4_Encrypt g hpKey sample))"

section \<open>Totality and sizes\<close>

lemma label_lengths [simp]: "l \<in> set all_labels \<Longrightarrow> length l \<le> 249"
  by (auto simp: all_labels_def label_defs)

lemma HKDFExpandLabel_total:
  assumes "sm3_ok g" and "length label \<le> 249" and "length context \<le> 255"
    and "0 < len" and "len \<le> 8160"
  obtains okm where "HKDFExpandLabel g secret label context len = Inr okm" "length okm = len"
proof -
  obtain hl where hl: "buildHKDFLabel label context len = Inr hl"
    using assms by (simp add: buildHKDFLabel_def Let_def)
  from HKDFExpand_total [OF assms(1,4,5)] obtain okm where
    "HKDFExpand g secret hl len = Inr okm" "length okm = len" by blast
  then show thesis using assms hl by (intro that [of okm]) (simp_all add: HKDFExpandLabel_def)
qed

lemma HKDFExpandLabel_length:
  assumes "sm3_ok g" and "HKDFExpandLabel g secret label context len = Inr okm"
  shows "length okm = len"
proof -
  have "0 < len" "len \<le> 8160" using assms(2) by (auto simp: HKDFExpandLabel_def split: if_splits)
  moreover have "length label \<le> 249" "length context \<le> 255"
    using assms(2)
    by (auto simp: HKDFExpandLabel_def buildHKDFLabel_def Let_def bindE_Inr_iff split: if_splits)
  ultimately show ?thesis using HKDFExpandLabel_total [OF assms(1)] assms(2) by (metis sum.inject(2))
qed

lemma DeriveSecret_total:
  assumes "sm3_ok g" and "label \<in> set all_labels" and "length h \<le> 255"
  obtains s where "DeriveSecret g secret label h = Inr s" "length s = 32"
  using HKDFExpandLabel_total [OF assms(1) label_lengths [OF assms(2)] assms(3), of 32]
  by (auto simp: DeriveSecret_def)

lemma DeriveSecret_length: "sm3_ok g \<Longrightarrow> DeriveSecret g secret label h = Inr s \<Longrightarrow> length s = 32"
  by (auto simp: DeriveSecret_def dest: HKDFExpandLabel_length)

lemma DeriveQUICPacketKeys_total:
  assumes "sm3_ok g" and "secret \<noteq> []"
  obtains k where "DeriveQUICPacketKeys g secret = Inr k"
    "length (AEADKey k) = 16" "length (AEADIV k) = 12" "length (HeaderKey k) = 16"
proof -
  have lab: "length LabelQUICKey \<le> 249" "length LabelQUICIV \<le> 249" "length LabelQUICHP \<le> 249"
    by (simp_all add: label_defs)
  obtain a where a: "HKDFExpandLabel g secret LabelQUICKey [] 16 = Inr a" "length a = 16"
    using HKDFExpandLabel_total [OF assms(1) lab(1), of "[]" 16 secret] by auto
  obtain b where b: "HKDFExpandLabel g secret LabelQUICIV [] 12 = Inr b" "length b = 12"
    using HKDFExpandLabel_total [OF assms(1) lab(2), of "[]" 12 secret] by auto
  obtain c where c: "HKDFExpandLabel g secret LabelQUICHP [] 16 = Inr c" "length c = 16"
    using HKDFExpandLabel_total [OF assms(1) lab(3), of "[]" 16 secret] by auto
  show thesis
    by (rule that [of "\<lparr>AEADKey = a, AEADIV = b, HeaderKey = c\<rparr>"])
       (use assms(2) a b c in \<open>simp_all add: DeriveQUICPacketKeys_def\<close>)
qed

definition packet_keys_wf :: "QUICPacketKeys \<Rightarrow> bool" where
  "packet_keys_wf k \<longleftrightarrow> length (AEADKey k) = 16 \<and> length (AEADIV k) = 12 \<and> length (HeaderKey k) = 16"

lemma DeriveQUICPacketKeys_wf:
  "sm3_ok g \<Longrightarrow> DeriveQUICPacketKeys g secret = Inr k \<Longrightarrow> packet_keys_wf k"
  by (auto simp: DeriveQUICPacketKeys_def packet_keys_wf_def bindE_Inr_iff
      dest: HKDFExpandLabel_length split: if_splits)

lemma DeriveQUICInitialSecrets_total:
  assumes "sm3_ok g" and "dcid \<noteq> []"
  obtains c s where "DeriveQUICInitialSecrets g dcid = Inr (c, s)" "length c = 32" "length s = 32"
proof -
  define i where "i = hkdfExtract g quicV1InitialSalt dcid"
  have lab: "length LabelQUICClientIn \<le> 249" "length LabelQUICServerIn \<le> 249"
    by (simp_all add: label_defs)
  obtain c where c: "HKDFExpandLabel g i LabelQUICClientIn [] 32 = Inr c" "length c = 32"
    using HKDFExpandLabel_total [OF assms(1) lab(1), of "[]" 32 i] by auto
  obtain s where s: "HKDFExpandLabel g i LabelQUICServerIn [] 32 = Inr s" "length s = 32"
    using HKDFExpandLabel_total [OF assms(1) lab(2), of "[]" 32 i] by auto
  show thesis
    by (rule that [of c s])
       (use assms(2) c s in \<open>simp_all add: DeriveQUICInitialSecrets_def DeriveQUICInitialSecret_def
          HKDFExtract_def i_def\<close>)
qed

lemma DeriveEarlySecret_Inr: "\<exists>s. DeriveEarlySecret g ikm = Inr s"
  by (simp add: DeriveEarlySecret_def HKDFExtract_def Let_def)

section \<open>Domain separation\<close>

lemma be_inject: "be k m = be k n \<Longrightarrow> m < 256 ^ k \<Longrightarrow> n < 256 ^ k \<Longrightarrow> m = n"
  by (metis unbe_be_id)

lemma length_prefixed_inject:
  assumes "be k (length a) @ a @ r = be k (length b) @ b @ s"
    and "length a < 256 ^ k" and "length b < 256 ^ k"
  shows "a = b \<and> r = s"
proof -
  have "be k (length a) = be k (length b)" and "a @ r = b @ s"
    using assms(1) by (auto simp: append_eq_append_conv)
  with be_inject [OF _ assms(2,3)] show ?thesis by (auto simp: append_eq_append_conv)
qed

lemma buildHKDFLabel_inject:
  assumes a: "buildHKDFLabel l c n = Inr i" and b: "buildHKDFLabel l' c' n' = Inr i"
    and n: "n \<le> 65535" "n' \<le> 65535"
  shows "l = l' \<and> c = c' \<and> n = n'"
proof -
  let ?f = "str ''tls13 '' @ l" and ?f' = "str ''tls13 '' @ l'"
  have len: "length ?f \<le> 255" "length c \<le> 255" "length ?f' \<le> 255" "length c' \<le> 255"
    using a b by (auto simp: buildHKDFLabel_def Let_def split: if_splits)
  have eq: "be 2 n @ be 1 (length ?f) @ ?f @ be 1 (length c) @ c
      = be 2 n' @ be 1 (length ?f') @ ?f' @ be 1 (length c') @ c'"
    using a b len by (simp add: buildHKDFLabel_def Let_def del: append_assoc) 
  then have hd: "be 2 n = be 2 n'"
    and tl: "be 1 (length ?f) @ ?f @ be 1 (length c) @ c
      = be 1 (length ?f') @ ?f' @ be 1 (length c') @ c'"
    by (simp_all add: append_eq_append_conv)
  have nn: "n = n'" using be_inject [OF hd] n by simp
  have f: "?f = ?f'" and tl2: "be 1 (length c) @ c = be 1 (length c') @ c'"
    using length_prefixed_inject [OF tl] len by simp_all
  have "c = c'" using length_prefixed_inject [of 1 c "[]" c' "[]"] tl2 len by simp
  with f nn show ?thesis by simp
qed

lemma distinct_labels: "distinct all_labels"
  by (simp add: all_labels_def label_defs str_def of_char_def)

text \<open>
  C36. Domain separation of the key schedule: the \<open>HkdfLabel\<close> inputs of two derivations
  coincide only when the output length, the label and the context coincide, and the
  labels of the schedule are pairwise distinct. So no two of the schedule's
  derivations from one secret share an expansion input.
\<close>

theorem hkdf_label_separation:
  assumes "buildHKDFLabel l c n = Inr i" and "buildHKDFLabel l' c' n' = Inr i"
    and "n \<le> 65535" and "n' \<le> 65535"
  shows "l = l' \<and> c = c' \<and> n = n' \<and> distinct all_labels"
  using buildHKDFLabel_inject [OF assms] distinct_labels by simp

theorem hkdf_label_separation_witness:
  "\<exists>i. buildHKDFLabel LabelQUICKey [] 16 = Inr i \<and> distinct all_labels"
  using hkdf_label_separation [of LabelQUICKey "[]" 16 _ LabelQUICKey "[]" 16]
  by (simp add: buildHKDFLabel_def label_defs)

end
