(* ===== verification/Aead.thy ===== *)
theory Aead
  imports Symmetric
begin

text \<open>
  The SM4-GCM packet cipher of \<open>src/tls13gm/aead.go\<close>: a fixed 12-byte nonce combined
  with a sequence number. The nonce construction of \<open>aead_ccm.go\<close> is the same loop.
\<close>

section \<open>The interface\<close>

text \<open>
  What packet protection and the session tickets rely on: sealing succeeds on every
  plaintext within the limit, adds 16 bytes, and is undone by opening with the same
  sequence number and additional data.
\<close>

locale packet_aead =
  fixes key_ok :: "'k \<Rightarrow> bool"
    and seal :: "'k \<Rightarrow> u64 \<Rightarrow> bytes \<Rightarrow> bytes \<Rightarrow> 'e + bytes"
    and opn :: "'k \<Rightarrow> u64 \<Rightarrow> bytes \<Rightarrow> bytes \<Rightarrow> 'e + bytes"
    and limit :: nat
  assumes seal_ok: "key_ok k \<Longrightarrow> length pt \<le> limit \<Longrightarrow>
      \<exists>ct. seal k s pt aad = Inr ct \<and> length ct = length pt + 16 \<and> opn k s ct aad = Inr pt"
    and seal_limit: "key_ok k \<Longrightarrow> seal k s pt aad = Inr ct \<Longrightarrow> length pt \<le> limit"
begin

lemma open_seal: "key_ok k \<Longrightarrow> seal k s pt aad = Inr ct \<Longrightarrow> opn k s ct aad = Inr pt"
  using seal_ok [OF _ seal_limit] by (metis sum.inject(2))

lemma seal_length: "key_ok k \<Longrightarrow> seal k s pt aad = Inr ct \<Longrightarrow> length ct = length pt + 16"
  using seal_ok [OF _ seal_limit] by (metis sum.inject(2))

lemma seal_inject: "key_ok k \<Longrightarrow> seal k s p aad = Inr ct \<Longrightarrow> seal k s q aad = Inr ct \<Longrightarrow> p = q"
  using open_seal by (metis sum.inject(2))

end

section \<open>Operations\<close>

record AEAD =
  aeadKey :: bytes
  fixedNonce :: bytes

definition NewGCM :: "bytes \<Rightarrow> aead_error + bytes" where
  "NewGCM key = (if length key \<noteq> 16 then Inl AeadKeyLen else Inr key)"

definition NewAEAD :: "bytes \<Rightarrow> bytes \<Rightarrow> aead_error + AEAD" where
  "NewAEAD key nonce =
    (if length nonce \<noteq> 12 then Inl AeadNonceLen
     else bindE (NewGCM key) (\<lambda>key. Inr \<lparr>aeadKey = key, fixedNonce = nonce\<rparr>))"

text \<open>The loop \<open>nonce[len(nonce)-1-i] ^= byte(seqNum >> (i * 8))\<close> for i from 0 to 7.\<close>

definition computeCCMNonce :: "bytes \<Rightarrow> u64 \<Rightarrow> bytes" where
  "computeCCMNonce fixed seqNum =
    foldl (\<lambda>nonce i. let p = length nonce - 1 - i in nonce[p := nonce ! p XOR byte_at seqNum (i * 8)])
      fixed [0..<8]"

definition computeNonce :: "AEAD \<Rightarrow> u64 \<Rightarrow> bytes" where
  "computeNonce a seqNum =
    foldl (\<lambda>nonce i. let p = length nonce - 1 - i in nonce[p := nonce ! p XOR byte_at seqNum (i * 8)])
      (fixedNonce a) [0..<8]"

definition AEAD_Seal :: "'x gm_sym_scheme \<Rightarrow> AEAD \<Rightarrow> u64 \<Rightarrow> bytes \<Rightarrow> bytes \<Rightarrow> aead_error + bytes" where
  "AEAD_Seal g a seqNum plaintext aad =
    (let nonce = computeNonce a seqNum in gcm_Seal g (aeadKey a) nonce plaintext aad)"

definition AEAD_Open :: "'x gm_sym_scheme \<Rightarrow> AEAD \<Rightarrow> u64 \<Rightarrow> bytes \<Rightarrow> bytes \<Rightarrow> aead_error + bytes" where
  "AEAD_Open g a seqNum ciphertext aad =
    (let nonce = computeNonce a seqNum in gcm_Open g (aeadKey a) nonce ciphertext aad)"

section \<open>Nonces\<close>

definition aead_wf :: "AEAD \<Rightarrow> bool" where
  "aead_wf a \<longleftrightarrow> length (aeadKey a) = 16 \<and> length (fixedNonce a) = 12"

lemma NewAEAD_iff:
  "NewAEAD key nonce = Inr a \<longleftrightarrow>
     length key = 16 \<and> length nonce = 12 \<and> a = \<lparr>aeadKey = key, fixedNonce = nonce\<rparr>"
  by (auto simp: NewAEAD_def NewGCM_def)

lemma NewAEAD_wf: "NewAEAD key nonce = Inr a \<Longrightarrow> aead_wf a"
  by (auto simp: NewAEAD_iff aead_wf_def)

lemma nonce_loop:
  assumes "length iv = 12"
  shows "computeCCMNonce iv s = take 4 iv @ xorb (drop 4 iv) (be 8 (unat s))"
proof -
  obtain a0 a1 a2 a3 a4 a5 a6 a7 a8 a9 a10 a11 where
    iv: "iv = [a0, a1, a2, a3, a4, a5, a6, a7, a8, a9, a10, a11]"
    using assms by (auto simp: length_Suc_conv numeral_eq_Suc)
  have u: "[0..<8] = [0, 1, 2, 3, 4, 5, 6, 7 :: nat]" by (simp add: upt_rec)
  have "rev [0..<8] = [7, 6, 5, 4, 3, 2, 1, 0 :: nat]" by (simp add: u)
  then have "be 8 (unat s) = map (\<lambda>i. byte_at s (8 * i)) [7, 6, 5, 4, 3, 2, 1, 0]"
    by (simp only: flip: be_byte_at)
  then show ?thesis by (simp add: computeCCMNonce_def u iv xorb_def Let_def)
qed

lemma computeNonce_eq: "computeNonce a s = computeCCMNonce (fixedNonce a) s"
  by (simp add: computeNonce_def computeCCMNonce_def)

lemma length_computeNonce [simp]: "aead_wf a \<Longrightarrow> length (computeNonce a s) = 12"
  by (simp add: computeNonce_eq nonce_loop aead_wf_def)

text \<open>
  C37. Under one key no two sequence numbers give the same GCM nonce: the nonce of a
  well-formed packet cipher is an injective function of the 64-bit sequence number.
\<close>

theorem computeNonce_inject:
  assumes "NewAEAD key iv = Inr a" and "computeNonce a s = computeNonce a t"
  shows "s = t"
proof -
  have iv: "length iv = 12" "fixedNonce a = iv" using assms(1) by (auto simp: NewAEAD_iff)
  have "xorb (drop 4 iv) (be 8 (unat s)) = xorb (drop 4 iv) (be 8 (unat t))"
    using assms(2) by (simp add: computeNonce_eq iv nonce_loop)
  then have "xorb (drop 4 iv) (xorb (drop 4 iv) (be 8 (unat s)))
      = xorb (drop 4 iv) (xorb (drop 4 iv) (be 8 (unat t)))" by (rule arg_cong)
  then have "be 8 (unat s) = be 8 (unat t)"
    using iv by (simp only: xorb_self_cancel length_be length_drop)
  then have "unbe (be 8 (unat s)) = unbe (be 8 (unat t))" by simp
  then have "unat s = unat t" by simp
  then show ?thesis by (rule u64_eq_iff [THEN iffD2])
qed

theorem computeNonce_inject_witness:
  "\<exists>a. NewAEAD (replicate 16 0) (replicate 12 0) = Inr a \<and>
     (computeNonce a 5 = computeNonce a (2 + 3) \<and> (5 :: u64) = 2 + 3)"
proof -
  obtain a where a: "NewAEAD (replicate 16 0) (replicate 12 0) = Inr a"
    by (simp add: NewAEAD_def NewGCM_def)
  have "(5 :: u64) = 2 + 3" by (rule computeNonce_inject [OF a]) simp
  with a show ?thesis by auto
qed

section \<open>The cipher implements the interface\<close>

interpretation sm4gcm: packet_aead "\<lambda>(g, a). sm4_ok g \<and> aead_wf a"
  "\<lambda>(g, a). AEAD_Seal g a" "\<lambda>(g, a). AEAD_Open g a" gcm_max
proof
  fix k :: "'x gm_sym_scheme \<times> AEAD" and pt aad :: bytes and s :: u64
  assume "(\<lambda>(g, a). sm4_ok g \<and> aead_wf a) k" and len: "length pt \<le> gcm_max"
  then obtain g a where k: "k = (g, a)" "sm4_ok g" "aead_wf a" by auto
  then have "length (aeadKey a) = 16" "length (computeNonce a s) = 12" by (simp_all add: aead_wf_def)
  from gcm_Seal_total [OF k(2) this len, of aad]
  show "\<exists>ct. (\<lambda>(g, a). AEAD_Seal g a) k s pt aad = Inr ct \<and> length ct = length pt + 16 \<and>
      (\<lambda>(g, a). AEAD_Open g a) k s ct aad = Inr pt"
    by (auto simp: k AEAD_Seal_def AEAD_Open_def Let_def)
next
  fix k :: "'x gm_sym_scheme \<times> AEAD" and pt aad ct :: bytes and s :: u64
  assume "(\<lambda>(g, a). AEAD_Seal g a) k s pt aad = Inr ct"
  then show "length pt \<le> gcm_max"
    by (cases k) (auto simp: AEAD_Seal_def Let_def dest: gcm_Seal_Inr)
qed

lemma AEAD_open_seal:
  "sm4_ok g \<Longrightarrow> aead_wf a \<Longrightarrow> AEAD_Seal g a s pt aad = Inr ct \<Longrightarrow> AEAD_Open g a s ct aad = Inr pt"
  using sm4gcm.open_seal [of "(g, a)"] by simp

lemma AEAD_seal_length:
  "sm4_ok g \<Longrightarrow> aead_wf a \<Longrightarrow> AEAD_Seal g a s pt aad = Inr ct \<Longrightarrow> length ct = length pt + 16"
  using sm4gcm.seal_length [of "(g, a)"] by simp

lemma AEAD_seal_total:
  assumes "sm4_ok g" "aead_wf a" "length pt \<le> gcm_max"
  obtains ct where "AEAD_Seal g a s pt aad = Inr ct"
  using sm4gcm.seal_ok [of "(g, a)" pt s aad] assms by auto

end
