(* ===== verification/PacketProtection.thy ===== *)
theory PacketProtection
  imports KeySchedule Aead PacketNumber
begin

text \<open>
  QUIC packet protection: the protector of \<open>src/quicgm/packet.go\<close> and the packet
  builders and openers of \<open>initial.go\<close>, \<open>longhandshake.go\<close> and \<open>short.go\<close>.

  A function that changes a caller's buffer in place returns the buffer together with
  its result, also when it returns an error. The mutex of the protector and the
  zeroing of a protector that is discarded are not represented.
\<close>

section \<open>The protector\<close>

record QUICPacketProtector =
  pkeys :: QUICPacketKeys
  paead :: "AEAD option"
  hpBlock :: "bytes option"

datatype packet_error =
    PkZeroed
  | PkNilKeys
  | PkKdf kdf_error
  | PkAead aead_error
  | PkHeaderCipher
  | PkOffset
  | PkNumberLen
  | PkNumberField
  | PkSample
  | PkNumberTooLarge
  | PkEmptyDCID
  | PkCIDTooLong
  | PkVarint varint_error
  | PkTooShort
  | PkNotLongHeader
  | PkNotShortHeader
  | PkFixedBit
  | PkType
  | PkTruncated32
  | PkVersion
  | PkCIDTruncatedLength
  | PkCIDTruncatedValue
  | PkDCIDMismatch
  | PkDCIDExceeds
  | PkNoPacketNumber
  | PkReadVarint varint_error
  | PkFieldTooLarge
  | PkFieldTruncated
  | PkReadLength varint_error
  | PkNumberLenNot4
  | PkLengthBelowNumber
  | PkLengthExceedsTail
  | PkLengthTooLarge
  | PkPayloadBelowTag

definition sm4GCMTagSize :: nat where "sm4GCMTagSize = 16"

definition newProtector :: "QUICPacketKeys \<Rightarrow> packet_error + QUICPacketProtector" where
  "newProtector keys =
    bindE (mapE PkAead (NewAEAD (AEADKey keys) (AEADIV keys))) (\<lambda>a.
    if length (HeaderKey keys) \<noteq> 16 then Inl PkHeaderCipher
    else Inr \<lparr>pkeys = keys, paead = Some a, hpBlock = Some (HeaderKey keys)\<rparr>)"

definition NewQUICPacketProtector :: "'x gm_sym_scheme \<Rightarrow> bytes \<Rightarrow> packet_error + QUICPacketProtector" where
  "NewQUICPacketProtector g trafficSecret =
    bindE (mapE PkKdf (DeriveQUICPacketKeys g trafficSecret)) newProtector"

definition NewQUICPacketProtectorFromKeys :: "QUICPacketKeys option \<Rightarrow> packet_error + QUICPacketProtector" where
  "NewQUICPacketProtectorFromKeys keys =
    (case keys of None \<Rightarrow> Inl PkNilKeys | Some k \<Rightarrow> newProtector k)"

definition EncryptPayload ::
  "'x gm_sym_scheme \<Rightarrow> QUICPacketProtector \<Rightarrow> u64 \<Rightarrow> bytes \<Rightarrow> bytes \<Rightarrow> packet_error + bytes" where
  "EncryptPayload g p pn header payload =
    (case paead p of None \<Rightarrow> Inl PkZeroed | Some a \<Rightarrow> mapE PkAead (AEAD_Seal g a pn payload header))"

definition DecryptPayload ::
  "'x gm_sym_scheme \<Rightarrow> QUICPacketProtector \<Rightarrow> u64 \<Rightarrow> bytes \<Rightarrow> bytes \<Rightarrow> packet_error + bytes" where
  "DecryptPayload g p pn header ciphertext =
    (case paead p of None \<Rightarrow> Inl PkZeroed | Some a \<Rightarrow> mapE PkAead (AEAD_Open g a pn ciphertext header))"

definition headerMask :: "'x gm_sym_scheme \<Rightarrow> bytes \<Rightarrow> bytes \<Rightarrow> nat \<Rightarrow> packet_error + bytes" where
  "headerMask g hp buffer pnOffset =
    (let sampleStart = pnOffset + 4; sampleEnd = sampleStart + 16 in
     if sampleEnd > length buffer then Inl PkSample
     else Inr (sm4_Encrypt g hp (take (sampleEnd - sampleStart) (drop sampleStart buffer))))"

definition validateHeaderArgs :: "bytes \<Rightarrow> nat \<Rightarrow> nat \<Rightarrow> packet_error + unit" where
  "validateHeaderArgs buffer pnOffset pnLen =
    (if pnOffset < 1 then Inl PkOffset
     else if pnLen < 1 \<or> pnLen > 4 then Inl PkNumberLen
     else if pnOffset + pnLen > length buffer then Inl PkNumberField
     else Inr ())"

definition firstByteMask :: "bool \<Rightarrow> byte" where
  "firstByteMask isLongHeader = (if isLongHeader then 0x0f else 0x1f)"

text \<open>The loop \<open>for i := range pnLen { buffer[pnOffset+i] ^= mask[1+i] }\<close>.\<close>

definition xorNumber :: "bytes \<Rightarrow> bytes \<Rightarrow> nat \<Rightarrow> nat \<Rightarrow> bytes" where
  "xorNumber buffer msk pnOffset pnLen =
    foldl (\<lambda>b i. b[pnOffset + i := b ! (pnOffset + i) XOR msk ! (1 + i)]) buffer [0..<pnLen]"

definition xorHeaderMask :: "bytes \<Rightarrow> bytes \<Rightarrow> nat \<Rightarrow> nat \<Rightarrow> bool \<Rightarrow> bytes" where
  "xorHeaderMask buffer msk pnOffset pnLen isLongHeader =
    xorNumber (buffer[0 := buffer ! 0 XOR (msk ! 0 AND firstByteMask isLongHeader)])
      msk pnOffset pnLen"

definition decodePacketNumber :: "bytes \<Rightarrow> u64" where
  "decodePacketNumber pnBytes = shift_or_acc 0 pnBytes"

definition ApplyHeaderProtection ::
  "'x gm_sym_scheme \<Rightarrow> QUICPacketProtector \<Rightarrow> bytes \<Rightarrow> nat \<Rightarrow> nat \<Rightarrow> bool \<Rightarrow> packet_error + bytes" where
  "ApplyHeaderProtection g p buffer pnOffset pnLen isLongHeader =
    (case hpBlock p of
       None \<Rightarrow> Inl PkZeroed
     | Some hp \<Rightarrow>
         bindE (validateHeaderArgs buffer pnOffset pnLen) (\<lambda>_.
         bindE (headerMask g hp buffer pnOffset) (\<lambda>msk.
         Inr (xorHeaderMask buffer msk pnOffset pnLen isLongHeader))))"

definition RemoveHeaderProtection ::
  "'x gm_sym_scheme \<Rightarrow> QUICPacketProtector \<Rightarrow> bytes \<Rightarrow> nat \<Rightarrow> bool \<Rightarrow> bytes \<times> (packet_error + u64)" where
  "RemoveHeaderProtection g p buffer pnOffset isLongHeader =
    (case hpBlock p of
       None \<Rightarrow> (buffer, Inl PkZeroed)
     | Some hp \<Rightarrow>
         if pnOffset < 1 \<or> pnOffset \<ge> length buffer then (buffer, Inl PkOffset)
         else
           (case headerMask g hp buffer pnOffset of
              Inl e \<Rightarrow> (buffer, Inl e)
            | Inr msk \<Rightarrow>
                (let buffer = buffer[0 := buffer ! 0 XOR (msk ! 0 AND firstByteMask isLongHeader)];
                     pnLen = unat (buffer ! 0 AND 0x03) + 1 in
                 if pnOffset + pnLen > length buffer then (buffer, Inl PkNumberField)
                 else
                   (let buffer = xorNumber buffer msk pnOffset pnLen in
                    (buffer, Inr (decodePacketNumber (take pnLen (drop pnOffset buffer))))))))"

definition Keys :: "QUICPacketProtector \<Rightarrow> QUICPacketKeys" where
  "Keys p = pkeys p"

definition Protector_Zero :: "QUICPacketProtector \<Rightarrow> QUICPacketProtector" where
  "Protector_Zero p = p\<lparr>pkeys := QUICPacketKeys_Zero (pkeys p), paead := None, hpBlock := None\<rparr>"

section \<open>Header fields\<close>

definition QUICVersion1 :: u32 where "QUICVersion1 = 1"

definition initialPacketNumberLen :: nat where "initialPacketNumberLen = 4"

definition appendUint32 :: "bytes \<Rightarrow> nat \<Rightarrow> bytes" where
  "appendUint32 b v = b @ be 4 v"

definition readUint32 :: "bytes \<Rightarrow> nat \<Rightarrow> packet_error + (u32 \<times> nat)" where
  "readUint32 b pos =
    (if pos + 4 > length b then Inl PkTruncated32
     else Inr (of_nat (unbe (take 4 (drop pos b))), pos + 4))"

definition checkCIDLen :: "bytes \<Rightarrow> packet_error + unit" where
  "checkCIDLen cid = (if length cid > 255 then Inl PkCIDTooLong else Inr ())"

definition readCID :: "bytes \<Rightarrow> nat \<Rightarrow> packet_error + (bytes \<times> nat)" where
  "readCID b pos =
    (if pos + 1 > length b then Inl PkCIDTruncatedLength
     else
       (let l = unat (b ! pos); pos = pos + 1 in
        if pos + l > length b then Inl PkCIDTruncatedValue
        else Inr (take l (drop pos b), pos + l)))"

definition skipCID :: "bytes \<Rightarrow> nat \<Rightarrow> packet_error + nat" where
  "skipCID b pos =
    (if pos + 1 > length b then Inl PkCIDTruncatedLength
     else
       (let l = unat (b ! pos); pos = pos + 1 in
        if pos + l > length b then Inl PkCIDTruncatedValue
        else Inr (pos + l)))"

definition readVarintBytes :: "bytes \<Rightarrow> nat \<Rightarrow> packet_error + (bytes \<times> nat)" where
  "readVarintBytes b pos =
    bindE (mapE PkReadVarint (ReadVarint (drop pos b))) (\<lambda>(v, n).
    if v > push_bit 31 1 - 1 then Inl PkFieldTooLarge
    else
      (let start = pos + n; end = start + unat v in
       if end > length b then Inl PkFieldTruncated
       else Inr (take (unat v) (drop start b), end)))"

section \<open>Long-header packets\<close>

definition SealInitialPacket ::
  "'x gm_sym_scheme \<Rightarrow> bytes \<Rightarrow> bytes \<Rightarrow> bytes \<Rightarrow> u64 \<Rightarrow> bytes \<Rightarrow> packet_error + bytes" where
  "SealInitialPacket g dcid scid token pn payload =
    (if pn > 0xFFFFFFFF then Inl PkNumberTooLarge
     else if length dcid = 0 then Inl PkEmptyDCID
     else
       bindE (mapE PkKdf (DeriveQUICInitialSecrets g dcid)) (\<lambda>(clientIn, _).
       bindE (NewQUICPacketProtector g clientIn) (\<lambda>protector.
       let pnLen = initialPacketNumberLen;
           firstByte = 0xC0 OR of_nat (pnLen - 1);
           hdr = [firstByte];
           hdr = appendUint32 hdr (unat QUICVersion1) in
       bindE (checkCIDLen dcid) (\<lambda>_.
       let hdr = hdr @ [of_nat (length dcid)] @ dcid in
       bindE (checkCIDLen scid) (\<lambda>_.
       let hdr = hdr @ [of_nat (length scid)] @ scid in
       bindE (mapE PkVarint (AppendVarint hdr (of_nat (length token)))) (\<lambda>hdr.
       let hdr = hdr @ token;
           ciphertextLen = length payload + sm4GCMTagSize in
       bindE (mapE PkVarint (AppendVarint hdr (of_nat (pnLen + ciphertextLen)))) (\<lambda>hdr.
       let pnOffset = length hdr;
           hdr = appendUint32 hdr (unat pn) in
       bindE (EncryptPayload g protector pn hdr payload) (\<lambda>ciphertext.
       let packet = hdr @ ciphertext in
       ApplyHeaderProtection g protector packet pnOffset pnLen True))))))))"

text \<open>
  The tail shared by the two long-header openers, from the removal of header
  protection on: \<open>initial.go\<close> 164-197 and \<open>longhandshake.go\<close> 128-166.
\<close>

definition openLongTail ::
  "'x gm_sym_scheme \<Rightarrow> QUICPacketProtector \<Rightarrow> bytes \<Rightarrow> nat \<Rightarrow> u64 \<Rightarrow> bytes \<times> (packet_error + (u64 \<times> bytes))" where
  "openLongTail g protector packet pnOffset len =
    (case RemoveHeaderProtection g protector packet pnOffset True of
       (packet, Inl e) \<Rightarrow> (packet, Inl e)
     | (packet, Inr pn) \<Rightarrow>
         (packet,
          (let pnLen = unat (packet ! 0 AND 0x03) + 1 in
           if pnLen \<noteq> 4 then Inl PkNumberLenNot4
           else if of_nat pnLen > len then Inl PkLengthBelowNumber
           else if unat len > length packet - pnOffset then Inl PkLengthExceedsTail
           else if len > push_bit 31 1 - 1 then Inl PkLengthTooLarge
           else
             (let ctLen = unat len - pnLen;
                  headerEnd = pnOffset + pnLen;
                  headerAAD = take headerEnd packet;
                  ciphertext = take ctLen (drop headerEnd packet) in
              bindE (DecryptPayload g protector pn headerAAD ciphertext) (\<lambda>payload.
              Inr (pn, payload))))))"

definition openInitialHeader ::
  "bytes \<Rightarrow> packet_error + (u32 \<times> bytes \<times> bytes \<times> u64 \<times> nat)" where
  "openInitialHeader packet =
    (if length packet < 1 then Inl PkTooShort
     else if packet ! 0 AND 0x80 = 0 then Inl PkNotLongHeader
     else if packet ! 0 AND 0x40 = 0 then Inl PkFixedBit
     else if packet ! 0 AND 0x30 \<noteq> 0x00 then Inl PkType
     else
       bindE (readUint32 packet 1) (\<lambda>(version, pos).
       if version \<noteq> QUICVersion1 then Inl PkVersion
       else
         bindE (skipCID packet pos) (\<lambda>pos.
         bindE (readCID packet pos) (\<lambda>(scid, pos).
         bindE (readVarintBytes packet pos) (\<lambda>(token, pos).
         bindE (mapE PkReadLength (ReadVarint (drop pos packet))) (\<lambda>(len, n).
         Inr (version, scid, token, len, pos + n)))))))"

definition OpenInitialPacket ::
  "'x gm_sym_scheme \<Rightarrow> bytes \<Rightarrow> bytes \<Rightarrow>
     bytes \<times> (packet_error + (u32 \<times> bytes \<times> bytes \<times> u64 \<times> bytes))" where
  "OpenInitialPacket g dcid packet =
    (if length dcid = 0 then (packet, Inl PkEmptyDCID)
     else
       (case bindE (mapE PkKdf (DeriveQUICInitialSecrets g dcid)) (\<lambda>(clientIn, _).
             NewQUICPacketProtector g clientIn) of
          Inl e \<Rightarrow> (packet, Inl e)
        | Inr protector \<Rightarrow>
            (case openInitialHeader packet of
               Inl e \<Rightarrow> (packet, Inl e)
             | Inr (version, scid, token, len, pnOffset) \<Rightarrow>
                 (case openLongTail g protector packet pnOffset len of
                    (packet, Inl e) \<Rightarrow> (packet, Inl e)
                  | (packet, Inr (pn, payload)) \<Rightarrow> (packet, Inr (version, scid, token, pn, payload))))))"

definition SealHandshakePacket ::
  "'x gm_sym_scheme \<Rightarrow> QUICPacketKeys option \<Rightarrow> bytes \<Rightarrow> bytes \<Rightarrow> u64 \<Rightarrow> bytes \<Rightarrow> packet_error + bytes" where
  "SealHandshakePacket g keys dcid scid pn payload =
    (if pn > 0xFFFFFFFF then Inl PkNumberTooLarge
     else
       bindE (NewQUICPacketProtectorFromKeys keys) (\<lambda>protector.
       let pnLen = initialPacketNumberLen;
           firstByte = 0xE0 OR of_nat (pnLen - 1);
           hdr = [firstByte];
           hdr = appendUint32 hdr (unat QUICVersion1) in
       bindE (checkCIDLen dcid) (\<lambda>_.
       let hdr = hdr @ [of_nat (length dcid)] @ dcid in
       bindE (checkCIDLen scid) (\<lambda>_.
       let hdr = hdr @ [of_nat (length scid)] @ scid;
           ciphertextLen = length payload + sm4GCMTagSize in
       bindE (mapE PkVarint (AppendVarint hdr (of_nat (pnLen + ciphertextLen)))) (\<lambda>hdr.
       let pnOffset = length hdr;
           hdr = appendUint32 hdr (unat pn) in
       bindE (EncryptPayload g protector pn hdr payload) (\<lambda>ciphertext.
       let packet = hdr @ ciphertext in
       ApplyHeaderProtection g protector packet pnOffset pnLen True))))))"

definition openHandshakeHeader ::
  "bytes \<Rightarrow> bytes \<Rightarrow> packet_error + (u32 \<times> bytes \<times> u64 \<times> nat)" where
  "openHandshakeHeader expectedDCID packet =
    (if length packet < 1 then Inl PkTooShort
     else if packet ! 0 AND 0x80 = 0 then Inl PkNotLongHeader
     else if packet ! 0 AND 0x40 = 0 then Inl PkFixedBit
     else if drop_bit 4 (packet ! 0) AND 0x03 \<noteq> 0x02 then Inl PkType
     else
       bindE (readUint32 packet 1) (\<lambda>(version, pos).
       if version \<noteq> QUICVersion1 then Inl PkVersion
       else
         bindE (readCID packet pos) (\<lambda>(gotDCID, pos).
         if gotDCID \<noteq> expectedDCID then Inl PkDCIDMismatch
         else
           bindE (readCID packet pos) (\<lambda>(scid, pos).
           bindE (mapE PkReadLength (ReadVarint (drop pos packet))) (\<lambda>(len, n).
           Inr (version, scid, len, pos + n))))))"

definition OpenHandshakePacket ::
  "'x gm_sym_scheme \<Rightarrow> QUICPacketKeys option \<Rightarrow> bytes \<Rightarrow> bytes \<Rightarrow>
     bytes \<times> (packet_error + (u32 \<times> bytes \<times> u64 \<times> bytes))" where
  "OpenHandshakePacket g keys expectedDCID packet =
    (case NewQUICPacketProtectorFromKeys keys of
       Inl e \<Rightarrow> (packet, Inl e)
     | Inr protector \<Rightarrow>
         (case openHandshakeHeader expectedDCID packet of
            Inl e \<Rightarrow> (packet, Inl e)
          | Inr (version, scid, len, pnOffset) \<Rightarrow>
              (case openLongTail g protector packet pnOffset len of
                 (packet, Inl e) \<Rightarrow> (packet, Inl e)
               | (packet, Inr (pn, payload)) \<Rightarrow> (packet, Inr (version, scid, pn, payload)))))"

section \<open>Short-header packets\<close>

definition Seal1RTTPacket ::
  "'x gm_sym_scheme \<Rightarrow> QUICPacketKeys option \<Rightarrow> bytes \<Rightarrow> u64 \<Rightarrow> PacketNumberLen \<Rightarrow> bool \<Rightarrow> bytes \<Rightarrow>
     packet_error + bytes" where
  "Seal1RTTPacket g keys dcid pn pnLen keyPhase payload =
    (if pnLen < 1 \<or> pnLen > 4 then Inl PkNumberLen
     else if length dcid = 0 then Inl PkEmptyDCID
     else
       bindE (NewQUICPacketProtectorFromKeys keys) (\<lambda>protector.
       let firstByte = 0x40 OR of_nat (pnLen - 1);
           firstByte = (if keyPhase then firstByte OR 0x08 else firstByte);
           hdr = [firstByte] @ dcid;
           pnOffset = length hdr;
           hdr = AppendPacketNumber hdr pn pnLen in
       bindE (EncryptPayload g protector pn hdr payload) (\<lambda>ciphertext.
       let packet = hdr @ ciphertext in
       ApplyHeaderProtection g protector packet pnOffset pnLen False)))"

definition Open1RTTPacket ::
  "'x gm_sym_scheme \<Rightarrow> QUICPacketKeys option \<Rightarrow> bytes \<Rightarrow> u64 option \<Rightarrow> bytes \<Rightarrow>
     bytes \<times> (packet_error + (u64 \<times> bytes))" where
  "Open1RTTPacket g keys expectedDCID largestAcked packet =
    (case NewQUICPacketProtectorFromKeys keys of
       Inl e \<Rightarrow> (packet, Inl e)
     | Inr protector \<Rightarrow>
         (let dcidLen = length expectedDCID in
          if dcidLen = 0 then (packet, Inl PkEmptyDCID)
          else if length packet < 1 then (packet, Inl PkTooShort)
          else if packet ! 0 AND 0x80 \<noteq> 0 then (packet, Inl PkNotShortHeader)
          else if 1 + dcidLen > length packet then (packet, Inl PkDCIDExceeds)
          else if take dcidLen (drop 1 packet) \<noteq> expectedDCID then (packet, Inl PkDCIDMismatch)
          else
            (let pnOffset = 1 + dcidLen in
             if pnOffset \<ge> length packet then (packet, Inl PkNoPacketNumber)
             else
               (case RemoveHeaderProtection g protector packet pnOffset False of
                  (packet, Inl e) \<Rightarrow> (packet, Inl e)
                | (packet, Inr truncatedPN) \<Rightarrow>
                    (packet,
                     (let pnLen = unat (packet ! 0 AND 0x03) + 1;
                          pn = (case largestAcked of None \<Rightarrow> truncatedPN
                                | Some la \<Rightarrow> DecodePacketNumber la truncatedPN pnLen);
                          headerEnd = pnOffset + pnLen in
                      if headerEnd > length packet then Inl PkNumberField
                      else
                        (let headerAAD = take headerEnd packet;
                             ciphertext = drop headerEnd packet in
                         if length ciphertext < sm4GCMTagSize then Inl PkPayloadBelowTag
                         else
                           bindE (DecryptPayload g protector pn headerAAD ciphertext) (\<lambda>payload.
                           Inr (pn, payload)))))))))"

section \<open>Header protection\<close>

lemma nth_append_at: "length pre = i \<Longrightarrow> (pre @ x # post) ! i = x"
  by auto

lemma update_append_at: "length pre = i \<Longrightarrow> (pre @ x # post)[i := y] = pre @ y # post"
  by auto

lemma xorb_take_Suc:
  "k < length n \<Longrightarrow> k < length d \<Longrightarrow> xorb (take (Suc k) n) d = xorb (take k n) d @ [n ! k XOR d ! k]"
proof (induction k arbitrary: n d)
  case 0
  then show ?case by (cases n; cases d) (simp_all add: xorb_def)
next
  case (Suc k)
  then show ?case by (cases n; cases d) (simp_all add: xorb_def)
qed

lemma xorNumber_prefix:
  assumes "length pre = off" and "k \<le> length n" and "length n < length msk"
  shows "xorNumber (pre @ n @ post) msk off k
    = pre @ xorb (take k n) (drop 1 msk) @ drop k n @ post"
  using assms(2)
proof (induction k)
  case 0
  then show ?case by (simp add: xorNumber_def xorb_def)
next
  case (Suc k)
  let ?x = "xorb (take k n) (drop 1 msk)"
  have k: "k < length n" using Suc.prems by simp
  have len: "length (pre @ ?x) = off + k" using assms(1,3) k by simp
  have dk: "drop k n = n ! k # drop (Suc k) n" using k by (simp add: Cons_nth_drop_Suc)
  have "xorNumber (pre @ n @ post) msk off (Suc k)
      = (pre @ ?x @ drop k n @ post)[off + k := (pre @ ?x @ drop k n @ post) ! (off + k) XOR msk ! (1 + k)]"
    using Suc.IH k by (simp add: xorNumber_def)
  also have "pre @ ?x @ drop k n @ post = (pre @ ?x) @ n ! k # (drop (Suc k) n @ post)"
    by (simp add: dk)
  also have "((pre @ ?x) @ n ! k # (drop (Suc k) n @ post))[off + k :=
      ((pre @ ?x) @ n ! k # (drop (Suc k) n @ post)) ! (off + k) XOR msk ! (1 + k)]
      = (pre @ ?x) @ (n ! k XOR msk ! (1 + k)) # (drop (Suc k) n @ post)"
    unfolding nth_append_at [OF len] by (rule update_append_at [OF len])
  also have "\<dots> = pre @ xorb (take (Suc k) n) (drop 1 msk) @ drop (Suc k) n @ post"
    using k assms(3) by (simp add: xorb_take_Suc)
  finally show ?case .
qed

lemma xorNumber_append:
  "length pre = off \<Longrightarrow> length n < length msk \<Longrightarrow>
     xorNumber (pre @ n @ post) msk off (length n) = pre @ xorb n (drop 1 msk) @ post"
  using xorNumber_prefix [of pre off "length n" n msk post] by simp

text \<open>
  A packet is a first byte, the rest of the header, the packet number field n and the
  ciphertext. The sample, four bytes after the start of the field, lies in the
  ciphertext, so masking does not change the mask.
\<close>

definition hp_mask :: "'x gm_sym_scheme \<Rightarrow> bytes \<Rightarrow> bytes \<Rightarrow> bytes \<Rightarrow> bytes" where
  "hp_mask g hp n rest = sm4_Encrypt g hp (take 16 (drop (4 - length n) rest))"

definition masked_first :: "bool \<Rightarrow> bytes \<Rightarrow> byte \<Rightarrow> byte" where
  "masked_first isLong msk f = f XOR (msk ! 0 AND firstByteMask isLong)"

lemma headerMask_packet:
  assumes "length n \<le> 4" and "20 \<le> length (n @ rest)"
  shows "headerMask g hp (f # mid @ n @ rest) (Suc (length mid)) = Inr (hp_mask g hp n rest)"
proof -
  have "drop (Suc (length mid) + 4) (f # mid @ n @ rest) = drop (4 - length n) rest"
    using assms(1) by (simp only: add_Suc drop_Suc_Cons drop_append length_append) simp
  then show ?thesis using assms by (simp add: headerMask_def Let_def hp_mask_def)
qed

lemma length_hp_mask [simp]:
  "sm4_ok g \<Longrightarrow> length hp = 16 \<Longrightarrow> 20 \<le> length (n @ rest) \<Longrightarrow> length n \<le> 4 \<Longrightarrow>
     length (hp_mask g hp n rest) = 16"
  by (simp add: hp_mask_def)

lemma hp_mask_cong: "length n = length n' \<Longrightarrow> hp_mask g hp n rest = hp_mask g hp n' rest"
  by (simp add: hp_mask_def)

lemma masked_first_involution [simp]: "masked_first l m (masked_first l m f) = f"
  by (simp add: masked_first_def xor.assoc)

lemma ApplyHeaderProtection_packet:
  assumes "hpBlock p = Some hp" and "sm4_ok g" and "length hp = 16"
    and "1 \<le> length n" and "length n \<le> 4" and "20 \<le> length (n @ rest)"
    and "off = Suc (length mid)"
  shows "ApplyHeaderProtection g p (f # mid @ n @ rest) off (length n) isLong
    = Inr (masked_first isLong (hp_mask g hp n rest) f # mid
           @ xorb n (drop 1 (hp_mask g hp n rest)) @ rest)"
proof -
  let ?m = "hp_mask g hp n rest"
  have len: "length n < length ?m" using assms by simp
  have "validateHeaderArgs (f # mid @ n @ rest) off (length n) = Inr ()"
    using assms by (auto simp: validateHeaderArgs_def)
  moreover have "xorHeaderMask (f # mid @ n @ rest) ?m off (length n) isLong
      = masked_first isLong ?m f # mid @ xorb n (drop 1 ?m) @ rest"
    using xorNumber_append [of "masked_first isLong ?m f # mid" off n ?m rest] assms(7) len
    by (simp add: xorHeaderMask_def masked_first_def)
  ultimately show ?thesis
    using assms headerMask_packet [OF assms(5,6), of g hp f mid]
    by (simp add: ApplyHeaderProtection_def)
qed

lemma RemoveHeaderProtection_packet:
  assumes "hpBlock p = Some hp" and "sm4_ok g" and "length hp = 16"
    and "length n = unat (f AND 0x03) + 1" and "length n \<le> 4" and "20 \<le> length (n @ rest)"
    and "off = Suc (length mid)"
  shows "RemoveHeaderProtection g p (masked_first isLong (hp_mask g hp n rest) f # mid
           @ xorb n (drop 1 (hp_mask g hp n rest)) @ rest) off isLong
    = (f # mid @ n @ rest, Inr (decodePacketNumber n))"
proof -
  let ?m = "hp_mask g hp n rest"
  let ?n' = "xorb n (drop 1 ?m)"
  let ?f' = "masked_first isLong ?m f"
  have len: "length n < length ?m" using assms by simp
  then have n': "length ?n' = length n" by simp
  have mask: "headerMask g hp (?f' # mid @ ?n' @ rest) off = Inr ?m"
    using headerMask_packet [of ?n' rest g hp ?f' mid] assms(5,6,7) n' hp_mask_cong [OF n', of g hp rest]
    by simp
  have first: "(?f' # mid @ ?n' @ rest)[0 := ?f' XOR (?m ! 0 AND firstByteMask isLong)]
      = f # mid @ ?n' @ rest"
    by (simp add: masked_first_def xor.assoc)
  have "xorNumber ((f # mid) @ ?n' @ rest) ?m off (length ?n') = (f # mid) @ xorb ?n' (drop 1 ?m) @ rest"
    by (rule xorNumber_append) (use assms(7) n' len in simp_all)
  also have "xorb ?n' (drop 1 ?m) = n" using len by simp
  finally have num: "xorNumber (f # mid @ ?n' @ rest) ?m off (length n) = f # mid @ n @ rest"
    using n' by simp
  have "off < length (?f' # mid @ ?n' @ rest)" using assms(4,7) n' by simp
  then show ?thesis
    using assms(1,4,7) mask first num n'
    by (simp add: RemoveHeaderProtection_def Let_def)
qed

section \<open>Reading header fields\<close>

lemma readUint32_at:
  "length pre = pos \<Longrightarrow> readUint32 (pre @ be 4 v @ post) pos = Inr (of_nat (v mod 4294967296), pos + 4)"
  by (auto simp: readUint32_def)

lemma readCID_at:
  "length pre = pos \<Longrightarrow> length cid \<le> 255 \<Longrightarrow>
     readCID (pre @ [of_nat (length cid)] @ cid @ post) pos = Inr (cid, pos + 1 + length cid)"
  by (auto simp: readCID_def unat_of_nat_byte nth_append)

lemma skipCID_at:
  "length pre = pos \<Longrightarrow> length cid \<le> 255 \<Longrightarrow>
     skipCID (pre @ [of_nat (length cid)] @ cid @ post) pos = Inr (pos + 1 + length cid)"
  by (auto simp: skipCID_def unat_of_nat_byte nth_append)

lemma ReadVarint_at:
  "length pre = pos \<Longrightarrow> AppendVarint [] v = Inr e \<Longrightarrow>
     ReadVarint (drop pos (pre @ e @ post)) = Inr (v, length e)"
  using varint.dec_enc by auto

lemma readVarintBytes_at:
  assumes "length pre = pos" and "AppendVarint [] (of_nat (length x)) = Inr e"
    and "length x \<le> 2147483647"
  shows "readVarintBytes (pre @ e @ x @ post) pos = Inr (x, pos + length e + length x)"
proof -
  have u: "unat (of_nat (length x) :: u64) = length x"
    using assms(3) by (intro unat_of_nat_u64) simp
  then have "\<not> push_bit 31 1 - 1 < (of_nat (length x) :: u64)"
    using assms(3) by (simp add: u64_less_iff)
  then show ?thesis
    using ReadVarint_at [OF assms(1,2), of "x @ post"] assms(1) u
    by (auto simp: readVarintBytes_def Let_def)
qed

lemma masked_long_bits:
  "masked_first True m f AND 0x80 = f AND 0x80"
  "masked_first True m f AND 0x40 = f AND 0x40"
  "masked_first True m f AND 0x30 = f AND 0x30"
  "drop_bit 4 (masked_first True m f) AND 0x03 = drop_bit 4 f AND 0x03"
  by (simp_all add: masked_first_def firstByteMask_def bit.conj_xor_distrib2 and.assoc)

lemma masked_short_bits: "masked_first False m f AND 0x80 = f AND 0x80"
  by (simp add: masked_first_def firstByteMask_def bit.conj_xor_distrib2 and.assoc)

lemma decodePacketNumber_be:
  assumes "1 \<le> k" and "k \<le> 4"
  shows "decodePacketNumber (be k (unat pn)) = TruncatePacketNumber pn k"
proof -
  have "(256::nat) ^ k \<le> 256 ^ 4" using assms(2) by (intro power_increasing) simp_all
  then have "unat (shift_or_acc 0 (be k (unat pn))) = unat pn mod 256 ^ k"
    by (subst unat_shift_or_acc) simp_all
  then show ?thesis
    by (simp only: decodePacketNumber_def u64_eq_iff unat_Truncate [OF assms])
qed

end
