(* ===== verification/PacketRoundtrip.thy ===== *)
theory PacketRoundtrip
  imports PacketProtection
begin

text \<open>
  What a packet opener recovers from a packet its builder produced, for the Initial,
  Handshake and 1-RTT packets, and that a zeroed protector refuses every operation.
\<close>

section \<open>Live protectors\<close>

definition protector_live :: "QUICPacketProtector \<Rightarrow> AEAD \<Rightarrow> bytes \<Rightarrow> bool" where
  "protector_live p a hp \<longleftrightarrow> paead p = Some a \<and> aead_wf a \<and> hpBlock p = Some hp \<and> length hp = 16"

lemma newProtector_live:
  assumes "newProtector k = Inr p"
  obtains a hp where "protector_live p a hp"
  using assms by (auto simp: newProtector_def bindE_Inr_iff NewAEAD_iff protector_live_def aead_wf_def
      split: if_splits)

lemma newProtector_total: "packet_keys_wf k \<Longrightarrow> \<exists>p. newProtector k = Inr p"
  by (simp add: newProtector_def packet_keys_wf_def NewAEAD_def NewGCM_def)

lemma EncryptPayload_live:
  assumes "protector_live p a hp" and "sm4_ok g" and "EncryptPayload g p pn hdr payload = Inr ct"
  shows "length ct = length payload + 16 \<and> DecryptPayload g p pn hdr ct = Inr payload"
  using assms by (auto simp: protector_live_def EncryptPayload_def DecryptPayload_def
      AEAD_seal_length AEAD_open_seal)

lemma EncryptPayload_total:
  assumes "protector_live p a hp" and "sm4_ok g" and "length payload \<le> gcm_max"
  obtains ct where "EncryptPayload g p pn hdr payload = Inr ct"
  using AEAD_seal_total [OF assms(2) _ assms(3), of a pn hdr] assms(1)
  by (auto simp: protector_live_def EncryptPayload_def)

section \<open>Long headers\<close>

text \<open>The packet on the wire, before the opener has touched it.\<close>

definition wire_long :: "'x gm_sym_scheme \<Rightarrow> bytes \<Rightarrow> byte \<Rightarrow> bytes \<Rightarrow> bytes \<Rightarrow> bytes \<Rightarrow> bytes" where
  "wire_long g hp f mid n ct =
    masked_first True (hp_mask g hp n ct) f # mid @ xorb n (drop 1 (hp_mask g hp n ct)) @ ct"

lemma Apply_long:
  assumes "protector_live p a hp" and "sm4_ok g" and "16 \<le> length ct" and "length n = 4"
  shows "ApplyHeaderProtection g p (f # mid @ n @ ct) (Suc (length mid)) 4 True
    = Inr (wire_long g hp f mid n ct)"
  using ApplyHeaderProtection_packet [of p hp g n ct "Suc (length mid)" mid f True] assms
  by (simp add: protector_live_def wire_long_def)

lemma openLongTail_wire:
  assumes live: "protector_live p a hp" and sm4: "sm4_ok g"
    and f: "f AND 0x03 = 0x03" and pn: "unat pn \<le> 4294967295"
    and enc: "EncryptPayload g p pn (f # mid @ be 4 (unat pn)) payload = Inr ct"
    and len: "length payload \<le> 2147483627"
  shows "openLongTail g p (wire_long g hp f mid (be 4 (unat pn)) ct) (Suc (length mid))
      (of_nat (length payload + 20))
    = (f # mid @ be 4 (unat pn) @ ct, Inr (pn, payload))"
proof -
  let ?n = "be 4 (unat pn)"
  from EncryptPayload_live [OF live sm4 enc] have ct: "length ct = length payload + 16"
    and dec: "DecryptPayload g p pn (f # mid @ ?n) ct = Inr payload" by simp_all
  have u3: "unat (f AND 0x03) = 3" using f by simp
  have rm: "RemoveHeaderProtection g p (wire_long g hp f mid ?n ct) (Suc (length mid)) True
      = (f # mid @ ?n @ ct, Inr (decodePacketNumber ?n))"
    unfolding wire_long_def
    by (rule RemoveHeaderProtection_packet)
       (use live sm4 u3 ct in \<open>simp_all add: protector_live_def\<close>)
  have "unat (TruncatePacketNumber pn 4) = unat pn" using pn by (simp add: unat_Truncate)
  then have num: "decodePacketNumber ?n = pn"
    unfolding decodePacketNumber_be [of 4 pn, simplified] by (rule u64_eq_iff [THEN iffD2])
  have ul: "unat (of_nat (length payload + 20) :: u64) = length payload + 20"
    using len by (intro unat_of_nat_u64) simp
  have g1: "\<not> of_nat (unat (f AND 0x03) + 1) > (of_nat (length payload + 20) :: u64)"
    unfolding u64_less_iff ul u3 by simp
  have g2: "\<not> (of_nat (length payload + 20) :: u64) > push_bit 31 1 - 1"
    unfolding u64_less_iff ul using len by simp
  have split: "take (5 + length mid) (f # mid @ ?n @ ct) = f # mid @ ?n"
    "drop (5 + length mid) (f # mid @ ?n @ ct) = ct"
    by (simp_all add: take_Cons' drop_Cons')
  have "openLongTail g p (wire_long g hp f mid ?n ct) (Suc (length mid)) (of_nat (length payload + 20))
    = (f # mid @ ?n @ ct, bindE (DecryptPayload g p pn (f # mid @ ?n) ct) (\<lambda>payload. Inr (pn, payload)))"
    unfolding openLongTail_def rm num prod.case sum.case Let_def
    using g1 g2 u3 ul ct split by (simp add: openLongTail_def rm num Let_def)
  then show ?thesis by (simp add: dec)
qed

definition cid_field :: "bytes \<Rightarrow> bytes" where
  "cid_field cid = [of_nat (length cid)] @ cid"

lemma AppendVarint_append: "AppendVarint b v = Inr x \<longleftrightarrow> (\<exists>e. AppendVarint [] v = Inr e \<and> x = b @ e)"
  by (auto simp: AppendVarint_iff)

lemma u32_bound: "\<not> (0xFFFFFFFF :: u64) < pn \<longleftrightarrow> unat pn \<le> 4294967295"
  by (simp add: u64_less_iff not_less)

lemma SealHandshakePacket_shape:
  assumes seal: "SealHandshakePacket g (Some k) dcid scid pn payload = Inr packet" and sm4: "sm4_ok g"
  obtains p a hp e ct where "newProtector k = Inr p" "protector_live p a hp"
    "unat pn \<le> 4294967295" "length dcid \<le> 255" "length scid \<le> 255"
    "AppendVarint [] (of_nat (length payload + 20)) = Inr e"
    "EncryptPayload g p pn (0xE3 # (be 4 1 @ cid_field dcid @ cid_field scid @ e) @ be 4 (unat pn)) payload = Inr ct"
    "packet = wire_long g hp 0xE3 (be 4 1 @ cid_field dcid @ cid_field scid @ e) (be 4 (unat pn)) ct"
proof -
  let ?mid = "\<lambda>e. be 4 1 @ cid_field dcid @ cid_field scid @ e"
  note defs = SealHandshakePacket_def NewQUICPacketProtectorFromKeys_def checkCIDLen_def Let_def
    initialPacketNumberLen_def appendUint32_def QUICVersion1_def sm4GCMTagSize_def
  have pn: "unat pn \<le> 4294967295"
    using seal by (cases "0xFFFFFFFF < pn") (simp_all add: defs flip: u32_bound)
  then have pn': "\<not> (0xFFFFFFFF :: u64) < pn" by (simp only: u32_bound)
  obtain p where p: "newProtector k = Inr p"
    using seal pn' by (cases "newProtector k") (simp_all add: defs)
  have d: "length dcid \<le> 255"
    using seal pn' p by (cases "length dcid \<le> 255") (simp_all add: defs)
  have c: "length scid \<le> 255"
    using seal pn' p d by (cases "length scid \<le> 255") (simp_all add: defs)
  define v :: u64 where "v = of_nat (length payload + 20)"
  have v: "of_nat (initialPacketNumberLen + (length payload + sm4GCMTagSize)) = v"
    by (simp add: v_def initialPacketNumberLen_def sm4GCMTagSize_def)
  obtain e where e: "AppendVarint [] v = Inr e"
    using seal pn' p d c v
    by (cases "AppendVarint [] v") (simp_all add: defs AppendVarint_prefix [of "_ # _" v])
  have app: "AppendVarint b v = Inr (b @ e)" for b
    using AppendVarint_prefix [of b v] e by simp
  have hdr: "ApplyHeaderProtection g p
      (0xE3 # ?mid e @ be 4 (unat pn) @ ct) (Suc (length (?mid e))) 4 True = Inr packet"
    if "EncryptPayload g p pn (0xE3 # ?mid e @ be 4 (unat pn)) payload = Inr ct" for ct
    using seal pn' p d c v app that by (simp add: defs cid_field_def)
  obtain ct where ct: "EncryptPayload g p pn (0xE3 # ?mid e @ be 4 (unat pn)) payload = Inr ct"
    using seal pn' p d c v app
    by (cases "EncryptPayload g p pn (0xE3 # ?mid e @ be 4 (unat pn)) payload")
       (simp_all add: defs cid_field_def)
  from newProtector_live [OF p] obtain a hp where live: "protector_live p a hp" .
  from EncryptPayload_live [OF live sm4] ct have "16 \<le> length ct" by simp
  from Apply_long [OF live sm4 this, where n = "be 4 (unat pn)" and f = "0xE3" and mid = "?mid e"] hdr [OF ct]
  have "packet = wire_long g hp 0xE3 (?mid e) (be 4 (unat pn)) ct" by simp
  with p live pn d c e ct show thesis by (intro that [of p a hp e ct]) (simp_all add: v_def)
qed

lemma openHandshakeHeader_wire:
  assumes "length dcid \<le> 255" "length scid \<le> 255" and e: "AppendVarint [] v = Inr e"
  shows "openHandshakeHeader dcid
      (wire_long g hp 0xE3 (be 4 1 @ cid_field dcid @ cid_field scid @ e) n ct)
    = Inr (QUICVersion1, scid, v, Suc (length (be 4 1 @ cid_field dcid @ cid_field scid @ e)))"
proof -
  define m where "m = hp_mask g hp n ct"
  define f where "f = masked_first True m 0xE3"
  define tail where "tail = xorb n (drop 1 m) @ ct"
  define w where "w = f # (be 4 1 @ cid_field dcid @ cid_field scid @ e) @ tail"
  have w: "wire_long g hp 0xE3 (be 4 1 @ cid_field dcid @ cid_field scid @ e) n ct = w"
    by (simp add: wire_long_def m_def f_def tail_def w_def)
  have bits: "f AND 0x80 \<noteq> 0" "f AND 0x40 \<noteq> 0" "drop_bit 4 f AND 0x03 = 0x02"
    by (simp_all add: f_def masked_long_bits)
  have r1: "readUint32 w (Suc 0) = Inr (1, 5)"
    using readUint32_at [of "[f]" 1 1 "cid_field dcid @ cid_field scid @ e @ tail"] by (simp add: w_def)
  have r2: "readCID w 5 = Inr (dcid, 6 + length dcid)"
    using readCID_at [of "f # be 4 1" 5 dcid "cid_field scid @ e @ tail"] assms(1)
    by (simp add: w_def cid_field_def)
  have r3: "readCID w (6 + length dcid) = Inr (scid, 7 + length dcid + length scid)"
    using readCID_at [of "f # be 4 1 @ cid_field dcid" "6 + length dcid" scid "e @ tail"] assms(2)
    by (simp add: w_def cid_field_def)
  have r4: "ReadVarint (drop (7 + length dcid + length scid) w) = Inr (v, length e)"
    using ReadVarint_at [of "f # be 4 1 @ cid_field dcid @ cid_field scid" _ v e tail] e
    by (simp add: w_def cid_field_def add.assoc)
  have w0: "w ! 0 = f" "length w \<noteq> 0" by (simp_all add: w_def)
  show ?thesis
    unfolding w openHandshakeHeader_def
    using w0 bits by (simp add: r1 r2 r3 r4 QUICVersion1_def cid_field_def)
qed

lemma SealInitialPacket_shape:
  assumes seal: "SealInitialPacket g dcid scid token pn payload = Inr packet" and sm4: "sm4_ok g"
  obtains cin sin p a hp te e ct where "dcid \<noteq> []" "DeriveQUICInitialSecrets g dcid = Inr (cin, sin)"
    "NewQUICPacketProtector g cin = Inr p" "protector_live p a hp"
    "unat pn \<le> 4294967295" "length dcid \<le> 255" "length scid \<le> 255"
    "AppendVarint [] (of_nat (length token)) = Inr te"
    "AppendVarint [] (of_nat (length payload + 20)) = Inr e"
    "EncryptPayload g p pn (0xC3 # (be 4 1 @ cid_field dcid @ cid_field scid @ te @ token @ e) @ be 4 (unat pn)) payload = Inr ct"
    "packet = wire_long g hp 0xC3 (be 4 1 @ cid_field dcid @ cid_field scid @ te @ token @ e) (be 4 (unat pn)) ct"
proof -
  note defs = SealInitialPacket_def checkCIDLen_def Let_def
    initialPacketNumberLen_def appendUint32_def QUICVersion1_def sm4GCMTagSize_def
  have pn: "unat pn \<le> 4294967295"
    using seal by (cases "0xFFFFFFFF < pn") (simp_all add: defs flip: u32_bound)
  then have pn': "\<not> (0xFFFFFFFF :: u64) < pn" by (simp only: u32_bound)
  have ne: "dcid \<noteq> []" using seal pn' by (cases "dcid = []") (simp_all add: defs)
  obtain cin sin where s: "DeriveQUICInitialSecrets g dcid = Inr (cin, sin)"
    using seal pn' ne by (cases "DeriveQUICInitialSecrets g dcid") (auto simp add: defs)
  obtain p where p: "NewQUICPacketProtector g cin = Inr p"
    using seal pn' ne s by (cases "NewQUICPacketProtector g cin") (simp_all add: defs)
  have d: "length dcid \<le> 255"
    using seal pn' ne s p by (cases "length dcid \<le> 255") (simp_all add: defs)
  have c: "length scid \<le> 255"
    using seal pn' ne s p d by (cases "length scid \<le> 255") (simp_all add: defs)
  define t :: u64 where "t = of_nat (length token)"
  obtain te where te: "AppendVarint [] t = Inr te"
    using seal pn' ne s p d c
    by (cases "AppendVarint [] t") (simp_all add: defs AppendVarint_prefix [of "_ # _" t] flip: t_def)
  have appt: "AppendVarint b (of_nat (length token)) = Inr (b @ te)" for b
    using AppendVarint_prefix [of b t] te by (simp add: t_def)
  define v :: u64 where "v = of_nat (length payload + 20)"
  have v: "20 + of_nat (length payload) = v" by (simp add: v_def)
  obtain e where e: "AppendVarint [] v = Inr e"
    using seal pn' ne s p d c v appt
    by (cases "AppendVarint [] v") (simp_all add: defs AppendVarint_prefix [of "_ # _" v])
  have app: "AppendVarint b v = Inr (b @ e)" for b
    using AppendVarint_prefix [of b v] e by simp
  let ?mid = "be 4 1 @ cid_field dcid @ cid_field scid @ te @ token @ e"
  have hdr: "ApplyHeaderProtection g p
      (0xC3 # ?mid @ be 4 (unat pn) @ ct) (Suc (length ?mid)) 4 True = Inr packet"
    if "EncryptPayload g p pn (0xC3 # ?mid @ be 4 (unat pn)) payload = Inr ct" for ct
    using seal pn' ne s p d c v appt app that by (simp add: defs cid_field_def)
  obtain ct where ct: "EncryptPayload g p pn (0xC3 # ?mid @ be 4 (unat pn)) payload = Inr ct"
    using seal pn' ne s p d c v appt app
    by (cases "EncryptPayload g p pn (0xC3 # ?mid @ be 4 (unat pn)) payload")
       (simp_all add: defs cid_field_def)
  from p obtain k where "newProtector k = Inr p"
    by (auto simp: NewQUICPacketProtector_def bindE_Inr_iff)
  from newProtector_live [OF this] obtain a hp where live: "protector_live p a hp" .
  from EncryptPayload_live [OF live sm4] ct have "16 \<le> length ct" by simp
  from Apply_long [OF live sm4 this, where n = "be 4 (unat pn)" and f = "0xC3" and mid = ?mid] hdr [OF ct]
  have "packet = wire_long g hp 0xC3 ?mid (be 4 (unat pn)) ct" by simp
  with ne s p live pn d c te e ct show thesis
    by (intro that [of cin sin p a hp te e ct]) (simp_all add: v_def t_def)
qed

lemma openInitialHeader_wire:
  assumes "length dcid \<le> 255" "length scid \<le> 255" and tk: "length token \<le> 2147483647"
    and te: "AppendVarint [] (of_nat (length token)) = Inr te" and e: "AppendVarint [] v = Inr e"
  shows "openInitialHeader
      (wire_long g hp 0xC3 (be 4 1 @ cid_field dcid @ cid_field scid @ te @ token @ e) n ct)
    = Inr (QUICVersion1, scid, token, v,
        Suc (length (be 4 1 @ cid_field dcid @ cid_field scid @ te @ token @ e)))"
proof -
  define m where "m = hp_mask g hp n ct"
  define f where "f = masked_first True m 0xC3"
  define tail where "tail = xorb n (drop 1 m) @ ct"
  define w where "w = f # (be 4 1 @ cid_field dcid @ cid_field scid @ te @ token @ e) @ tail"
  have w: "wire_long g hp 0xC3 (be 4 1 @ cid_field dcid @ cid_field scid @ te @ token @ e) n ct = w"
    by (simp add: wire_long_def m_def f_def tail_def w_def)
  have bits: "f AND 0x80 \<noteq> 0" "f AND 0x40 \<noteq> 0" "f AND 0x30 = 0"
    by (simp_all add: f_def masked_long_bits)
  define p1 where "p1 = 6 + length dcid"
  define p2 where "p2 = p1 + 1 + length scid"
  define p3 where "p3 = p2 + length te + length token"
  have r1: "readUint32 w (Suc 0) = Inr (1, 5)"
    using readUint32_at [of "[f]" 1 1 "cid_field dcid @ cid_field scid @ te @ token @ e @ tail"]
    by (simp add: w_def)
  have r2: "skipCID w 5 = Inr p1"
    using skipCID_at [of "f # be 4 1" 5 dcid "cid_field scid @ te @ token @ e @ tail"] assms(1)
    by (simp add: w_def cid_field_def p1_def)
  have r3: "readCID w p1 = Inr (scid, p2)"
    using readCID_at [of "f # be 4 1 @ cid_field dcid" p1 scid "te @ token @ e @ tail"] assms(2)
    by (simp add: w_def cid_field_def p2_def p1_def)
  have r4: "readVarintBytes w p2 = Inr (token, p3)"
    using readVarintBytes_at [of "f # be 4 1 @ cid_field dcid @ cid_field scid" p2 token te "e @ tail"]
      te tk by (simp add: w_def cid_field_def p3_def p2_def p1_def)
  have r5: "ReadVarint (drop p3 w) = Inr (v, length e)"
    using ReadVarint_at [of "f # be 4 1 @ cid_field dcid @ cid_field scid @ te @ token" p3 v e tail] e
    by (simp add: w_def cid_field_def p3_def p2_def p1_def)
  have w0: "w ! 0 = f" "length w \<noteq> 0" by (simp_all add: w_def)
  have "openInitialHeader w = Inr (QUICVersion1, scid, token, v, p3 + length e)"
    unfolding openInitialHeader_def using w0 bits by (simp add: r1 r2 r3 r4 r5 QUICVersion1_def)
  then show ?thesis unfolding w by (simp add: p3_def p2_def p1_def cid_field_def)
qed

section \<open>Sealing succeeds\<close>

lemma AppendVarint_small:
  assumes "n \<le> 4611686018427387903"
  obtains e where "\<And>b. AppendVarint b (of_nat n) = Inr (b @ e)"
proof -
  have "unat (of_nat n :: u64) = n" using assms by (intro unat_of_nat_u64) simp
  then have "of_nat n \<le> MaxVarint" using assms by (simp add: u64_le_iff)
  from AppendVarint_image [OF this] show thesis using that by blast
qed

lemma SealHandshakePacket_total:
  assumes "sm4_ok g" and "packet_keys_wf k" and "unat pn \<le> 4294967295"
    and "length dcid \<le> 255" and "length scid \<le> 255" and "length payload \<le> 2147483627"
  shows "\<exists>packet. SealHandshakePacket g (Some k) dcid scid pn payload = Inr packet"
proof -
  obtain p where p: "newProtector k = Inr p" using newProtector_total [OF assms(2)] ..
  from newProtector_live [OF p] obtain a hp where live: "protector_live p a hp" .
  obtain e where e: "\<And>b. AppendVarint b (of_nat (20 + length payload)) = Inr (b @ e)"
    using AppendVarint_small [of "20 + length payload"] assms(6) by auto
  have pn: "\<not> (0xFFFFFFFF :: u64) < pn" using assms(3) by (simp only: u32_bound)
  have max: "length payload \<le> gcm_max" using assms(6) by (simp add: gcm_max_def)
  let ?mid = "be 4 1 @ cid_field dcid @ cid_field scid @ e"
  obtain ct where ct: "EncryptPayload g p pn (0xE3 # ?mid @ be 4 (unat pn)) payload = Inr ct"
    by (rule EncryptPayload_total [OF live assms(1) max])
  from EncryptPayload_live [OF live assms(1) ct] have "16 \<le> length ct" by simp
  from Apply_long [OF live assms(1) this, where n = "be 4 (unat pn)" and f = "0xE3" and mid = ?mid]
  show ?thesis
    using pn p assms(4,5) e ct
    by (simp add: SealHandshakePacket_def NewQUICPacketProtectorFromKeys_def checkCIDLen_def Let_def
      initialPacketNumberLen_def appendUint32_def QUICVersion1_def sm4GCMTagSize_def cid_field_def)
qed

lemma SealInitialPacket_total:
  assumes "sm3_ok g" and "sm4_ok g" and "unat pn \<le> 4294967295" and "dcid \<noteq> []"
    and "length dcid \<le> 255" and "length scid \<le> 255"
    and "length token \<le> 2147483647" and "length payload \<le> 2147483627"
  shows "\<exists>packet. SealInitialPacket g dcid scid token pn payload = Inr packet"
proof -
  obtain cin sin where s: "DeriveQUICInitialSecrets g dcid = Inr (cin, sin)" "length cin = 32"
    by (rule DeriveQUICInitialSecrets_total [OF assms(1,4)])
  then have "cin \<noteq> []" by auto
  then obtain k where k: "DeriveQUICPacketKeys g cin = Inr k"
    by (rule DeriveQUICPacketKeys_total [OF assms(1)])
  obtain p where p: "newProtector k = Inr p"
    using newProtector_total [OF DeriveQUICPacketKeys_wf [OF assms(1) k]] ..
  from newProtector_live [OF p] obtain a hp where live: "protector_live p a hp" .
  obtain e where e: "\<And>b. AppendVarint b (of_nat (20 + length payload)) = Inr (b @ e)"
    using AppendVarint_small [of "20 + length payload"] assms(8) by auto
  obtain te where te: "\<And>b. AppendVarint b (of_nat (length token)) = Inr (b @ te)"
    using AppendVarint_small [of "length token"] assms(7) by auto
  have pn: "\<not> (0xFFFFFFFF :: u64) < pn" using assms(3) by (simp only: u32_bound)
  have max: "length payload \<le> gcm_max" using assms(8) by (simp add: gcm_max_def)
  let ?mid = "be 4 1 @ cid_field dcid @ cid_field scid @ te @ token @ e"
  obtain ct where ct: "EncryptPayload g p pn (0xC3 # ?mid @ be 4 (unat pn)) payload = Inr ct"
    by (rule EncryptPayload_total [OF live assms(2) max])
  from EncryptPayload_live [OF live assms(2) ct] have "16 \<le> length ct" by simp
  from Apply_long [OF live assms(2) this, where n = "be 4 (unat pn)" and f = "0xC3" and mid = ?mid]
  show ?thesis
    using pn s k p assms(4-6) e te ct
    by (simp add: SealInitialPacket_def NewQUICPacketProtector_def checkCIDLen_def Let_def
      initialPacketNumberLen_def appendUint32_def QUICVersion1_def sm4GCMTagSize_def cid_field_def)
qed

section \<open>Round trips\<close>

text \<open>
  C18. An Initial packet that \<open>SealInitialPacket\<close> built is opened by \<open>OpenInitialPacket\<close>
  under the same destination connection ID, and gives back the version, the source
  connection ID, the token, the packet number and the payload, for every token and
  payload below the 2 GiB limit of the opener.
\<close>

theorem initial_packet_roundtrip:
  assumes "sm4_ok g"
    and "SealInitialPacket g dcid scid token pn payload = Inr packet"
    and "length token \<le> 2147483647" and "length payload \<le> 2147483627"
  shows "snd (OpenInitialPacket g dcid packet) = Inr (QUICVersion1, scid, token, pn, payload)"
proof -
  from SealInitialPacket_shape [OF assms(2,1)] obtain cin sin p a hp te e ct where
    ne: "dcid \<noteq> []" and s: "DeriveQUICInitialSecrets g dcid = Inr (cin, sin)"
    and p: "NewQUICPacketProtector g cin = Inr p" and live: "protector_live p a hp"
    and pn: "unat pn \<le> 4294967295" and cid: "length dcid \<le> 255" "length scid \<le> 255"
    and te: "AppendVarint [] (of_nat (length token)) = Inr te"
    and e: "AppendVarint [] (of_nat (length payload + 20)) = Inr e"
    and ct: "EncryptPayload g p pn (0xC3 # (be 4 1 @ cid_field dcid @ cid_field scid @ te @ token @ e) @ be 4 (unat pn)) payload = Inr ct"
    and w: "packet = wire_long g hp 0xC3 (be 4 1 @ cid_field dcid @ cid_field scid @ te @ token @ e) (be 4 (unat pn)) ct" .
  note hdr = openInitialHeader_wire [OF cid assms(3) te e, of g hp "be 4 (unat pn)" ct, folded w]
  note tail = openLongTail_wire [OF live assms(1) _ pn ct assms(4), folded w, simplified]
  show ?thesis
    using ne by (simp add: OpenInitialPacket_def s p hdr tail)
qed

theorem initial_packet_roundtrip_witness:
  "\<exists>packet. SealInitialPacket toy_sym [1, 2] [3] [] 7 [6, 6, 6] = Inr packet \<and>
     snd (OpenInitialPacket toy_sym [1, 2] packet) = Inr (QUICVersion1, [3], [], 7, [6, 6, 6])"
proof -
  obtain packet where "SealInitialPacket toy_sym [1, 2] [3] [] 7 [6, 6, 6] = Inr packet"
    using SealInitialPacket_total [OF toy_sm3_ok toy_sm4_ok, of 7 "[1, 2]" "[3]" "[]" "[6, 6, 6]"] by auto
  with initial_packet_roundtrip [OF toy_sm4_ok this] show ?thesis by simp
qed

text \<open>
  C17. A Handshake packet that \<open>SealHandshakePacket\<close> built is opened by
  \<open>OpenHandshakePacket\<close> under the same keys and connection ID, and gives back the
  version, the source connection ID, the packet number and the payload.
\<close>

theorem handshake_packet_roundtrip:
  assumes "sm4_ok g"
    and "SealHandshakePacket g keys dcid scid pn payload = Inr packet"
    and "length payload \<le> 2147483627"
  shows "snd (OpenHandshakePacket g keys dcid packet) = Inr (QUICVersion1, scid, pn, payload)"
proof -
  obtain k where k: "keys = Some k"
    using assms(2) by (cases keys)
      (auto simp: SealHandshakePacket_def NewQUICPacketProtectorFromKeys_def split: if_splits)
  from SealHandshakePacket_shape [OF assms(2) [unfolded k] assms(1)] obtain p a hp e ct where
    p: "newProtector k = Inr p" and live: "protector_live p a hp"
    and pn: "unat pn \<le> 4294967295" and cid: "length dcid \<le> 255" "length scid \<le> 255"
    and e: "AppendVarint [] (of_nat (length payload + 20)) = Inr e"
    and ct: "EncryptPayload g p pn (0xE3 # (be 4 1 @ cid_field dcid @ cid_field scid @ e) @ be 4 (unat pn)) payload = Inr ct"
    and w: "packet = wire_long g hp 0xE3 (be 4 1 @ cid_field dcid @ cid_field scid @ e) (be 4 (unat pn)) ct" .
  note hdr = openHandshakeHeader_wire [OF cid e, of g hp "be 4 (unat pn)" ct, folded w]
  note tail = openLongTail_wire [OF live assms(1) _ pn ct assms(3), folded w, simplified]
  show ?thesis
    by (simp add: OpenHandshakePacket_def k NewQUICPacketProtectorFromKeys_def p hdr tail)
qed

definition demo_keys :: QUICPacketKeys where
  "demo_keys = \<lparr>AEADKey = replicate 16 1, AEADIV = replicate 12 2, HeaderKey = replicate 16 3\<rparr>"

lemma demo_keys_wf: "packet_keys_wf demo_keys"
  by (simp add: packet_keys_wf_def demo_keys_def)

theorem handshake_packet_roundtrip_witness:
  "\<exists>packet. SealHandshakePacket toy_sym (Some demo_keys) [1, 2] [3] 7 [6, 6, 6] = Inr packet \<and>
     snd (OpenHandshakePacket toy_sym (Some demo_keys) [1, 2] packet)
       = Inr (QUICVersion1, [3], 7, [6, 6, 6])"
proof -
  obtain packet where "SealHandshakePacket toy_sym (Some demo_keys) [1, 2] [3] 7 [6, 6, 6] = Inr packet"
    using SealHandshakePacket_total [OF toy_sm4_ok demo_keys_wf, of 7 "[1, 2]" "[3]" "[6, 6, 6]"] by auto
  with handshake_packet_roundtrip [OF toy_sm4_ok this] show ?thesis by simp
qed

section \<open>Short headers\<close>

definition short_first :: "nat \<Rightarrow> bool \<Rightarrow> byte" where
  "short_first n keyPhase =
    (let f = 0x40 OR of_nat (n - 1) in if keyPhase then f OR 0x08 else f)"

lemma short_first_bits:
  assumes "1 \<le> n" and "n \<le> 4"
  shows "unat (short_first n kp AND 0x03) = n - 1" "short_first n kp AND 0x80 = 0"
    "short_first n kp AND 0x08 \<noteq> 0 \<longleftrightarrow> kp" "short_first n kp AND 0x04 = 0"
proof -
  have "n = 1 \<or> n = 2 \<or> n = 3 \<or> n = 4" using assms by linarith
  then show "unat (short_first n kp AND 0x03) = n - 1" "short_first n kp AND 0x80 = 0"
    "short_first n kp AND 0x08 \<noteq> 0 \<longleftrightarrow> kp" "short_first n kp AND 0x04 = 0"
    by (auto simp: short_first_def Let_def)
qed

definition wire_short :: "'x gm_sym_scheme \<Rightarrow> bytes \<Rightarrow> byte \<Rightarrow> bytes \<Rightarrow> bytes \<Rightarrow> bytes \<Rightarrow> bytes" where
  "wire_short g hp f mid n ct =
    masked_first False (hp_mask g hp n ct) f # mid @ xorb n (drop 1 (hp_mask g hp n ct)) @ ct"

lemma Seal1RTTPacket_shape:
  assumes seal: "Seal1RTTPacket g (Some k) dcid pn n kp payload = Inr packet" and sm4: "sm4_ok g"
  obtains p a hp ct where "newProtector k = Inr p" "protector_live p a hp" "1 \<le> n" "n \<le> 4" "dcid \<noteq> []"
    "EncryptPayload g p pn (short_first n kp # dcid @ be n (unat pn)) payload = Inr ct"
    "20 \<le> n + length ct"
    "packet = wire_short g hp (short_first n kp) dcid (be n (unat pn)) ct"
proof -
  note defs = Seal1RTTPacket_def NewQUICPacketProtectorFromKeys_def Let_def
  have n: "1 \<le> n" "n \<le> 4" using seal by (auto simp: Seal1RTTPacket_def split: if_splits)
  have d: "dcid \<noteq> []" using seal n by (cases "dcid = []") (simp_all add: defs)
  obtain p where p: "newProtector k = Inr p"
    using seal n d by (cases "newProtector k") (auto simp add: defs)
  from newProtector_live [OF p] obtain a hp where live: "protector_live p a hp" .
  let ?f = "short_first n kp"
  have seal': "bindE (EncryptPayload g p pn (?f # dcid @ be n (unat pn)) payload) (\<lambda>ct.
      ApplyHeaderProtection g p (?f # dcid @ be n (unat pn) @ ct) (Suc (length dcid)) n False) = Inr packet"
    using seal n d p by (simp add: defs AppendPacketNumber_be short_first_def)
  obtain ct where ct: "EncryptPayload g p pn (?f # dcid @ be n (unat pn)) payload = Inr ct"
    and ap: "ApplyHeaderProtection g p (?f # dcid @ be n (unat pn) @ ct) (Suc (length dcid)) n False = Inr packet"
    using seal' by (auto simp: bindE_Inr_iff)
  have long: "20 \<le> n + length ct"
    using ap live by (auto simp: ApplyHeaderProtection_def protector_live_def bindE_Inr_iff
        headerMask_def Let_def split: if_splits)
  have "packet = wire_short g hp ?f dcid (be n (unat pn)) ct"
    using ApplyHeaderProtection_packet [of p hp g "be n (unat pn)" ct "Suc (length dcid)" dcid ?f False]
      ap live sm4 n long by (simp add: protector_live_def wire_short_def)
  with p live n d ct long show thesis by (intro that)
qed

lemma Open1RTT_wire:
  assumes live: "protector_live p a hp" and p: "newProtector k = Inr p" and sm4: "sm4_ok g"
    and n: "1 \<le> n" "n \<le> 4" and d: "dcid \<noteq> []"
    and enc: "EncryptPayload g p pn (short_first n kp # dcid @ be n (unat pn)) payload = Inr ct"
    and long: "20 \<le> n + length ct"
    and dec: "(case la of None \<Rightarrow> TruncatePacketNumber pn n
               | Some l \<Rightarrow> DecodePacketNumber l (TruncatePacketNumber pn n) n) = pn"
  shows "Open1RTTPacket g (Some k) dcid la (wire_short g hp (short_first n kp) dcid (be n (unat pn)) ct)
    = (short_first n kp # dcid @ be n (unat pn) @ ct, Inr (pn, payload))"
proof -
  let ?f = "short_first n kp" and ?n = "be n (unat pn)"
  define w where "w = wire_short g hp ?f dcid ?n ct"
  define plain where "plain = ?f # dcid @ ?n @ ct"
  from EncryptPayload_live [OF live sm4 enc] have ct: "length ct = length payload + 16"
    and op: "DecryptPayload g p pn (?f # dcid @ ?n) ct = Inr payload" by simp_all
  have ne: "ct \<noteq> []" using ct by auto
  have u: "unat (?f AND 0x03) + 1 = n" using short_first_bits(1) [OF n] n by simp
  have rm: "RemoveHeaderProtection g p w (Suc (length dcid)) False
      = (plain, Inr (TruncatePacketNumber pn n))"
    unfolding w_def wire_short_def plain_def decodePacketNumber_be [OF n, symmetric]
    by (rule RemoveHeaderProtection_packet)
       (use live sm4 u n long in \<open>simp_all add: protector_live_def\<close>)
  have w0: "w ! 0 AND 0x80 = 0" "take (length dcid) (drop 1 w) = dcid" "Suc (length dcid) < length w"
    using short_first_bits(2) [OF n] ne
    by (simp_all add: w_def wire_short_def masked_short_bits)
  obtain m where m: "n = Suc m" using n by (cases n) auto
  have split: "take (Suc (Suc (length dcid + m))) plain = ?f # dcid @ ?n"
    "drop (Suc (Suc (length dcid + m))) plain = ct" "unat (plain ! 0 AND 3) = m"
    "length plain = Suc (Suc (length dcid + m)) + length ct" "w \<noteq> []"
    using u w0(3) by (auto simp: plain_def m)
  have dec': "(case la of None \<Rightarrow> TruncatePacketNumber pn n
      | Some l \<Rightarrow> DecodePacketNumber l (TruncatePacketNumber pn n) (Suc (unat (plain ! 0 AND 3)))) = pn"
    unfolding split(3) m [symmetric] by (rule dec)
  have "Open1RTTPacket g (Some k) dcid la w = (plain, Inr (pn, payload))"
    using d w0 ct
    by (simp add: Open1RTTPacket_def NewQUICPacketProtectorFromKeys_def p Let_def rm split dec' op
        sm4GCMTagSize_def)
  then show ?thesis by (simp add: w_def plain_def)
qed

lemma Seal1RTTPacket_total:
  assumes "sm4_ok g" and "packet_keys_wf k" and n: "1 \<le> n" "n \<le> 4" and "dcid \<noteq> []"
    and "4 \<le> n + length payload" and "length payload \<le> gcm_max"
  shows "\<exists>packet. Seal1RTTPacket g (Some k) dcid pn n kp payload = Inr packet"
proof -
  obtain p where p: "newProtector k = Inr p" using newProtector_total [OF assms(2)] ..
  from newProtector_live [OF p] obtain a hp where live: "protector_live p a hp" .
  let ?f = "short_first n kp"
  obtain ct where ct: "EncryptPayload g p pn (?f # dcid @ be n (unat pn)) payload = Inr ct"
    by (rule EncryptPayload_total [OF live assms(1,7)])
  from EncryptPayload_live [OF live assms(1) ct] have "length ct = length payload + 16" by simp
  then show ?thesis
    using ApplyHeaderProtection_packet [of p hp g "be n (unat pn)" ct "Suc (length dcid)" dcid ?f False]
      live assms(1,5,6) n p ct
    by (simp add: Seal1RTTPacket_def NewQUICPacketProtectorFromKeys_def Let_def AppendPacketNumber_be
        short_first_def protector_live_def)
qed

text \<open>The receiver's knowledge suffices to reconstruct the packet number.\<close>

definition pn_decodable :: "u64 option \<Rightarrow> u64 \<Rightarrow> nat \<Rightarrow> bool" where
  "pn_decodable la pn n =
    (case la of None \<Rightarrow> unat pn < 256 ^ n
     | Some l \<Rightarrow> ChoosePacketNumberLen pn (Some l) = Inr n \<and> unat pn < 2 ^ 62)"

lemma pn_decodable_dec:
  assumes "pn_decodable la pn n" and n: "1 \<le> n" "n \<le> 4"
  shows "(case la of None \<Rightarrow> TruncatePacketNumber pn n
          | Some l \<Rightarrow> DecodePacketNumber l (TruncatePacketNumber pn n) n) = pn"
proof (cases la)
  case None
  then have "unat (TruncatePacketNumber pn n) = unat pn"
    using assms by (simp add: pn_decodable_def unat_Truncate)
  then show ?thesis using None by (simp only: u64_eq_iff option.case)
next
  case (Some l)
  then have c: "ChoosePacketNumberLen pn (Some l) = Inr n" and pn: "unat pn < 2 ^ 62"
    using assms(1) by (simp_all add: pn_decodable_def)
  from ChoosePacketNumberLen_window [OF c] have "unat l < unat pn" "unat pn - unat l < 256 ^ n div 2"
    by (auto simp: u64_less_iff)
  then have "DecodePacketNumber l (TruncatePacketNumber pn n) n = pn"
    using n pn by (intro Decode_Truncate) simp_all
  then show ?thesis using Some by simp
qed

text \<open>
  C16. A 1-RTT packet that \<open>Seal1RTTPacket\<close> built is opened by \<open>Open1RTTPacket\<close> under the
  same keys and connection ID: the packet number is reconstructed and the payload
  decrypted, either without feedback when the number fits its field, or with the
  largest acknowledged number from which the sender chose the width. After opening,
  the caller's buffer holds the plain header, in which bit 3 (0x08) carries the key
  phase and bit 2 (0x04) is always 0.
\<close>

theorem one_rtt_packet_roundtrip:
  assumes "sm4_ok g"
    and "Seal1RTTPacket g keys dcid pn pnLen keyPhase payload = Inr packet"
    and "pn_decodable largestAcked pn pnLen"
  shows "\<exists>plain. Open1RTTPacket g keys dcid largestAcked packet = (plain, Inr (pn, payload))
    \<and> (plain ! 0 AND 0x08 \<noteq> 0 \<longleftrightarrow> keyPhase) \<and> plain ! 0 AND 0x04 = 0"
proof -
  obtain k where k: "keys = Some k"
    using assms(2) by (cases keys)
      (auto simp: Seal1RTTPacket_def NewQUICPacketProtectorFromKeys_def split: if_splits)
  from Seal1RTTPacket_shape [OF assms(2) [unfolded k] assms(1)] obtain p a hp ct where
    p: "newProtector k = Inr p" and live: "protector_live p a hp" and n: "1 \<le> pnLen" "pnLen \<le> 4"
    and d: "dcid \<noteq> []"
    and ct: "EncryptPayload g p pn (short_first pnLen keyPhase # dcid @ be pnLen (unat pn)) payload = Inr ct"
    and long: "20 \<le> pnLen + length ct"
    and w: "packet = wire_short g hp (short_first pnLen keyPhase) dcid (be pnLen (unat pn)) ct" .
  from Open1RTT_wire [OF live p assms(1) n d ct long pn_decodable_dec [OF assms(3) n]]
  show ?thesis using short_first_bits [OF n] by (auto simp: k w)
qed

theorem one_rtt_packet_roundtrip_witness:
  "\<exists>packet. Seal1RTTPacket toy_sym (Some demo_keys) [1, 2] 300 1 True [6, 6, 6] = Inr packet \<and>
     (\<exists>plain. Open1RTTPacket toy_sym (Some demo_keys) [1, 2] (Some 290) packet
        = (plain, Inr (300, [6, 6, 6])) \<and> (plain ! 0 AND 0x08 \<noteq> 0 \<longleftrightarrow> True) \<and> plain ! 0 AND 0x04 = 0)"
proof -
  obtain packet where s: "Seal1RTTPacket toy_sym (Some demo_keys) [1, 2] 300 1 True [6, 6, 6] = Inr packet"
    using Seal1RTTPacket_total [OF toy_sm4_ok demo_keys_wf, of 1 "[1, 2]" "[6, 6, 6]" 300 True]
    by (auto simp: gcm_max_def)
  have "pn_decodable (Some 290) 300 1"
    by (simp add: pn_decodable_def ChoosePacketNumberLen_def)
  from one_rtt_packet_roundtrip [OF toy_sm4_ok s this] s show ?thesis by blast
qed

section \<open>Zeroed protectors\<close>

text \<open>
  C38. Once \<open>Zero\<close> has run, the protector holds no key material and every operation
  returns the dedicated error and leaves the caller's buffer alone.
\<close>

theorem zeroed_protector_refuses:
  "EncryptPayload g (Protector_Zero p) pn hdr payload = Inl PkZeroed
   \<and> DecryptPayload g (Protector_Zero p) pn hdr payload = Inl PkZeroed
   \<and> ApplyHeaderProtection g (Protector_Zero p) buffer off n isLong = Inl PkZeroed
   \<and> RemoveHeaderProtection g (Protector_Zero p) buffer off isLong = (buffer, Inl PkZeroed)
   \<and> Keys (Protector_Zero p) = \<lparr>AEADKey = [], AEADIV = [], HeaderKey = []\<rparr>"
  by (simp add: Protector_Zero_def EncryptPayload_def DecryptPayload_def ApplyHeaderProtection_def
      RemoveHeaderProtection_def Keys_def QUICPacketKeys_Zero_def)

end
