(* ===== verification/Extensions.thy ===== *)
theory Extensions
  imports Codec
begin

text \<open>
  TLS extensions and the extension payloads the handshake engine uses:
  \<open>src/tls13gm/message_extensions.go\<close>, \<open>message_keyshare.go\<close> and the wire formats of
  \<open>message_psk.go\<close>.

  A parsed extension without data has nil data, and \<open>findExtension\<close> returns nil for an
  absent one; the callers test the result for nil, so the empty list stands for both.
\<close>

section \<open>Extension vectors\<close>

record Extension =
  etype :: u16
  edata :: bytes

datatype ext_error =
    ExtDataTooLong
  | ExtVectorTooLong
  | ExtLengthTruncated
  | ExtVectorTruncated
  | ExtTruncated
  | ExtTrailing

primrec marshalExtensionBody :: "Extension list \<Rightarrow> ext_error + bytes" where
  "marshalExtensionBody [] = Inr []"
| "marshalExtensionBody (e # es) =
    (if length (edata e) > 0xFFFF then Inl ExtDataTooLong
     else
       bindE (marshalExtensionBody es) (\<lambda>body.
       Inr (be 2 (unat (etype e)) @ be 2 (length (edata e)) @ edata e @ body)))"

definition marshalExtensions :: "Extension list \<Rightarrow> ext_error + bytes" where
  "marshalExtensions exts =
    bindE (marshalExtensionBody exts) (\<lambda>body.
    if length body > 0xFFFF then Inl ExtVectorTooLong
    else Inr (be 2 (length body) @ body))"

text \<open>The loop \<open>for len(p) >= 4\<close> and the check for trailing bytes after it.\<close>

function parseExtensionBody :: "bytes \<Rightarrow> ext_error + Extension list" where
  "parseExtensionBody p =
    (if length p \<ge> 4 then
       (let typ = of_nat (unbe (take 2 p)); dataLen = unbe (take 2 (drop 2 p)) in
        if length p < 4 + dataLen then Inl ExtTruncated
        else
          bindE (parseExtensionBody (drop (4 + dataLen) p)) (\<lambda>es.
          Inr (\<lparr>etype = typ, edata = take dataLen (drop 4 p)\<rparr> # es)))
     else if length p \<noteq> 0 then Inl ExtTrailing
     else Inr [])"
  by auto
termination
  by (relation "measure length") auto

declare parseExtensionBody.simps [simp del]

definition parseExtensions :: "bytes \<Rightarrow> ext_error + (Extension list \<times> nat)" where
  "parseExtensions b =
    (if length b < 2 then Inl ExtLengthTruncated
     else
       (let vecLen = unbe (take 2 b) in
        if length b < 2 + vecLen then Inl ExtVectorTruncated
        else
          bindE (parseExtensionBody (take vecLen (drop 2 b))) (\<lambda>exts.
          Inr (exts, 2 + vecLen))))"

fun findExtension :: "Extension list \<Rightarrow> u16 \<Rightarrow> bytes" where
  "findExtension [] typ = []"
| "findExtension (e # es) typ = (if etype e = typ then edata e else findExtension es typ)"

fun hasExtension :: "Extension list \<Rightarrow> u16 \<Rightarrow> bool" where
  "hasExtension [] typ = False"
| "hasExtension (e # es) typ = (if etype e = typ then True else hasExtension es typ)"

section \<open>Extension vectors round-trip\<close>

lemma unat_u16_lt [simp]: "unat (x :: u16) < 65536"
  using unsigned_less [of x] by simp

lemma of_nat_unat_u16: "of_nat (unat x mod 65536) = (x :: u16)"
  by simp

lemma parseExtensionBody_Cons:
  assumes "length d \<le> 0xFFFF"
  shows "parseExtensionBody (be 2 (unat (t :: u16)) @ be 2 (length d) @ d @ rest)
    = bindE (parseExtensionBody rest) (\<lambda>es. Inr (\<lparr>etype = t, edata = d\<rparr> # es))"
proof -
  let ?p = "be 2 (unat t) @ be 2 (length d) @ d @ rest"
  have 1: "take 2 ?p = be 2 (unat t)" "take 2 (drop 2 ?p) = be 2 (length d)"
    "take (length d) (drop 4 ?p) = d" "drop (4 + length d) ?p = rest" by simp_all
  have 2: "length d mod 65536 = length d" using assms by simp
  show ?thesis
    by (subst parseExtensionBody.simps) (simp add: 1 2 Let_def)
qed

lemma parse_marshal_body:
  "marshalExtensionBody exts = Inr b \<Longrightarrow> parseExtensionBody b = Inr exts"
proof (induction exts arbitrary: b)
  case Nil
  then show ?case by (simp add: parseExtensionBody.simps)
next
  case (Cons e es)
  then obtain r where "marshalExtensionBody es = Inr r" "length (edata e) \<le> 0xFFFF"
    "b = be 2 (unat (etype e)) @ be 2 (length (edata e)) @ edata e @ r"
    by (auto simp: bindE_Inr_iff split: if_splits)
  then show ?case using Cons.IH parseExtensionBody_Cons [of "edata e" "etype e" r] by simp
qed

lemma be2_take: "2 \<le> length p \<Longrightarrow> be 2 (unbe (take 2 p)) = take 2 p"
  by (rule be_unbe_len) simp

lemma unat_of_unbe2: "2 \<le> length p \<Longrightarrow> unat (of_nat (unbe (take 2 p)) :: u16) = unbe (take 2 p)"
proof -
  assume "2 \<le> length p"
  then have "unbe (take 2 p) < 256 ^ 2" using unbe_lt [of "take 2 p"] by simp
  then show ?thesis by (simp add: unat_of_nat)
qed

lemma take_drop_split: "take b (drop a p) @ drop (a + b) p = drop a p"
  by (metis append_take_drop_id drop_drop add.commute)

lemma split_2_2: "take 2 b @ take 2 (drop 2 b) @ take l (drop 4 b) @ drop (4 + l) b = b"
proof -
  have "take 2 b @ take 2 (drop 2 b) = take 4 b" by (simp flip: take_add)
  then show ?thesis unfolding take_drop_split append_assoc [symmetric] by simp
qed

lemma marshal_parse_body:
  "parseExtensionBody b = Inr exts \<Longrightarrow> marshalExtensionBody exts = Inr b"
proof (induction b arbitrary: exts rule: length_induct)
  case (1 b)
  show ?case
  proof (cases "4 \<le> length b")
    case False
    then show ?thesis using "1.prems" by (subst (asm) parseExtensionBody.simps) (auto split: if_splits)
  next
    case True
    let ?t = "of_nat (unbe (take 2 b)) :: u16" and ?l = "unbe (take 2 (drop 2 b))"
    from True "1.prems" obtain es where len: "4 + ?l \<le> length b"
      and es: "parseExtensionBody (drop (4 + ?l) b) = Inr es"
      and exts: "exts = \<lparr>etype = ?t, edata = take ?l (drop 4 b)\<rparr> # es"
      by (subst (asm) parseExtensionBody.simps) (auto simp: Let_def bindE_Inr_iff split: if_splits)
    have IH: "marshalExtensionBody es = Inr (drop (4 + ?l) b)"
      using "1.IH" es True by auto
    have l: "?l \<le> 0xFFFF" using unbe_lt [of "take 2 (drop 2 b)"] True by simp
    have ld: "length (take ?l (drop 4 b)) = ?l" using len by simp
    have t: "be 2 (unat ?t) = take 2 b" using True by (simp only: unat_of_unbe2 be2_take)
    have ll: "be 2 ?l = take 2 (drop 2 b)" using True by (intro be2_take) simp
    have "marshalExtensionBody exts
        = Inr (be 2 (unat ?t) @ be 2 ?l @ take ?l (drop 4 b) @ drop (4 + ?l) b)"
      using l IH ld by (simp only: exts marshalExtensionBody.simps bindE_simps Extension.select_convs) simp
    also have "be 2 (unat ?t) @ be 2 ?l @ take ?l (drop 4 b) @ drop (4 + ?l) b = b"
      unfolding t ll by (rule split_2_2)
    finally show ?thesis .
  qed
qed

lemma parse_marshal_exts:
  assumes "marshalExtensions exts = Inr b"
  shows "parseExtensions (b @ rest) = Inr (exts, length b)"
proof -
  from assms obtain body where body: "marshalExtensionBody exts = Inr body" "length body \<le> 0xFFFF"
    "b = be 2 (length body) @ body"
    by (auto simp: marshalExtensions_def bindE_Inr_iff split: if_splits)
  then have "length body mod 65536 = length body" by simp
  then show ?thesis
    using parse_marshal_body [OF body(1)] by (simp add: parseExtensions_def body(3) Let_def)
qed

lemma marshal_parse_exts:
  assumes "parseExtensions b = Inr (exts, n)"
  shows "n \<le> length b \<and> marshalExtensions exts = Inr (take n b)"
proof -
  let ?l = "unbe (take 2 b)"
  from assms have len: "2 \<le> length b" "2 + ?l \<le> length b" and n: "n = 2 + ?l"
    and body: "parseExtensionBody (take ?l (drop 2 b)) = Inr exts"
    by (auto simp: parseExtensions_def Let_def bindE_Inr_iff not_less split: if_splits)
  have lb: "length (take ?l (drop 2 b)) = ?l" using len by simp
  have "?l \<le> 0xFFFF" using unbe_lt [of "take 2 b"] len by simp
  then have "marshalExtensions exts = Inr (be 2 ?l @ take ?l (drop 2 b))"
    using marshal_parse_body [OF body] lb by (simp only: marshalExtensions_def bindE_simps) simp
  also have "be 2 ?l = take 2 b" by (rule be2_take [OF len(1)])
  also have "take 2 b @ take ?l (drop 2 b) = take n b" unfolding n by (rule take_add [symmetric])
  finally show ?thesis using n len by simp
qed

interpretation extensions: wire_codec "\<lambda>_. True" marshalExtensions parseExtensions
  by unfold_locales (auto simp: parse_marshal_exts dest: marshal_parse_exts)

lemma hasExtension_iff: "hasExtension exts t \<longleftrightarrow> (\<exists>e \<in> set exts. etype e = t)"
  by (induction exts) auto

lemma findExtension_append:
  "findExtension (xs @ ys) t = (if hasExtension xs t then findExtension xs t else findExtension ys t)"
  by (induction xs) auto

lemma hasExtension_append [simp]: "hasExtension (xs @ ys) t \<longleftrightarrow> hasExtension xs t \<or> hasExtension ys t"
  by (simp add: hasExtension_iff) blast

lemma findExtension_absent: "\<not> hasExtension exts t \<Longrightarrow> findExtension exts t = []"
  by (induction exts) (auto split: if_splits)

section \<open>ALPN\<close>

datatype alpn_error =
    AlpnEmptyName
  | AlpnNameTooLong
  | AlpnTooShort
  | AlpnLength
  | AlpnOverrun
  | AlpnEmptyList

primrec marshalALPNNames :: "bytes list \<Rightarrow> alpn_error + bytes" where
  "marshalALPNNames [] = Inr []"
| "marshalALPNNames (p # ps) =
    (if length p = 0 then Inl AlpnEmptyName
     else if length p > 255 then Inl AlpnNameTooLong
     else bindE (marshalALPNNames ps) (\<lambda>out. Inr ([of_nat (length p)] @ p @ out)))"

text \<open>The list length is written into two bytes without a check.\<close>

definition marshalALPNExtension :: "bytes list \<Rightarrow> alpn_error + bytes" where
  "marshalALPNExtension protocols =
    bindE (marshalALPNNames protocols) (\<lambda>out. Inr (be 2 (length out) @ out))"

function parseALPNNames :: "bytes \<Rightarrow> alpn_error + bytes list" where
  "parseALPNNames p =
    (if length p > 0 then
       (let n = unat (p ! 0) in
        if n = 0 then Inl AlpnEmptyName
        else if n > length p - 1 then Inl AlpnOverrun
        else
          bindE (parseALPNNames (drop (1 + n) p)) (\<lambda>out.
          Inr (take n (drop 1 p) # out)))
     else Inr [])"
  by auto
termination
  by (relation "measure length") auto

declare parseALPNNames.simps [simp del]

definition parseALPNExtension :: "bytes \<Rightarrow> alpn_error + bytes list" where
  "parseALPNExtension data =
    (if length data < 2 then Inl AlpnTooShort
     else
       (let listLen = unbe (take 2 data) in
        if listLen \<noteq> length data - 2 then Inl AlpnLength
        else
          bindE (parseALPNNames (drop 2 data)) (\<lambda>out.
          if length out = 0 then Inl AlpnEmptyList else Inr out)))"

lemma parse_marshal_names: "marshalALPNNames ps = Inr b \<Longrightarrow> parseALPNNames b = Inr ps"
proof (induction ps arbitrary: b)
  case Nil
  then show ?case by (simp add: parseALPNNames.simps)
next
  case (Cons p ps)
  then obtain r where r: "marshalALPNNames ps = Inr r" "p \<noteq> []" "length p \<le> 255"
    "b = of_nat (length p) # p @ r"
    by (auto simp: bindE_Inr_iff split: if_splits)
  have n: "unat (of_nat (length p) :: byte) = length p" using r(3) by (simp add: unat_of_nat_byte)
  show ?case
    using Cons.IH [OF r(1)] r(2) n by (subst parseALPNNames.simps) (simp add: r(4) Let_def)
qed

lemma marshal_parse_names: "parseALPNNames b = Inr ps \<Longrightarrow> marshalALPNNames ps = Inr b"
proof (induction b arbitrary: ps rule: length_induct)
  case (1 b)
  show ?case
  proof (cases b)
    case Nil
    then show ?thesis using "1.prems" by (subst (asm) parseALPNNames.simps) simp
  next
    case (Cons x xs)
    let ?n = "unat x"
    from "1.prems" Cons obtain out where n: "?n \<noteq> 0" "?n \<le> length xs"
      and out: "parseALPNNames (drop ?n xs) = Inr out" and ps: "ps = take ?n xs # out"
      by (subst (asm) parseALPNNames.simps) (auto simp: Let_def bindE_Inr_iff split: if_splits)
    have IH: "marshalALPNNames out = Inr (drop ?n xs)" using "1.IH" out Cons by auto
    have len: "length (take ?n xs) = ?n" using n by simp
    have "?n \<le> 255" using unat_byte_lt [of x] by linarith
    then have "marshalALPNNames ps = Inr (of_nat ?n # take ?n xs @ drop ?n xs)"
      using n IH len by (simp only: ps marshalALPNNames.simps bindE_simps) simp
    then show ?thesis by (simp add: Cons)
  qed
qed

lemma parse_marshal_alpn:
  assumes "marshalALPNExtension ps = Inr b" and "ps \<noteq> []" and "length b \<le> 65537"
  shows "parseALPNExtension b = Inr ps"
proof -
  from assms(1) obtain out where out: "marshalALPNNames ps = Inr out" "b = be 2 (length out) @ out"
    by (auto simp: marshalALPNExtension_def bindE_Inr_iff)
  then have "length out mod 65536 = length out" using assms(3) by simp
  then show ?thesis
    using parse_marshal_names [OF out(1)] assms(2) by (simp add: parseALPNExtension_def out(2) Let_def)
qed

lemma marshal_parse_alpn:
  assumes "parseALPNExtension b = Inr ps"
  shows "ps \<noteq> [] \<and> marshalALPNExtension ps = Inr b"
proof -
  from assms have len: "2 \<le> length b" and l: "unbe (take 2 b) = length b - 2" and ne: "ps \<noteq> []"
    and names: "parseALPNNames (drop 2 b) = Inr ps"
    by (auto simp: parseALPNExtension_def Let_def bindE_Inr_iff split: if_splits)
  have "marshalALPNExtension ps = Inr (be 2 (length b - 2) @ drop 2 b)"
    using marshal_parse_names [OF names] by (simp add: marshalALPNExtension_def)
  also have "be 2 (length b - 2) = take 2 b" using be2_take [OF len] l by simp
  finally show ?thesis using ne by simp
qed

text \<open>Every parsed protocol name has 1 to 255 bytes.\<close>

lemma parseALPN_names: "parseALPNExtension b = Inr ps \<Longrightarrow> p \<in> set ps \<Longrightarrow> 1 \<le> length p \<and> length p \<le> 255"
proof -
  have "marshalALPNNames ps = Inr out \<Longrightarrow> p \<in> set ps \<Longrightarrow> 1 \<le> length p \<and> length p \<le> 255" for out
    by (induction ps arbitrary: out) (auto simp: bindE_Inr_iff Suc_le_eq split: if_splits)
  then show "parseALPNExtension b = Inr ps \<Longrightarrow> p \<in> set ps \<Longrightarrow> 1 \<le> length p \<and> length p \<le> 255"
    using marshal_parse_alpn [of b ps] by (auto simp: marshalALPNExtension_def bindE_Inr_iff)
qed

section \<open>Cookie\<close>

datatype cookie_error = CookieTooLong | CookieLengthTruncated | CookieTruncated

definition marshalCookieExtension :: "bytes \<Rightarrow> cookie_error + bytes" where
  "marshalCookieExtension cookie =
    (if length cookie > 0xFFFF then Inl CookieTooLong
     else Inr (be 2 (length cookie) @ cookie))"

definition parseCookieExtension :: "bytes \<Rightarrow> cookie_error + bytes" where
  "parseCookieExtension data =
    (if length data < 2 then Inl CookieLengthTruncated
     else
       (let l = unbe (take 2 data) in
        if length data < 2 + l then Inl CookieTruncated
        else Inr (take l (drop 2 data))))"

lemma parse_marshal_cookie:
  assumes "marshalCookieExtension c = Inr b"
  shows "parseCookieExtension (b @ junk) = Inr c"
proof -
  have "length c \<le> 0xFFFF" "b = be 2 (length c) @ c"
    using assms by (auto simp: marshalCookieExtension_def split: if_splits)
  moreover from this have "length c mod 65536 = length c" by simp
  ultimately show ?thesis by (simp add: parseCookieExtension_def Let_def)
qed

section \<open>Key share\<close>

datatype keyshare_error =
    KeyShareTruncated
  | KeyShareKeyLen
  | KeyShareListTruncated
  | KeyShareListLength
  | KeyShareNoGroup
  | KeyShareTrailing
  | KeyShareGroup

text \<open>The marshallers return nil, here the empty list, for a key that does not fit.\<close>

definition marshalClientKeyShare :: "u16 \<Rightarrow> bytes \<Rightarrow> bytes" where
  "marshalClientKeyShare grp key =
    (if length key = 0 \<or> length key > 0xFFFF then []
     else
       (let entryLen = 4 + length key in
        if entryLen > 0xFFFF then []
        else be 2 entryLen @ be 2 (unat grp) @ be 2 (length key) @ key))"

definition marshalServerKeyShare :: "u16 \<Rightarrow> bytes \<Rightarrow> bytes" where
  "marshalServerKeyShare grp key =
    (if length key = 0 \<or> length key > 0xFFFF then []
     else be 2 (unat grp) @ be 2 (length key) @ key)"

definition parseKeyShareEntry :: "bytes \<Rightarrow> keyshare_error + (u16 \<times> bytes \<times> nat)" where
  "parseKeyShareEntry b =
    (if length b < 4 then Inl KeyShareTruncated
     else
       (let grp = of_nat (unbe (take 2 b)); keyLen = unbe (take 2 (drop 2 b)) in
        if 4 + keyLen > length b then Inl KeyShareKeyLen
        else Inr (grp, take keyLen (drop 4 b), 4 + keyLen)))"

lemma parseKeyShareEntry_shorter:
  "parseKeyShareEntry b = Inr (g, k, n) \<Longrightarrow> length (drop n b) < length b"
  by (auto simp: parseKeyShareEntry_def Let_def split: if_splits)

function findKeyShare :: "bytes \<Rightarrow> u16 \<Rightarrow> keyshare_error + bytes" where
  "findKeyShare p wantGroup =
    (if length p > 0 then
       (case parseKeyShareEntry p of
          Inl e \<Rightarrow> Inl e
        | Inr (grp, key, n) \<Rightarrow>
            if grp = wantGroup then Inr key else findKeyShare (drop n p) wantGroup)
     else Inl KeyShareNoGroup)"
  by auto
termination
  by (relation "measure (\<lambda>(p, g). length p)") (use parseKeyShareEntry_shorter in auto)

declare findKeyShare.simps [simp del]

definition parseClientKeyShare :: "bytes \<Rightarrow> u16 \<Rightarrow> keyshare_error + bytes" where
  "parseClientKeyShare data wantGroup =
    (if length data < 2 then Inl KeyShareListTruncated
     else
       (let listLen = unbe (take 2 data) in
        if 2 + listLen \<noteq> length data then Inl KeyShareListLength
        else findKeyShare (take listLen (drop 2 data)) wantGroup))"

definition parseServerKeyShare :: "bytes \<Rightarrow> u16 \<Rightarrow> keyshare_error + bytes" where
  "parseServerKeyShare data wantGroup =
    bindE (parseKeyShareEntry data) (\<lambda>(grp, key, n).
    if n \<noteq> length data then Inl KeyShareTrailing
    else if grp \<noteq> wantGroup then Inl KeyShareGroup
    else Inr key)"

lemma parseKeyShareEntry_marshal:
  assumes "length key \<le> 0xFFFF"
  shows "parseKeyShareEntry (be 2 (unat (grp :: u16)) @ be 2 (length key) @ key @ rest)
    = Inr (grp, key, 4 + length key)"
proof -
  have "length key mod 65536 = length key" using assms by simp
  then show ?thesis by (simp add: parseKeyShareEntry_def Let_def)
qed

lemma parse_marshal_client_keyshare:
  assumes "0 < length key" and "length key \<le> 65531"
  shows "parseClientKeyShare (marshalClientKeyShare grp key) grp = Inr key"
proof -
  have "(4 + length key) mod 65536 = 4 + length key" using assms by simp
  moreover have "findKeyShare (be 2 (unat grp) @ be 2 (length key) @ key) grp = Inr key"
    using parseKeyShareEntry_marshal [of key grp "[]"] assms
    by (subst findKeyShare.simps) simp
  ultimately show ?thesis
    using assms by (simp add: parseClientKeyShare_def marshalClientKeyShare_def Let_def)
qed

lemma parse_marshal_server_keyshare:
  assumes "0 < length key" and "length key \<le> 0xFFFF"
  shows "parseServerKeyShare (marshalServerKeyShare grp key) grp = Inr key"
  using parseKeyShareEntry_marshal [of key grp "[]"] assms
  by (simp add: parseServerKeyShare_def marshalServerKeyShare_def)

section \<open>Pre-shared key\<close>

datatype psk_error =
    PskIdentityTooLong
  | PskBinderTooLong
  | PskIdentitiesLength
  | PskIdentitiesTruncated
  | PskIdentityLength
  | PskIdentityBody
  | PskBindersLength
  | PskBindersTruncated
  | PskBinderLength
  | PskBinderBody

record PskIdentity =
  Identity :: bytes
  ObfuscatedTicketAge :: u32

primrec marshalIdentities :: "PskIdentity list \<Rightarrow> bytes" where
  "marshalIdentities [] = []"
| "marshalIdentities (i # is) =
    be 2 (length (Identity i)) @ Identity i @ be 4 (unat (ObfuscatedTicketAge i)) @ marshalIdentities is"

primrec marshalBinders :: "bytes list \<Rightarrow> psk_error + bytes" where
  "marshalBinders [] = Inr []"
| "marshalBinders (b # bs) =
    (if length b > 0xFF then Inl PskBinderTooLong
     else bindE (marshalBinders bs) (\<lambda>v. Inr ([of_nat (length b)] @ b @ v)))"

text \<open>The two vector lengths are written into two bytes without a check.\<close>

definition marshalPreSharedKeyExtension :: "PskIdentity list \<Rightarrow> bytes list \<Rightarrow> psk_error + bytes" where
  "marshalPreSharedKeyExtension identities binders =
    (if \<exists>i \<in> set identities. length (Identity i) > 0xFFFF then Inl PskIdentityTooLong
     else
       (let idVec = marshalIdentities identities in
        bindE (marshalBinders binders) (\<lambda>binderVec.
        Inr (be 2 (length idVec) @ idVec @ be 2 (length binderVec) @ binderVec))))"

function parseIdentities :: "bytes \<Rightarrow> psk_error + PskIdentity list" where
  "parseIdentities q =
    (if length q > 0 then
       (if 2 > length q then Inl PskIdentityLength
        else
          (let l = unbe (take 2 q) in
           if 2 + l + 4 > length q then Inl PskIdentityBody
           else
             bindE (parseIdentities (drop (2 + l + 4) q)) (\<lambda>ids.
             Inr (\<lparr>Identity = take l (drop 2 q),
                   ObfuscatedTicketAge = of_nat (unbe (take 4 (drop (2 + l) q)))\<rparr> # ids))))
     else Inr [])"
  by auto
termination
  by (relation "measure length") auto

declare parseIdentities.simps [simp del]

function parseBinders :: "bytes \<Rightarrow> psk_error + bytes list" where
  "parseBinders q =
    (if length q > 0 then
       (if 1 > length q then Inl PskBinderLength
        else
          (let l = unat (q ! 0) in
           if 1 + l > length q then Inl PskBinderBody
           else
             bindE (parseBinders (drop (1 + l) q)) (\<lambda>bs.
             Inr (take l (drop 1 q) # bs))))
     else Inr [])"
  by auto
termination
  by (relation "measure length") auto

declare parseBinders.simps [simp del]

definition parsePreSharedKeyExtension :: "bytes \<Rightarrow> psk_error + (PskIdentity list \<times> bytes list)" where
  "parsePreSharedKeyExtension data =
    (if length data < 2 then Inl PskIdentitiesLength
     else
       (let idLen = unbe (take 2 data) in
        if 2 + idLen > length data then Inl PskIdentitiesTruncated
        else
          bindE (parseIdentities (take idLen (drop 2 data))) (\<lambda>identities.
          let p = 2 + idLen in
          if p + 2 > length data then Inl PskBindersLength
          else
            (let binderLen = unbe (take 2 (drop p data)) in
             if p + 2 + binderLen > length data then Inl PskBindersTruncated
             else
               bindE (parseBinders (take binderLen (drop (p + 2) data))) (\<lambda>binders.
               Inr (identities, binders))))))"

definition marshalPSKKeyExchangeModesExtension :: "byte list \<Rightarrow> bytes" where
  "marshalPSKKeyExchangeModesExtension modes = [of_nat (length modes)] @ modes"

lemma unat_u32_lt [simp]: "unat (x :: u32) < 4294967296"
  using unsigned_less [of x] by simp

lemma parse_marshal_identities:
  "\<forall>i \<in> set ids. length (Identity i) \<le> 0xFFFF \<Longrightarrow> parseIdentities (marshalIdentities ids) = Inr ids"
proof (induction ids)
  case Nil
  then show ?case by (simp add: parseIdentities.simps)
next
  case (Cons i ids)
  let ?r = "marshalIdentities ids" and ?l = "length (Identity i)"
  have l: "?l mod 65536 = ?l" using Cons.prems by simp
  have IH: "parseIdentities ?r = Inr ids" using Cons by simp
  show ?case
    by (subst parseIdentities.simps) (simp add: Let_def l IH)
qed

lemma parse_marshal_binders: "marshalBinders bs = Inr v \<Longrightarrow> parseBinders v = Inr bs"
proof (induction bs arbitrary: v)
  case Nil
  then show ?case by (simp add: parseBinders.simps)
next
  case (Cons b bs)
  then obtain r where r: "marshalBinders bs = Inr r" "length b \<le> 255" "v = of_nat (length b) # b @ r"
    by (auto simp: bindE_Inr_iff split: if_splits)
  have "unat (of_nat (length b) :: byte) = length b" using r(2) by (simp add: unat_of_nat_byte)
  then show ?case
    using Cons.IH [OF r(1)] by (subst parseBinders.simps) (simp add: r(3) Let_def)
qed

text \<open>
  The parser accepts what the marshaller wrote, as long as neither vector overflows its
  length field; it also accepts any bytes after the binders.
\<close>

lemma parse_marshal_psk:
  assumes "marshalPreSharedKeyExtension ids bs = Inr b" and "length b \<le> 65535"
  shows "parsePreSharedKeyExtension (b @ junk) = Inr (ids, bs)"
proof -
  let ?i = "marshalIdentities ids"
  from assms(1) obtain v where v: "marshalBinders bs = Inr v"
    and b: "b = be 2 (length ?i) @ ?i @ be 2 (length v) @ v"
    and ids: "\<forall>i \<in> set ids. length (Identity i) \<le> 0xFFFF"
    by (auto simp: marshalPreSharedKeyExtension_def Let_def bindE_Inr_iff not_less split: if_splits)
  have l: "length ?i mod 65536 = length ?i" "length v mod 65536 = length v"
    using assms(2) by (simp_all add: b)
  show ?thesis
    by (simp add: parsePreSharedKeyExtension_def b Let_def l parse_marshal_identities [OF ids]
        parse_marshal_binders [OF v])
qed

end
