(* ===== verification/Messages.thy ===== *)
theory Messages
  imports Extensions
begin

text \<open>
  The handshake messages of \<open>src/tls13gm/message*.go\<close>: their bodies and the four-byte
  handshake header. \<open>unmarshalBody\<close> fills a fresh message in the code; here it returns
  the message. The parsers keep the unread suffix of the body instead of an index.
\<close>

section \<open>The message interface\<close>

datatype hello_error =
    HelloSessionIDTooLong
  | HelloTruncated
  | HelloLegacyVersion
  | HelloSessionIDTruncated
  | HelloSessionIDRange
  | HelloSuitesTruncated
  | HelloSuitesEmpty
  | HelloSuitesRange
  | HelloCompressionTruncated
  | HelloCompressionRange
  | HelloCompression

datatype cert_error =
    CertContextTooLong
  | CertContextTruncated
  | CertContextRange
  | CertListTruncated
  | CertListRange
  | CertListTooLong
  | CertDataLen
  | CertEntryTruncated
  | CertEntryRange

datatype nst_error =
    NstNonceTooLong
  | NstTicketEmpty
  | NstTicketTooLong
  | NstTruncated
  | NstNonceTruncated
  | NstNonceRange
  | NstTicketTruncated
  | NstTicketRange

datatype msg_error =
    MsgExt ext_error
  | MsgHello hello_error
  | MsgCert cert_error
  | MsgNst nst_error
  | MsgSignatureTooLong
  | MsgSignatureTruncated
  | MsgSignatureLength
  | MsgVerifyDataLen
  | MsgTrailing
  | MsgBodyTooLong
  | MsgHeaderTruncated
  | MsgBodyTruncated
  | MsgPsk psk_error
  | MsgPskIdentityCount
  | MsgPskTooShort

definition MaxHandshakeMessageLen :: nat where "MaxHandshakeMessageLen = 16777215"

text \<open>The header is built from the type and the body that the message's methods return.\<close>

definition MarshalHandshakeMessage :: "byte \<Rightarrow> msg_error + bytes \<Rightarrow> msg_error + bytes" where
  "MarshalHandshakeMessage ty marshalled =
    bindE marshalled (\<lambda>body.
    if length body > MaxHandshakeMessageLen then Inl MsgBodyTooLong
    else Inr ([ty] @ be 3 (length body) @ body))"

definition ReadHandshakeMessage :: "bytes \<Rightarrow> msg_error + ((byte \<times> bytes) \<times> nat)" where
  "ReadHandshakeMessage b =
    (if length b < 4 then Inl MsgHeaderTruncated
     else
       (let ty = b ! 0; bodyLen = unbe (take 3 (drop 1 b)) in
        if length b < 4 + bodyLen then Inl MsgBodyTruncated
        else Inr ((ty, take bodyLen (drop 4 b)), 4 + bodyLen)))"

lemma ReadHandshakeMessage_frame:
  assumes "length body \<le> MaxHandshakeMessageLen"
  shows "ReadHandshakeMessage ([ty] @ be 3 (length body) @ body @ rest)
    = Inr ((ty, body), 4 + length body)"
proof -
  have "length body mod 16777216 = length body" using assms by (simp add: MaxHandshakeMessageLen_def)
  then show ?thesis by (simp add: ReadHandshakeMessage_def Let_def)
qed

lemma ReadHandshakeMessage_split:
  assumes "ReadHandshakeMessage b = Inr ((ty, body), n)"
  shows "b = [ty] @ be 3 (length body) @ body @ drop n b \<and> n = 4 + length body
    \<and> length body \<le> MaxHandshakeMessageLen"
proof -
  let ?l = "unbe (take 3 (drop 1 b))"
  from assms have len: "4 \<le> length b" "4 + ?l \<le> length b"
    and t: "ty = b ! 0" and body: "body = take ?l (drop 4 b)" and n: "n = 4 + ?l"
    by (auto simp: ReadHandshakeMessage_def Let_def not_less split: if_splits)
  have lb: "length body = ?l" using body len by simp
  have "be 3 ?l = take 3 (drop 1 b)" using len by (intro be_unbe_len) simp
  moreover have "b = b ! 0 # take 3 (drop 1 b) @ take ?l (drop 4 b) @ drop (4 + ?l) b"
  proof -
    have "b = b ! 0 # drop 1 b" using len(1) by (cases b) auto
    also have "drop 1 b = take 3 (drop 1 b) @ drop 4 b"
      using append_take_drop_id [of 3 "drop 1 b"] by simp
    also have "drop 4 b = take ?l (drop 4 b) @ drop (4 + ?l) b" by (rule take_drop_split [symmetric])
    finally show ?thesis .
  qed
  moreover have "?l \<le> MaxHandshakeMessageLen"
    using unbe_lt [of "take 3 (drop 1 b)"] len by (simp add: MaxHandshakeMessageLen_def)
  ultimately show ?thesis using t body n lb by (metis append_Cons append_Nil)
qed

interpretation frame: wire_codec "\<lambda>_. True"
  "\<lambda>(ty, body). MarshalHandshakeMessage ty (Inr body)" ReadHandshakeMessage
proof (unfold_locales; clarify)
  fix ty body e rest
  assume "MarshalHandshakeMessage ty (Inr body) = Inr e"
  then show "ReadHandshakeMessage (e @ rest) = Inr ((ty, body), length e)"
    using ReadHandshakeMessage_frame [of body ty rest]
    by (auto simp: MarshalHandshakeMessage_def split: if_splits)
next
  fix b ty body n
  assume "ReadHandshakeMessage b = Inr ((ty, body), n)"
  from ReadHandshakeMessage_split [OF this] obtain r where
    "b = [ty] @ be 3 (length body) @ body @ r" "n = 4 + length body"
    "length body \<le> MaxHandshakeMessageLen" by auto
  then show "n \<le> length b \<and> True \<and> MarshalHandshakeMessage ty (Inr body) = Inr (take n b)"
    by (simp add: MarshalHandshakeMessage_def take_Cons')
qed

text \<open>
  What every message type promises (the Go interface \<open>handshakeMessage\<close>): parsing a
  marshalled body gives the message back, and a body that parses is the only body of
  the message it parses to.
\<close>

locale handshake_message =
  fixes msgType :: byte
    and wf :: "'m \<Rightarrow> bool"
    and marshalBody :: "'m \<Rightarrow> msg_error + bytes"
    and unmarshalBody :: "bytes \<Rightarrow> msg_error + 'm"
  assumes unmarshal_marshal: "wf m \<Longrightarrow> marshalBody m = Inr b \<Longrightarrow> unmarshalBody b = Inr m"
    and marshal_unmarshal: "unmarshalBody b = Inr m \<Longrightarrow> wf m \<and> marshalBody m = Inr b"
begin

lemma unmarshal_iff: "unmarshalBody b = Inr m \<longleftrightarrow> wf m \<and> marshalBody m = Inr b"
  using unmarshal_marshal marshal_unmarshal by blast

lemma unmarshal_inject: "unmarshalBody b = Inr m \<Longrightarrow> unmarshalBody c = Inr m \<Longrightarrow> b = c"
  using marshal_unmarshal by (metis sum.inject(2))

lemma read_message:
  assumes "wf m" and "MarshalHandshakeMessage msgType (marshalBody m) = Inr w"
  shows "\<exists>body. ReadHandshakeMessage (w @ rest) = Inr ((msgType, body), length w)
    \<and> unmarshalBody body = Inr m"
proof -
  from assms(2) obtain body where body: "marshalBody m = Inr body"
    by (auto simp: MarshalHandshakeMessage_def bindE_Inr_iff)
  have "ReadHandshakeMessage (w @ rest) = Inr ((msgType, body), length w)"
    using frame.dec_enc [of "(msgType, body)" w rest] assms(2) body by simp
  with unmarshal_marshal [OF assms(1) body] show ?thesis by blast
qed

end

section \<open>CertificateVerify and Finished\<close>

definition HandshakeTypeClientHello :: byte where "HandshakeTypeClientHello = 1"
definition HandshakeTypeServerHello :: byte where "HandshakeTypeServerHello = 2"
definition HandshakeTypeNewSessionTicket :: byte where "HandshakeTypeNewSessionTicket = 4"
definition HandshakeTypeEncryptedExtensions :: byte where "HandshakeTypeEncryptedExtensions = 8"
definition HandshakeTypeCertificate :: byte where "HandshakeTypeCertificate = 11"
definition HandshakeTypeCertificateVerify :: byte where "HandshakeTypeCertificateVerify = 15"
definition HandshakeTypeFinished :: byte where "HandshakeTypeFinished = 20"
definition HandshakeTypeMessageHash :: byte where "HandshakeTypeMessageHash = 254"

record CertificateVerifyMsg =
  SignatureScheme :: u16
  Signature :: bytes

definition CertificateVerify_marshalBody :: "CertificateVerifyMsg \<Rightarrow> msg_error + bytes" where
  "CertificateVerify_marshalBody m =
    (if length (Signature m) > 0xFFFF then Inl MsgSignatureTooLong
     else Inr (be 2 (unat (SignatureScheme m)) @ be 2 (length (Signature m)) @ Signature m))"

definition CertificateVerify_unmarshalBody :: "bytes \<Rightarrow> msg_error + CertificateVerifyMsg" where
  "CertificateVerify_unmarshalBody b =
    (if length b < 4 then Inl MsgSignatureTruncated
     else
       (let sigLen = unbe (take 2 (drop 2 b)) in
        if 4 + sigLen \<noteq> length b then Inl MsgSignatureLength
        else Inr \<lparr>SignatureScheme = of_nat (unbe (take 2 b)), Signature = drop 4 b\<rparr>))"

lemma u16_of_be: "length h = 2 \<Longrightarrow> be 2 (unat (of_nat (unbe h) :: u16)) = h"
  using unat_of_unbe2 [of h] be2_take [of h] by simp

interpretation certificateVerify: handshake_message HandshakeTypeCertificateVerify "\<lambda>_. True"
  CertificateVerify_marshalBody CertificateVerify_unmarshalBody
proof
  fix m b
  assume "CertificateVerify_marshalBody m = Inr b"
  then have len: "length (Signature m) \<le> 0xFFFF"
    and b: "b = be 2 (unat (SignatureScheme m)) @ be 2 (length (Signature m)) @ Signature m"
    by (auto simp: CertificateVerify_marshalBody_def split: if_splits)
  then have "length (Signature m) mod 65536 = length (Signature m)" by simp
  then show "CertificateVerify_unmarshalBody b = Inr m"
    by (simp add: CertificateVerify_unmarshalBody_def b Let_def)
next
  fix b m
  assume a: "CertificateVerify_unmarshalBody b = Inr m"
  let ?l = "unbe (take 2 (drop 2 b))"
  from a have len: "4 \<le> length b" and l: "4 + ?l = length b"
    and m: "m = \<lparr>SignatureScheme = of_nat (unbe (take 2 b)), Signature = drop 4 b\<rparr>"
    by (auto simp: CertificateVerify_unmarshalBody_def Let_def split: if_splits)
  have "?l \<le> 0xFFFF" using unbe_lt [of "take 2 (drop 2 b)"] len by simp
  moreover have "length (drop 4 b) = ?l" using l by simp
  ultimately have "CertificateVerify_marshalBody m
      = Inr (be 2 (unat (of_nat (unbe (take 2 b)) :: u16)) @ be 2 ?l @ drop 4 b)"
    by (simp only: CertificateVerify_marshalBody_def m CertificateVerifyMsg.select_convs) simp
  also have "\<dots> = Inr b"
  proof -
    have "be 2 (unat (of_nat (unbe (take 2 b)) :: u16)) = take 2 b"
      using len u16_of_be [of "take 2 b"] by simp
    moreover have "be 2 ?l = take 2 (drop 2 b)" using len by (intro be2_take) simp
    moreover have "take 2 b @ take 2 (drop 2 b) @ drop 4 b = b" using split_2_2 [of b 0] by simp
    ultimately show ?thesis by simp
  qed
  finally show "True \<and> CertificateVerify_marshalBody m = Inr b" by simp
qed

record FinishedMsg =
  VerifyData :: bytes

definition Finished_marshalBody :: "FinishedMsg \<Rightarrow> msg_error + bytes" where
  "Finished_marshalBody m =
    (if length (VerifyData m) \<noteq> 32 then Inl MsgVerifyDataLen else Inr (VerifyData m))"

definition Finished_unmarshalBody :: "bytes \<Rightarrow> msg_error + FinishedMsg" where
  "Finished_unmarshalBody b =
    (if length b \<noteq> 32 then Inl MsgVerifyDataLen else Inr \<lparr>VerifyData = b\<rparr>)"

interpretation finished: handshake_message HandshakeTypeFinished "\<lambda>_. True"
  Finished_marshalBody Finished_unmarshalBody
  by unfold_locales (auto simp: Finished_marshalBody_def Finished_unmarshalBody_def split: if_splits)

section \<open>EncryptedExtensions\<close>

record EncryptedExtensionsMsg =
  ee_Extensions :: "Extension list"

definition EncryptedExtensions_marshalBody :: "EncryptedExtensionsMsg \<Rightarrow> msg_error + bytes" where
  "EncryptedExtensions_marshalBody m = mapE MsgExt (marshalExtensions (ee_Extensions m))"

text \<open>
  The tail shared by the message parsers: an extension vector that ends the body.
\<close>

definition lastExtensions :: "bytes \<Rightarrow> msg_error + Extension list" where
  "lastExtensions b =
    bindE (mapE MsgExt (parseExtensions b)) (\<lambda>(exts, n).
    if n \<noteq> length b then Inl MsgTrailing else Inr exts)"

lemma lastExtensions_iff: "lastExtensions b = Inr exts \<longleftrightarrow> marshalExtensions exts = Inr b"
  using extensions.enc_dec [of b exts "length b"] extensions.dec_enc_exact [of exts b]
  by (auto simp: lastExtensions_def bindE_Inr_iff split: if_splits)

definition EncryptedExtensions_unmarshalBody :: "bytes \<Rightarrow> msg_error + EncryptedExtensionsMsg" where
  "EncryptedExtensions_unmarshalBody b =
    bindE (lastExtensions b) (\<lambda>exts. Inr \<lparr>ee_Extensions = exts\<rparr>)"

interpretation encryptedExtensions: handshake_message HandshakeTypeEncryptedExtensions "\<lambda>_. True"
  EncryptedExtensions_marshalBody EncryptedExtensions_unmarshalBody
  by unfold_locales (auto simp: EncryptedExtensions_marshalBody_def EncryptedExtensions_unmarshalBody_def
      bindE_Inr_iff lastExtensions_iff)

section \<open>NewSessionTicket\<close>

record NewSessionTicketMsg =
  TicketLifetime :: u32
  TicketAgeAdd :: u32
  nst_TicketNonce :: bytes
  Ticket :: bytes
  nst_Extensions :: "Extension list"

definition NewSessionTicket_marshalBody :: "NewSessionTicketMsg \<Rightarrow> msg_error + bytes" where
  "NewSessionTicket_marshalBody m =
    (if length (nst_TicketNonce m) > 0xFF then Inl (MsgNst NstNonceTooLong)
     else if length (Ticket m) = 0 then Inl (MsgNst NstTicketEmpty)
     else if length (Ticket m) > 0xFFFF then Inl (MsgNst NstTicketTooLong)
     else
       bindE (mapE MsgExt (marshalExtensions (nst_Extensions m))) (\<lambda>exts.
       Inr (be 4 (unat (TicketLifetime m)) @ be 4 (unat (TicketAgeAdd m))
            @ be 1 (length (nst_TicketNonce m)) @ nst_TicketNonce m
            @ be 2 (length (Ticket m)) @ Ticket m @ exts)))"

definition NewSessionTicket_unmarshalBody :: "bytes \<Rightarrow> msg_error + NewSessionTicketMsg" where
  "NewSessionTicket_unmarshalBody b =
    bindE (need (MsgNst NstTruncated) (takeN 8 b)) (\<lambda>(h, b).
    bindE (need (MsgNst NstNonceTruncated) (takeN 1 b)) (\<lambda>(nl, b).
    bindE (need (MsgNst NstNonceRange) (takeN (unbe nl) b)) (\<lambda>(nonce, b).
    bindE (need (MsgNst NstTicketTruncated) (takeN 2 b)) (\<lambda>(tl, b).
    if unbe tl = 0 then Inl (MsgNst NstTicketRange)
    else
      bindE (need (MsgNst NstTicketRange) (takeN (unbe tl) b)) (\<lambda>(ticket, b).
      bindE (lastExtensions b) (\<lambda>exts.
      Inr \<lparr>TicketLifetime = of_nat (unbe (take 4 h)), TicketAgeAdd = of_nat (unbe (drop 4 h)),
           nst_TicketNonce = nonce, Ticket = ticket, nst_Extensions = exts\<rparr>))))))"

lemma u32_of_be: "length h = 4 \<Longrightarrow> be 4 (unat (of_nat (unbe h) :: u32)) = h"
proof -
  assume h: "length h = 4"
  then have "unbe h < 256 ^ 4" using unbe_lt [of h] by simp
  then have "unat (of_nat (unbe h) :: u32) = unbe h" by (simp add: unat_of_nat)
  then show ?thesis using be_unbe_len [OF h] by simp
qed

lemma unbe_le: "length h = k \<Longrightarrow> unbe h \<le> 256 ^ k - 1"
  using unbe_lt [of h] by (simp add: Suc_leI le_diff_conv2)

interpretation newSessionTicket: handshake_message HandshakeTypeNewSessionTicket "\<lambda>_. True"
  NewSessionTicket_marshalBody NewSessionTicket_unmarshalBody
proof
  fix m b
  assume "NewSessionTicket_marshalBody m = Inr b"
  then obtain exts where len: "length (nst_TicketNonce m) mod 256 = length (nst_TicketNonce m)"
    "length (Ticket m) mod 65536 = length (Ticket m)" "Ticket m \<noteq> []"
    and exts: "marshalExtensions (nst_Extensions m) = Inr exts"
    and b: "b = be 4 (unat (TicketLifetime m)) @ be 4 (unat (TicketAgeAdd m))
            @ be 1 (length (nst_TicketNonce m)) @ nst_TicketNonce m
            @ be 2 (length (Ticket m)) @ Ticket m @ exts"
    by (auto simp: NewSessionTicket_marshalBody_def bindE_Inr_iff split: if_splits)
  have h: "takeN 8 b = Some (be 4 (unat (TicketLifetime m)) @ be 4 (unat (TicketAgeAdd m)),
      be 1 (length (nst_TicketNonce m)) @ nst_TicketNonce m
            @ be 2 (length (Ticket m)) @ Ticket m @ exts)"
    by (simp add: b takeN_Some_iff)
  show "NewSessionTicket_unmarshalBody b = Inr m"
    using len exts by (simp add: NewSessionTicket_unmarshalBody_def h lastExtensions_iff [THEN iffD2]
        unat_of_nat_byte)
next
  fix b m
  assume "NewSessionTicket_unmarshalBody b = Inr m"
  then obtain h nl nonce tl ticket e exts where
    b: "b = h @ nl @ nonce @ tl @ ticket @ e"
    and len: "length h = 8" "length nl = 1" "length nonce = unbe nl" "length tl = 2"
      "length ticket = unbe tl" "unbe tl \<noteq> 0"
    and exts: "marshalExtensions exts = Inr e"
    and m: "m = \<lparr>TicketLifetime = of_nat (unbe (take 4 h)), TicketAgeAdd = of_nat (unbe (drop 4 h)),
           nst_TicketNonce = nonce, Ticket = ticket, nst_Extensions = exts\<rparr>"
    by (auto simp: NewSessionTicket_unmarshalBody_def bindE_Inr_iff takeN_Some_iff lastExtensions_iff
        split: if_splits)
  have h: "be 4 (unat (of_nat (unbe (take 4 h)) :: u32)) @ be 4 (unat (of_nat (unbe (drop 4 h)) :: u32)) = h"
    using len(1) u32_of_be [of "take 4 h"] u32_of_be [of "drop 4 h"] by simp
  have bnd: "unbe nl \<le> 255" "unbe tl \<le> 65535" using unbe_le [OF len(2)] unbe_le [OF len(4)] by simp_all
  have "NewSessionTicket_marshalBody m
      = Inr ((be 4 (unat (of_nat (unbe (take 4 h)) :: u32)) @ be 4 (unat (of_nat (unbe (drop 4 h)) :: u32)))
          @ be 1 (unbe nl) @ nonce @ be 2 (unbe tl) @ ticket @ e)"
    using bnd len exts by (simp only: NewSessionTicket_marshalBody_def m NewSessionTicketMsg.select_convs) auto
  also have "\<dots> = Inr b"
    unfolding h b be_unbe_len [OF len(2)] be_unbe_len [OF len(4)] ..
  finally show "True \<and> NewSessionTicket_marshalBody m = Inr b" by simp
qed

definition ParseNewSessionTicketBody :: "bytes \<Rightarrow> msg_error + (bytes \<times> u32)" where
  "ParseNewSessionTicketBody b =
    bindE (NewSessionTicket_unmarshalBody b) (\<lambda>m. Inr (Ticket m, TicketAgeAdd m))"

section \<open>ClientHello and ServerHello\<close>

record ClientHelloMsg =
  ch_LegacyVersion :: u16
  ch_Random :: bytes
  ch_LegacySessionID :: bytes
  CipherSuites :: "u16 list"
  ch_Extensions :: "Extension list"

record ServerHelloMsg =
  sh_LegacyVersion :: u16
  sh_Random :: bytes
  sh_LegacySessionID :: bytes
  CipherSuite :: u16
  sh_Extensions :: "Extension list"

definition marshalU16s :: "u16 list \<Rightarrow> bytes" where
  "marshalU16s cs = concat (map (\<lambda>c. be 2 (unat c)) cs)"

fun parseU16s :: "bytes \<Rightarrow> u16 list" where
  "parseU16s (a # b # r) = of_nat (unbe [a, b]) # parseU16s r"
| "parseU16s _ = []"

text \<open>The cipher suite list length is written into two bytes without a check.\<close>

definition ClientHello_marshalBody :: "ClientHelloMsg \<Rightarrow> msg_error + bytes" where
  "ClientHello_marshalBody m =
    (if length (ch_LegacySessionID m) > 32 then Inl (MsgHello HelloSessionIDTooLong)
     else
       bindE (mapE MsgExt (marshalExtensions (ch_Extensions m))) (\<lambda>exts.
       Inr (be 2 (unat (ch_LegacyVersion m)) @ ch_Random m
            @ be 1 (length (ch_LegacySessionID m)) @ ch_LegacySessionID m
            @ be 2 (2 * length (CipherSuites m)) @ marshalU16s (CipherSuites m)
            @ [0x01, 0x00] @ exts)))"

definition legacy_version_ok :: "u16 \<Rightarrow> bool" where
  "legacy_version_ok v \<longleftrightarrow> \<not> (v < 0x0301 \<or> v > 0x0304)"

definition ClientHello_unmarshalBody :: "bytes \<Rightarrow> msg_error + ClientHelloMsg" where
  "ClientHello_unmarshalBody b =
    bindE (need (MsgHello HelloTruncated) (takeN (2 + 32) b)) (\<lambda>(h, b).
    let version = of_nat (unbe (take 2 h)) in
    if \<not> legacy_version_ok version then Inl (MsgHello HelloLegacyVersion)
    else
      bindE (need (MsgHello HelloSessionIDTruncated) (takeN 1 b)) (\<lambda>(sl, b).
      if unbe sl > 32 then Inl (MsgHello HelloSessionIDRange)
      else
        bindE (need (MsgHello HelloSessionIDRange) (takeN (unbe sl) b)) (\<lambda>(sid, b).
        bindE (need (MsgHello HelloSuitesTruncated) (takeN 2 b)) (\<lambda>(cl, b).
        if unbe cl = 0 then Inl (MsgHello HelloSuitesEmpty)
        else if unbe cl mod 2 \<noteq> 0 then Inl (MsgHello HelloSuitesRange)
        else
          bindE (need (MsgHello HelloSuitesRange) (takeN (unbe cl) b)) (\<lambda>(cs, b).
          bindE (need (MsgHello HelloCompressionTruncated) (takeN 1 b)) (\<lambda>(ml, b).
          if unbe ml < 1 then Inl (MsgHello HelloCompressionRange)
          else
            bindE (need (MsgHello HelloCompressionRange) (takeN (unbe ml) b)) (\<lambda>(cm, b).
            if unbe ml \<noteq> 1 \<or> cm ! 0 \<noteq> 0x00 then Inl (MsgHello HelloCompression)
            else
              bindE (lastExtensions b) (\<lambda>exts.
              Inr \<lparr>ch_LegacyVersion = version, ch_Random = drop 2 h, ch_LegacySessionID = sid,
                   CipherSuites = parseU16s cs, ch_Extensions = exts\<rparr>))))))))"

definition ServerHello_marshalBody :: "ServerHelloMsg \<Rightarrow> msg_error + bytes" where
  "ServerHello_marshalBody m =
    (if length (sh_LegacySessionID m) > 32 then Inl (MsgHello HelloSessionIDTooLong)
     else
       bindE (mapE MsgExt (marshalExtensions (sh_Extensions m))) (\<lambda>exts.
       Inr (be 2 (unat (sh_LegacyVersion m)) @ sh_Random m
            @ be 1 (length (sh_LegacySessionID m)) @ sh_LegacySessionID m
            @ be 2 (unat (CipherSuite m)) @ [0x00] @ exts)))"

definition ServerHello_unmarshalBody :: "bytes \<Rightarrow> msg_error + ServerHelloMsg" where
  "ServerHello_unmarshalBody b =
    bindE (need (MsgHello HelloTruncated) (takeN (2 + 32) b)) (\<lambda>(h, b).
    let version = of_nat (unbe (take 2 h)) in
    if \<not> legacy_version_ok version then Inl (MsgHello HelloLegacyVersion)
    else
      bindE (need (MsgHello HelloSessionIDTruncated) (takeN 1 b)) (\<lambda>(sl, b).
      if unbe sl > 32 then Inl (MsgHello HelloSessionIDRange)
      else
        bindE (need (MsgHello HelloSessionIDRange) (takeN (unbe sl) b)) (\<lambda>(sid, b).
        bindE (need (MsgHello HelloSuitesTruncated) (takeN (2 + 1) b)) (\<lambda>(s, b).
        if s ! 2 \<noteq> 0x00 then Inl (MsgHello HelloCompression)
        else
          bindE (lastExtensions b) (\<lambda>exts.
          Inr \<lparr>sh_LegacyVersion = version, sh_Random = drop 2 h, sh_LegacySessionID = sid,
               CipherSuite = of_nat (unbe (take 2 s)), sh_Extensions = exts\<rparr>)))))"

text \<open>
  The messages the parsers return: the random has its fixed size, the version is in the
  accepted range, and a ClientHello offers between 1 and 32767 suites.
\<close>

definition ClientHello_wf :: "ClientHelloMsg \<Rightarrow> bool" where
  "ClientHello_wf m \<longleftrightarrow> length (ch_Random m) = 32 \<and> legacy_version_ok (ch_LegacyVersion m)
     \<and> 1 \<le> length (CipherSuites m) \<and> length (CipherSuites m) \<le> 32767"

definition ServerHello_wf :: "ServerHelloMsg \<Rightarrow> bool" where
  "ServerHello_wf m \<longleftrightarrow> length (sh_Random m) = 32 \<and> legacy_version_ok (sh_LegacyVersion m)"

lemma length_marshalU16s [simp]: "length (marshalU16s cs) = 2 * length cs"
  by (induction cs) (simp_all add: marshalU16s_def)

lemma be2_cons: "be 2 n = [of_nat (n div 256), of_nat n]"
  by (rule be_numeral)

lemma parse_marshalU16s: "parseU16s (marshalU16s cs) = cs"
proof (induction cs)
  case (Cons c cs)
  have "unbe [of_nat (unat c div 256), of_nat (unat c)] = unat c"
    using unbe_be [of 2 "unat c"] by (simp only: be2_cons) simp
  then have "of_nat (unbe [of_nat (unat c div 256), of_nat (unat c)]) = c" by simp
  then show ?case using Cons by (simp add: marshalU16s_def be2_cons del: unbe_two)
qed (simp add: marshalU16s_def)

lemma marshal_parseU16s: "even (length b) \<Longrightarrow> marshalU16s (parseU16s b) = b \<and> 2 * length (parseU16s b) = length b"
proof (induction b rule: parseU16s.induct)
  case (1 x y r)
  then have "marshalU16s (parseU16s r) = r" "2 * length (parseU16s r) = length r" by simp_all
  moreover have "be 2 (unat (of_nat (unbe [x, y]) :: u16)) = [x, y]" by (rule u16_of_be) simp
  ultimately show ?case by (simp add: marshalU16s_def del: unbe_two)
qed (simp_all add: marshalU16s_def)

interpretation serverHello: handshake_message HandshakeTypeServerHello ServerHello_wf
  ServerHello_marshalBody ServerHello_unmarshalBody
proof
  fix m b
  assume wf: "ServerHello_wf m" and "ServerHello_marshalBody m = Inr b"
  then obtain exts where len: "length (sh_LegacySessionID m) \<le> 32"
    and exts: "marshalExtensions (sh_Extensions m) = Inr exts"
    and b: "b = be 2 (unat (sh_LegacyVersion m)) @ sh_Random m
            @ be 1 (length (sh_LegacySessionID m)) @ sh_LegacySessionID m
            @ be 2 (unat (CipherSuite m)) @ [0x00] @ exts"
    by (auto simp: ServerHello_marshalBody_def bindE_Inr_iff split: if_splits)
  have h: "takeN 34 b = Some (be 2 (unat (sh_LegacyVersion m)) @ sh_Random m,
      be 1 (length (sh_LegacySessionID m)) @ sh_LegacySessionID m
            @ be 2 (unat (CipherSuite m)) @ [0x00] @ exts)"
    using wf by (simp add: b takeN_Some_iff ServerHello_wf_def)
  have s: "takeN 3 (be 2 (unat (CipherSuite m)) @ 0 # exts) = Some (be 2 (unat (CipherSuite m)) @ [0], exts)"
    by (simp add: takeN_Some_iff)
  have l: "length (sh_LegacySessionID m) mod 256 = length (sh_LegacySessionID m)" using len by simp
  show "ServerHello_unmarshalBody b = Inr m"
    using wf len l exts s
    by (simp add: ServerHello_unmarshalBody_def h Let_def lastExtensions_iff [THEN iffD2]
        unat_of_nat_byte ServerHello_wf_def nth_append)
next
  fix b m
  assume "ServerHello_unmarshalBody b = Inr m"
  then obtain h sl sid s e exts where
    b: "b = h @ sl @ sid @ s @ e"
    and len: "length h = 34" "length sl = 1" "length sid = unbe sl" "unbe sl \<le> 32" "length s = 3"
    and s2: "s ! 2 = 0" and v: "legacy_version_ok (of_nat (unbe (take 2 h)))"
    and exts: "marshalExtensions exts = Inr e"
    and m: "m = \<lparr>sh_LegacyVersion = of_nat (unbe (take 2 h)), sh_Random = drop 2 h, sh_LegacySessionID = sid,
               CipherSuite = of_nat (unbe (take 2 s)), sh_Extensions = exts\<rparr>"
    by (auto simp: ServerHello_unmarshalBody_def bindE_Inr_iff takeN_Some_iff lastExtensions_iff Let_def
        not_less split: if_splits)
  have hh: "be 2 (unat (of_nat (unbe (take 2 h)) :: u16)) @ drop 2 h = h"
    using len(1) u16_of_be [of "take 2 h"] by simp
  have ss: "be 2 (unat (of_nat (unbe (take 2 s)) :: u16)) @ [0] = s"
  proof -
    have "be 2 (unat (of_nat (unbe (take 2 s)) :: u16)) = take 2 s"
      using len(5) by (intro u16_of_be) simp
    moreover have "drop 2 s = [0]"
      using len(5) s2 Cons_nth_drop_Suc [of 2 s] by simp
    ultimately show ?thesis by (metis append_take_drop_id)
  qed
  have "ServerHello_marshalBody m
      = Inr ((be 2 (unat (of_nat (unbe (take 2 h)) :: u16)) @ drop 2 h) @ be 1 (unbe sl) @ sid
          @ (be 2 (unat (of_nat (unbe (take 2 s)) :: u16)) @ [0]) @ e)"
    using len exts by (simp only: ServerHello_marshalBody_def m ServerHelloMsg.select_convs) auto
  also have "\<dots> = Inr b" unfolding hh ss b be_unbe_len [OF len(2)] ..
  finally show "ServerHello_wf m \<and> ServerHello_marshalBody m = Inr b"
    using len v by (simp add: ServerHello_wf_def m)
qed

interpretation clientHello: handshake_message HandshakeTypeClientHello ClientHello_wf
  ClientHello_marshalBody ClientHello_unmarshalBody
proof
  fix m b
  assume wf: "ClientHello_wf m" and "ClientHello_marshalBody m = Inr b"
  then obtain exts where len: "length (ch_LegacySessionID m) \<le> 32"
    and exts: "marshalExtensions (ch_Extensions m) = Inr exts"
    and b: "b = be 2 (unat (ch_LegacyVersion m)) @ ch_Random m
            @ be 1 (length (ch_LegacySessionID m)) @ ch_LegacySessionID m
            @ be 2 (2 * length (CipherSuites m)) @ marshalU16s (CipherSuites m)
            @ [0x01, 0x00] @ exts"
    by (auto simp: ClientHello_marshalBody_def bindE_Inr_iff split: if_splits)
  have h: "takeN 34 b = Some (be 2 (unat (ch_LegacyVersion m)) @ ch_Random m,
      be 1 (length (ch_LegacySessionID m)) @ ch_LegacySessionID m
            @ be 2 (2 * length (CipherSuites m)) @ marshalU16s (CipherSuites m)
            @ [0x01, 0x00] @ exts)"
    using wf by (simp add: b takeN_Some_iff ClientHello_wf_def)
  have l: "length (ch_LegacySessionID m) mod 256 = length (ch_LegacySessionID m)"
    "2 * length (CipherSuites m) mod 65536 = 2 * length (CipherSuites m)" "CipherSuites m \<noteq> []"
    using len wf by (auto simp: ClientHello_wf_def)
  show "ClientHello_unmarshalBody b = Inr m"
    using wf len l exts
    by (simp add: ClientHello_unmarshalBody_def h Let_def lastExtensions_iff [THEN iffD2]
        unat_of_nat_byte ClientHello_wf_def parse_marshalU16s)
next
  fix b m
  assume "ClientHello_unmarshalBody b = Inr m"
  then obtain h sl sid cl cs ml cm e exts where
    b: "b = h @ sl @ sid @ cl @ cs @ ml @ cm @ e"
    and len: "length h = 34" "length sl = 1" "length sid = unbe sl" "unbe sl \<le> 32" "length cl = 2"
      "length cs = unbe cl" "unbe cl \<noteq> 0" "even (unbe cl)" "length ml = 1" "unbe ml = 1" "length cm = 1"
    and cm: "cm ! 0 = 0" and v: "legacy_version_ok (of_nat (unbe (take 2 h)))"
    and exts: "marshalExtensions exts = Inr e"
    and m: "m = \<lparr>ch_LegacyVersion = of_nat (unbe (take 2 h)), ch_Random = drop 2 h, ch_LegacySessionID = sid,
                   CipherSuites = parseU16s cs, ch_Extensions = exts\<rparr>"
    by (auto simp: ClientHello_unmarshalBody_def bindE_Inr_iff takeN_Some_iff lastExtensions_iff Let_def
        not_less even_iff_mod_2_eq_zero split: if_splits)
  have hh: "be 2 (unat (of_nat (unbe (take 2 h)) :: u16)) @ drop 2 h = h"
    using len(1) u16_of_be [of "take 2 h"] by simp
  have u: "marshalU16s (parseU16s cs) = cs" "2 * length (parseU16s cs) = unbe cl"
    using marshal_parseU16s [of cs] len by simp_all
  have mm: "ml = [1]" using be_unbe_len [OF len(9)] len(10) by simp
  have cc: "cm = [0]" using cm len(11) by (cases cm) auto
  have "ClientHello_marshalBody m
      = Inr ((be 2 (unat (of_nat (unbe (take 2 h)) :: u16)) @ drop 2 h) @ be 1 (unbe sl) @ sid
          @ be 2 (unbe cl) @ cs @ ml @ cm @ e)"
    using len exts u mm cc
    by (simp only: ClientHello_marshalBody_def m ClientHelloMsg.select_convs) auto
  also have "\<dots> = Inr b" unfolding hh b be_unbe_len [OF len(2)] be_unbe_len [OF len(5)] ..
  finally have eq: "ClientHello_marshalBody m = Inr b" .
  have "unbe cl \<le> 65535" using unbe_le [OF len(5)] by simp
  then have "1 \<le> length (parseU16s cs)" "length (parseU16s cs) \<le> 32767" using u(2) len(7) by linarith+
  then show "ClientHello_wf m \<and> ClientHello_marshalBody m = Inr b"
    using eq len v by (simp add: ClientHello_wf_def m)
qed

section \<open>Certificate\<close>

record CertificateEntry =
  Certificate :: bytes
  ce_Extensions :: "Extension list"

record CertificateMsg =
  CertificateRequestContext :: bytes
  CertificateList :: "CertificateEntry list"

primrec marshalCertificateList :: "CertificateEntry list \<Rightarrow> msg_error + bytes" where
  "marshalCertificateList [] = Inr []"
| "marshalCertificateList (e # es) =
    (if length (Certificate e) = 0 \<or> length (Certificate e) > MaxHandshakeMessageLen
     then Inl (MsgCert CertDataLen)
     else
       bindE (mapE MsgExt (marshalExtensions (ce_Extensions e))) (\<lambda>exts.
       bindE (marshalCertificateList es) (\<lambda>list.
       Inr (be 3 (length (Certificate e)) @ Certificate e @ exts @ list))))"

definition Certificate_marshalBody :: "CertificateMsg \<Rightarrow> msg_error + bytes" where
  "Certificate_marshalBody m =
    (if length (CertificateRequestContext m) > 255 then Inl (MsgCert CertContextTooLong)
     else
       bindE (marshalCertificateList (CertificateList m)) (\<lambda>list.
       if length list > MaxHandshakeMessageLen then Inl (MsgCert CertListTooLong)
       else
         Inr (be 1 (length (CertificateRequestContext m)) @ CertificateRequestContext m
              @ be 3 (length list) @ list)))"

function parseCertificateList :: "bytes \<Rightarrow> msg_error + CertificateEntry list" where
  "parseCertificateList q =
    (if q = [] then Inr []
     else
       bindE (need (MsgCert CertEntryTruncated) (takeN 3 q)) (\<lambda>(l, q1).
       bindE (if unbe l = 0 then Inl (MsgCert CertEntryRange)
              else need (MsgCert CertEntryRange) (takeN (unbe l) q1)) (\<lambda>(cert, q2).
       bindE (mapE MsgExt (parseExtensions q2)) (\<lambda>(exts, n).
       bindE (parseCertificateList (drop n q2)) (\<lambda>es.
       Inr (\<lparr>Certificate = cert, ce_Extensions = exts\<rparr> # es))))))"
  by auto
termination
  by (relation "measure length")
     (auto simp: takeN_Some_iff split: if_splits)

declare parseCertificateList.simps [simp del]

definition Certificate_unmarshalBody :: "bytes \<Rightarrow> msg_error + CertificateMsg" where
  "Certificate_unmarshalBody b =
    bindE (need (MsgCert CertContextTruncated) (takeN 1 b)) (\<lambda>(cl, b).
    bindE (need (MsgCert CertContextRange) (takeN (unbe cl) b)) (\<lambda>(context, b).
    bindE (need (MsgCert CertListTruncated) (takeN 3 b)) (\<lambda>(ll, b).
    bindE (need (MsgCert CertListRange) (takeN (unbe ll) b)) (\<lambda>(list, b).
    bindE (parseCertificateList list) (\<lambda>entries.
    if b \<noteq> [] then Inl MsgTrailing
    else Inr \<lparr>CertificateRequestContext = context, CertificateList = entries\<rparr>)))))"

lemma parseCertificateList_step:
  "q \<noteq> [] \<Longrightarrow> parseCertificateList q =
     bindE (need (MsgCert CertEntryTruncated) (takeN 3 q)) (\<lambda>(l, q1).
     bindE (if unbe l = 0 then Inl (MsgCert CertEntryRange)
            else need (MsgCert CertEntryRange) (takeN (unbe l) q1)) (\<lambda>(cert, q2).
     bindE (mapE MsgExt (parseExtensions q2)) (\<lambda>(exts, n).
     bindE (parseCertificateList (drop n q2)) (\<lambda>es.
     Inr (\<lparr>Certificate = cert, ce_Extensions = exts\<rparr> # es)))))"
  by (subst parseCertificateList.simps) simp

lemma parse_marshal_certs:
  "marshalCertificateList es = Inr b \<Longrightarrow> parseCertificateList b = Inr es"
proof (induction es arbitrary: b)
  case Nil
  then show ?case by (simp add: parseCertificateList.simps)
next
  case (Cons e es)
  then obtain x r where x: "marshalExtensions (ce_Extensions e) = Inr x"
    and r: "marshalCertificateList es = Inr r"
    and len: "Certificate e \<noteq> []" "length (Certificate e) mod 16777216 = length (Certificate e)"
    and b: "b = be 3 (length (Certificate e)) @ Certificate e @ x @ r"
    by (auto simp: bindE_Inr_iff MaxHandshakeMessageLen_def split: if_splits)
  show ?case
    using len Cons.IH [OF r] parse_marshal_exts [OF x, of r]
    by (subst parseCertificateList.simps) (simp add: b)
qed

lemma marshal_parse_certs:
  "parseCertificateList b = Inr es \<Longrightarrow> marshalCertificateList es = Inr b"
proof (induction b arbitrary: es rule: length_induct)
  case (1 b)
  show ?case
  proof (cases "b = []")
    case True
    then show ?thesis using "1.prems" by (subst (asm) parseCertificateList.simps) simp
  next
    case False
    from "1.prems" [unfolded parseCertificateList_step [OF False]] obtain l cert q2 exts n es' where
      b: "b = l @ cert @ q2" and len: "length l = 3" "length cert = unbe l" "unbe l \<noteq> 0"
      and x: "parseExtensions q2 = Inr (exts, n)" and r: "parseCertificateList (drop n q2) = Inr es'"
      and es: "es = \<lparr>Certificate = cert, ce_Extensions = exts\<rparr> # es'"
      by (auto simp: bindE_Inr_iff takeN_Some_iff split: if_splits)
    have "length (drop n q2) < length b" using b len by simp
    then have IH: "marshalCertificateList es' = Inr (drop n q2)" using "1.IH" r by blast
    have m: "marshalExtensions exts = Inr (take n q2)" using marshal_parse_exts [OF x] by simp
    have "unbe l \<le> MaxHandshakeMessageLen" using unbe_le [OF len(1)] by (simp add: MaxHandshakeMessageLen_def)
    then have "marshalCertificateList es = Inr (be 3 (unbe l) @ cert @ take n q2 @ drop n q2)"
      using len m IH by (simp only: es marshalCertificateList.simps CertificateEntry.select_convs) auto
    then show ?thesis using be_unbe_len [OF len(1)] by (simp add: b)
  qed
qed

interpretation certificate: handshake_message HandshakeTypeCertificate "\<lambda>_. True"
  Certificate_marshalBody Certificate_unmarshalBody
proof
  fix m b
  assume "Certificate_marshalBody m = Inr b"
  then obtain list where list: "marshalCertificateList (CertificateList m) = Inr list"
    and len: "length (CertificateRequestContext m) mod 256 = length (CertificateRequestContext m)"
      "length list mod 16777216 = length list"
    and b: "b = be 1 (length (CertificateRequestContext m)) @ CertificateRequestContext m
              @ be 3 (length list) @ list"
    by (auto simp: Certificate_marshalBody_def bindE_Inr_iff MaxHandshakeMessageLen_def split: if_splits)
  show "Certificate_unmarshalBody b = Inr m"
    using len parse_marshal_certs [OF list]
    by (simp add: Certificate_unmarshalBody_def b unat_of_nat_byte)
next
  fix b m
  assume "Certificate_unmarshalBody b = Inr m"
  then obtain cl cx ll list es where
    b: "b = cl @ cx @ ll @ list"
    and len: "length cl = 1" "length cx = unbe cl" "length ll = 3" "length list = unbe ll"
    and es: "parseCertificateList list = Inr es"
    and m: "m = \<lparr>CertificateRequestContext = cx, CertificateList = es\<rparr>"
    by (auto simp: Certificate_unmarshalBody_def bindE_Inr_iff takeN_Some_iff split: if_splits)
  have bnd: "unbe cl \<le> 255" "unbe ll \<le> MaxHandshakeMessageLen"
    using unbe_le [OF len(1)] unbe_le [OF len(3)] by (simp_all add: MaxHandshakeMessageLen_def)
  have "Certificate_marshalBody m = Inr (be 1 (unbe cl) @ cx @ be 3 (unbe ll) @ list)"
    using bnd len marshal_parse_certs [OF es]
    by (simp only: Certificate_marshalBody_def m CertificateMsg.select_convs) auto
  then show "True \<and> Certificate_marshalBody m = Inr b"
    unfolding b be_unbe_len [OF len(1)] be_unbe_len [OF len(3)] by simp
qed

section \<open>Codec properties\<close>

text \<open>
  C21. Every handshake message codec is exact: a body parses to a message if and only if
  it is the body that marshalling the message produces, and, for the two hello
  messages, the message is one a peer may send. So marshalled messages are read back
  unchanged, and no second encoding of a message is accepted, in particular no
  trailing bytes and no padded lengths.
\<close>

theorem message_codecs_exact:
  "(ClientHello_unmarshalBody b = Inr ch \<longleftrightarrow> ClientHello_wf ch \<and> ClientHello_marshalBody ch = Inr b)
   \<and> (ServerHello_unmarshalBody b = Inr sh \<longleftrightarrow> ServerHello_wf sh \<and> ServerHello_marshalBody sh = Inr b)
   \<and> (EncryptedExtensions_unmarshalBody b = Inr ee \<longleftrightarrow> EncryptedExtensions_marshalBody ee = Inr b)
   \<and> (Certificate_unmarshalBody b = Inr ce \<longleftrightarrow> Certificate_marshalBody ce = Inr b)
   \<and> (CertificateVerify_unmarshalBody b = Inr cv \<longleftrightarrow> CertificateVerify_marshalBody cv = Inr b)
   \<and> (Finished_unmarshalBody b = Inr fin \<longleftrightarrow> Finished_marshalBody fin = Inr b)
   \<and> (NewSessionTicket_unmarshalBody b = Inr nst \<longleftrightarrow> NewSessionTicket_marshalBody nst = Inr b)"
  using clientHello.unmarshal_iff serverHello.unmarshal_iff encryptedExtensions.unmarshal_iff
    certificate.unmarshal_iff certificateVerify.unmarshal_iff finished.unmarshal_iff
    newSessionTicket.unmarshal_iff
  by simp

text \<open>
  C35. The handshake header is a canonical self-delimiting frame: the reader returns a
  type and a body exactly when the buffer starts with the framed message, and reports
  the bytes it consumed, so messages concatenated in a CRYPTO stream are split at the
  boundaries the writer chose.
\<close>

theorem ReadHandshakeMessage_accepts_iff:
  "ReadHandshakeMessage b = Inr ((ty, body), n) \<longleftrightarrow>
     (\<exists>e r. MarshalHandshakeMessage ty (Inr body) = Inr e \<and> b = e @ r \<and> n = length e)"
  using frame.dec_accepts_iff [of b "(ty, body)" n] by simp

end
