(* ===== verification/Transcript.thy ===== *)
theory Transcript
  imports Messages KeySchedule
begin

text \<open>
  The protocol constants (\<open>src/tls13gm/protocol.go\<close>, \<open>constants.go\<close>), the handshake
  transcript (\<open>transcript.go\<close>) and the pre-shared-key binder over a truncated ClientHello
  (\<open>message_psk.go\<close>).
\<close>

section \<open>Protocol constants\<close>

definition VersionTLS13 :: u16 where "VersionTLS13 = 0x0304"
definition VersionTLS12 :: u16 where "VersionTLS12 = 0x0303"
definition TLS_SM4_GCM_SM3 :: u16 where "TLS_SM4_GCM_SM3 = 0x00C6"
definition SM2SigSM3 :: u16 where "SM2SigSM3 = 0x0708"
definition ExtensionTypeSupportedGroups :: u16 where "ExtensionTypeSupportedGroups = 10"
definition ExtensionTypeSignatureAlgorithms :: u16 where "ExtensionTypeSignatureAlgorithms = 13"
definition ExtensionTypeALPN :: u16 where "ExtensionTypeALPN = 16"
definition ExtensionTypeKeyShare :: u16 where "ExtensionTypeKeyShare = 51"
definition ExtensionTypePreSharedKey :: u16 where "ExtensionTypePreSharedKey = 41"
definition ExtensionTypeEarlyData :: u16 where "ExtensionTypeEarlyData = 42"
definition ExtensionTypeSupportedVersions :: u16 where "ExtensionTypeSupportedVersions = 43"
definition ExtensionTypeCookie :: u16 where "ExtensionTypeCookie = 44"
definition ExtensionTypePSKKeyExchangeModes :: u16 where "ExtensionTypePSKKeyExchangeModes = 45"
definition ExtensionTypeQUICTransportParams :: u16 where "ExtensionTypeQUICTransportParams = 57"
definition PSKKeyExchangeModeDHEKE :: byte where "PSKKeyExchangeModeDHEKE = 1"

lemmas extension_types =
  ExtensionTypeSupportedGroups_def ExtensionTypeSignatureAlgorithms_def ExtensionTypeALPN_def
  ExtensionTypeKeyShare_def ExtensionTypePreSharedKey_def ExtensionTypeEarlyData_def
  ExtensionTypeSupportedVersions_def ExtensionTypeCookie_def ExtensionTypePSKKeyExchangeModes_def
  ExtensionTypeQUICTransportParams_def

definition helloRetryRequestRandom :: bytes where
  "helloRetryRequestRandom =
    [0xCF, 0x21, 0xAD, 0x74, 0xE5, 0x9A, 0x61, 0x11,
     0xBE, 0x1D, 0x8C, 0x02, 0x1E, 0x65, 0xB8, 0xB9,
     0xEA, 0x86, 0x85, 0x8F, 0x27, 0x64, 0xA8, 0xAD,
     0x90, 0xC2, 0xAB, 0x3D, 0xCC, 0xE1, 0x0E, 0x33]"

section \<open>Transcript\<close>

text \<open>\<open>hashed\<close> is what has been written to the running SM3 digest.\<close>

record Transcript =
  buf :: bytes
  hashed :: bytes

definition NewTranscript :: Transcript where
  "NewTranscript = \<lparr>buf = [], hashed = []\<rparr>"

definition AddMessage :: "Transcript \<Rightarrow> byte \<Rightarrow> bytes \<Rightarrow> Transcript" where
  "AddMessage t msgType body =
    (let hdr = [msgType] @ be 3 (length body) in
     t\<lparr>buf := buf t @ hdr @ body, hashed := hashed t @ hdr @ body\<rparr>)"

definition Transcript_Bytes :: "Transcript \<Rightarrow> bytes" where
  "Transcript_Bytes t = buf t"

definition Transcript_Sum :: "'x gm_sym_scheme \<Rightarrow> Transcript \<Rightarrow> bytes" where
  "Transcript_Sum g t = sm3_Sum g (hashed t)"

definition ResetForHelloRetry :: "'x gm_sym_scheme \<Rightarrow> Transcript \<Rightarrow> bytes \<Rightarrow> bytes \<Rightarrow> Transcript" where
  "ResetForHelloRetry g t clientHello1 hrr =
    (let hash1 = sm3_Sum g clientHello1;
         t = t\<lparr>buf := [], hashed := []\<rparr>;
         t = AddMessage t HandshakeTypeMessageHash hash1
     in if length hrr \<ge> 4 then AddMessage t HandshakeTypeServerHello (drop 4 hrr) else t)"

text \<open>The running digest is the digest of the bytes.\<close>

definition transcript_ok :: "Transcript \<Rightarrow> bool" where
  "transcript_ok t \<longleftrightarrow> hashed t = buf t"

lemma transcript_ok_simps [simp]:
  "transcript_ok NewTranscript"
  "transcript_ok (AddMessage t ty b) = transcript_ok t"
  "transcript_ok (ResetForHelloRetry g t ch hrr)"
  by (simp_all add: transcript_ok_def NewTranscript_def AddMessage_def ResetForHelloRetry_def Let_def)

lemma Sum_of_Bytes: "transcript_ok t \<Longrightarrow> Transcript_Sum g t = sm3_Sum g (Transcript_Bytes t)"
  by (simp add: transcript_ok_def Transcript_Sum_def Transcript_Bytes_def)

lemma Bytes_AddMessage [simp]:
  "Transcript_Bytes (AddMessage t ty body) = Transcript_Bytes t @ ty # be 3 (length body) @ body"
  by (simp add: Transcript_Bytes_def AddMessage_def Let_def)

lemma length_Transcript_Sum [simp]: "sm3_ok g \<Longrightarrow> length (Transcript_Sum g t) = 32"
  by (simp add: Transcript_Sum_def)

text \<open>
  A message that was read or marshalled enters the transcript as the bytes of the wire.
\<close>

lemma AddMessage_read:
  assumes "ReadHandshakeMessage b = Inr ((ty, body), n)"
  shows "Transcript_Bytes (AddMessage t ty body) = Transcript_Bytes t @ take n b"
proof -
  from assms frame.dec_accepts_iff [of b "(ty, body)" n] obtain e r where
    "MarshalHandshakeMessage ty (Inr body) = Inr e" "b = e @ r" "n = length e"
    by auto
  then show ?thesis by (auto simp: MarshalHandshakeMessage_def bindE_Inr_iff split: if_splits)
qed

lemma AddMessage_marshal:
  assumes "MarshalHandshakeMessage ty m = Inr full"
  shows "Transcript_Bytes (AddMessage t ty (drop 4 full)) = Transcript_Bytes t @ full"
    and "m = Inr (drop 4 full)" and "full = ty # be 3 (length (drop 4 full)) @ drop 4 full"
  using assms by (auto simp: MarshalHandshakeMessage_def bindE_Inr_iff split: if_splits)

section \<open>Pre-shared-key binder\<close>

text \<open>The extensions of the ClientHello with a placeholder in the pre-shared-key extension.\<close>

definition placeholderExtensions :: "Extension list \<Rightarrow> bytes \<Rightarrow> Extension list" where
  "placeholderExtensions exts placeholder =
    (let psk = \<lparr>etype = ExtensionTypePreSharedKey, edata = placeholder\<rparr>;
         exts' = map (\<lambda>e. if etype e = ExtensionTypePreSharedKey then psk else e) exts
     in if list_ex (\<lambda>e. etype e = ExtensionTypePreSharedKey) exts then exts' else exts' @ [psk])"

definition pskBinderTranscript :: "ClientHelloMsg \<Rightarrow> PskIdentity list \<Rightarrow> msg_error + bytes" where
  "pskBinderTranscript ch identities =
    (if length identities \<noteq> 1 then Inl MsgPskIdentityCount
     else
       bindE (mapE MsgPsk (marshalPreSharedKeyExtension identities [replicate 32 0])) (\<lambda>placeholder.
       let tmp = ch\<lparr>ch_Extensions := placeholderExtensions (ch_Extensions ch) placeholder\<rparr> in
       bindE (MarshalHandshakeMessage HandshakeTypeClientHello (ClientHello_marshalBody tmp)) (\<lambda>full.
       let bindersField = 2 + 1 + 32 in
       if length full < bindersField then Inl MsgPskTooShort
       else Inr (take (length full - bindersField) full))))"

definition computeResumptionBinder :: "'x gm_sym_scheme \<Rightarrow> bytes \<Rightarrow> bytes \<Rightarrow> kdf_error + bytes" where
  "computeResumptionBinder g psk truncatedClientHello =
    bindE (DeriveEarlySecret g psk) (\<lambda>earlySecret.
    bindE (DeriveSecret g earlySecret LabelResumptionBinder (sm3_Sum g [])) (\<lambda>binderKey.
    bindE (HKDFExpandLabel g binderKey LabelFinished [] 32) (\<lambda>finishedKey.
    let chHash = sm3_Sum g truncatedClientHello in
    Inr (NewHMAC g finishedKey chHash))))"

section \<open>What the binder covers\<close>

lemma marshalExtensionBody_snoc:
  "marshalExtensionBody (xs @ [e]) = Inr b \<longleftrightarrow>
    (\<exists>a. marshalExtensionBody xs = Inr a \<and> length (edata e) \<le> 0xFFFF
       \<and> b = a @ be 2 (unat (etype e)) @ be 2 (length (edata e)) @ edata e)"
  by (induction xs arbitrary: b) (auto simp: bindE_Inr_iff not_less)

text \<open>Replacing the data of the last extension by data of the same length.\<close>

lemma ClientHello_last_extension:
  assumes "ClientHello_marshalBody (ch\<lparr>ch_Extensions := xs @ [\<lparr>etype = t, edata = p @ d\<rparr>]\<rparr>) = Inr b"
    and "length d' = length d"
  shows "\<exists>pre. b = pre @ p @ d \<and>
    ClientHello_marshalBody (ch\<lparr>ch_Extensions := xs @ [\<lparr>etype = t, edata = p @ d'\<rparr>]\<rparr>) = Inr (pre @ p @ d')"
proof -
  let ?e = "\<lambda>d. \<lparr>etype = t, edata = p @ d\<rparr>"
  from assms(1) obtain a where a: "marshalExtensionBody xs = Inr a" "length (p @ d) \<le> 0xFFFF"
    "length (a @ be 2 (unat t) @ be 2 (length (p @ d)) @ p @ d) \<le> 0xFFFF"
    by (auto simp: ClientHello_marshalBody_def marshalExtensions_def bindE_Inr_iff
        marshalExtensionBody_snoc not_less split: if_splits)
  have m: "marshalExtensionBody (xs @ [?e q]) = Inr (a @ be 2 (unat t) @ be 2 (length (p @ q)) @ p @ q)"
    if "length q = length d" for q
    using a that by (simp add: marshalExtensionBody_snoc)
  let ?ev = "a @ be 2 (unat t) @ be 2 (length (p @ d))"
  let ?pre = "be 2 (unat (ch_LegacyVersion ch)) @ ch_Random ch @ be 1 (length (ch_LegacySessionID ch))
    @ ch_LegacySessionID ch @ be 2 (2 * length (CipherSuites ch)) @ marshalU16s (CipherSuites ch)
    @ [0x01, 0x00] @ be 2 (length (?ev @ p @ d)) @ ?ev"
  have "ClientHello_marshalBody (ch\<lparr>ch_Extensions := xs @ [?e q]\<rparr>) = Inr (?pre @ p @ q)"
    if "length q = length d" for q
    using assms(1) m [OF that] a(3) that
    by (auto simp: ClientHello_marshalBody_def marshalExtensions_def split: if_splits)
  from this [of d] this [of d'] assms show ?thesis by (intro exI [of _ ?pre]) simp
qed

lemma Marshal_last_extension:
  assumes "MarshalHandshakeMessage ty
      (ClientHello_marshalBody (ch\<lparr>ch_Extensions := xs @ [\<lparr>etype = t, edata = p @ d\<rparr>]\<rparr>)) = Inr full"
    and "length d' = length d"
  shows "\<exists>pre. full = pre @ p @ d \<and> MarshalHandshakeMessage ty
      (ClientHello_marshalBody (ch\<lparr>ch_Extensions := xs @ [\<lparr>etype = t, edata = p @ d'\<rparr>]\<rparr>))
        = Inr (pre @ p @ d')"
proof -
  from assms(1) obtain b where b:
    "ClientHello_marshalBody (ch\<lparr>ch_Extensions := xs @ [\<lparr>etype = t, edata = p @ d\<rparr>]\<rparr>) = Inr b"
    "length b \<le> MaxHandshakeMessageLen" "full = ty # be 3 (length b) @ b"
    by (auto simp: MarshalHandshakeMessage_def bindE_Inr_iff split: if_splits)
  from ClientHello_last_extension [OF b(1) assms(2)] obtain pre where pre: "b = pre @ p @ d"
    "ClientHello_marshalBody (ch\<lparr>ch_Extensions := xs @ [\<lparr>etype = t, edata = p @ d'\<rparr>]\<rparr>) = Inr (pre @ p @ d')"
    by blast
  show ?thesis
    using b(2,3) pre assms(2)
    by (intro exI [of _ "ty # be 3 (length b) @ pre"]) (simp add: MarshalHandshakeMessage_def)
qed

text \<open>The extension data splits in the part up to the binders and the binders field.\<close>

definition pskPrefix :: "PskIdentity \<Rightarrow> bytes" where
  "pskPrefix i = be 2 (length (marshalIdentities [i])) @ marshalIdentities [i]"

definition binderField :: "bytes \<Rightarrow> bytes" where
  "binderField binder = be 2 33 @ [32] @ binder"

lemma marshalPreSharedKey_single:
  assumes "length binder = 32"
  shows "marshalPreSharedKeyExtension [i] [binder] = Inr d \<longleftrightarrow>
    length (Identity i) \<le> 0xFFFF \<and> d = pskPrefix i @ binderField binder"
  using assms
  by (auto simp: marshalPreSharedKeyExtension_def pskPrefix_def binderField_def bindE_Inr_iff not_less Let_def)

lemma length_binderField [simp]: "length (binderField b) = 3 + length b"
  by (simp add: binderField_def)

lemma placeholder_absent:
  assumes "\<not> hasExtension exts ExtensionTypePreSharedKey"
  shows "placeholderExtensions exts ph = exts @ [\<lparr>etype = ExtensionTypePreSharedKey, edata = ph\<rparr>]"
    and "placeholderExtensions (exts @ [\<lparr>etype = ExtensionTypePreSharedKey, edata = d\<rparr>]) ph
      = exts @ [\<lparr>etype = ExtensionTypePreSharedKey, edata = ph\<rparr>]"
  using assms
  by (auto simp: placeholderExtensions_def hasExtension_iff list_ex_iff Let_def intro!: map_idI)

lemma binder_transcript_prefix:
  assumes "\<not> hasExtension exts ExtensionTypePreSharedKey"
    and "marshalPreSharedKeyExtension [i] [binder] = Inr d" and "length binder = 32"
    and "MarshalHandshakeMessage HandshakeTypeClientHello (ClientHello_marshalBody
          (ch\<lparr>ch_Extensions := exts @ [\<lparr>etype = ExtensionTypePreSharedKey, edata = d\<rparr>]\<rparr>)) = Inr full"
  shows "\<exists>trunc. full = trunc @ binderField binder
    \<and> pskBinderTranscript (ch\<lparr>ch_Extensions := exts @ [\<lparr>etype = ExtensionTypePreSharedKey, edata = d\<rparr>]\<rparr>) [i] = Inr trunc
    \<and> pskBinderTranscript (ch\<lparr>ch_Extensions := exts\<rparr>) [i] = Inr trunc"
proof -
  let ?z = "replicate 32 (0 :: byte)"
  have d: "d = pskPrefix i @ binderField binder" "length (Identity i) \<le> 0xFFFF"
    using assms(2) marshalPreSharedKey_single [OF assms(3)] by auto
  then have z: "marshalPreSharedKeyExtension [i] [?z] = Inr (pskPrefix i @ binderField ?z)"
    using marshalPreSharedKey_single [of ?z i] by simp
  from Marshal_last_extension [OF assms(4) [unfolded d(1)], of "binderField ?z"] assms(3)
  obtain pre where pre: "full = pre @ pskPrefix i @ binderField binder"
    "MarshalHandshakeMessage HandshakeTypeClientHello (ClientHello_marshalBody
      (ch\<lparr>ch_Extensions := exts @ [\<lparr>etype = ExtensionTypePreSharedKey, edata = pskPrefix i @ binderField ?z\<rparr>]\<rparr>))
      = Inr (pre @ pskPrefix i @ binderField ?z)"
    by auto
  show ?thesis
    using z pre by (intro exI [of _ "pre @ pskPrefix i"])
      (simp add: pskBinderTranscript_def placeholder_absent [OF assms(1)] Let_def)
qed

lemma computeResumptionBinder_total:
  assumes "sm3_ok g"
  obtains b where "computeResumptionBinder g psk t = Inr b" "length b = 32"
proof -
  obtain es where es: "DeriveEarlySecret g psk = Inr es" using DeriveEarlySecret_Inr by blast
  obtain bk where bk: "DeriveSecret g es LabelResumptionBinder (sm3_Sum g []) = Inr bk"
    using DeriveSecret_total [OF assms, of LabelResumptionBinder "sm3_Sum g []" es] assms
    by (auto simp: all_labels_def)
  obtain fk where fk: "HKDFExpandLabel g bk LabelFinished [] 32 = Inr fk"
    using HKDFExpandLabel_total [OF assms, of LabelFinished "[]" 32 bk] by (auto simp: label_defs)
  show thesis
    using assms by (intro that [of "NewHMAC g fk (sm3_Sum g t)"])
      (simp_all add: computeResumptionBinder_def es bk fk Let_def)
qed

text \<open>
  C27. The binder authenticates the ClientHello that is on the wire. When the
  pre-shared-key extension is last and carries one identity and a 32-byte binder, the
  bytes the server hashes are exactly the sent message without its final binders field,
  and they are the bytes the client hashed before it knew the binder.
\<close>

theorem binder_covers_wire_prefix:
  assumes "\<not> hasExtension exts ExtensionTypePreSharedKey"
    and "marshalPreSharedKeyExtension [i] [binder] = Inr d" and "length binder = 32"
    and "MarshalHandshakeMessage HandshakeTypeClientHello (ClientHello_marshalBody
          (ch\<lparr>ch_Extensions := exts @ [\<lparr>etype = ExtensionTypePreSharedKey, edata = d\<rparr>]\<rparr>)) = Inr full"
  shows "pskBinderTranscript (ch\<lparr>ch_Extensions := exts @ [\<lparr>etype = ExtensionTypePreSharedKey, edata = d\<rparr>]\<rparr>) [i]
      = Inr (take (length full - 35) full)
    \<and> pskBinderTranscript (ch\<lparr>ch_Extensions := exts\<rparr>) [i] = Inr (take (length full - 35) full)
    \<and> drop (length full - 35) full = be 2 33 @ [32] @ binder"
  using binder_transcript_prefix [OF assms] assms(3) by (auto simp: binderField_def)

definition sample_hello :: "Extension list \<Rightarrow> ClientHelloMsg" where
  "sample_hello exts =
    \<lparr>ch_LegacyVersion = 0x0303, ch_Random = replicate 32 5, ch_LegacySessionID = [],
     CipherSuites = [0x00C6], ch_Extensions = exts\<rparr>"

theorem binder_covers_wire_prefix_witness:
  "\<exists>d full. marshalPreSharedKeyExtension [\<lparr>Identity = [9], ObfuscatedTicketAge = 3\<rparr>] [replicate 32 7] = Inr d
     \<and> MarshalHandshakeMessage HandshakeTypeClientHello (ClientHello_marshalBody
          (sample_hello [\<lparr>etype = ExtensionTypePreSharedKey, edata = d\<rparr>])) = Inr full
     \<and> pskBinderTranscript (sample_hello [\<lparr>etype = ExtensionTypePreSharedKey, edata = d\<rparr>])
          [\<lparr>Identity = [9], ObfuscatedTicketAge = 3\<rparr>] = Inr (take (length full - 35) full)"
proof -
  let ?i = "\<lparr>Identity = [9], ObfuscatedTicketAge = 3\<rparr>" and ?b = "replicate 32 (7 :: byte)"
  let ?d = "pskPrefix ?i @ binderField ?b"
  have d: "marshalPreSharedKeyExtension [?i] [?b] = Inr ?d"
    using marshalPreSharedKey_single [of ?b ?i ?d] by simp
  have "length ?d \<le> 100" by (simp add: pskPrefix_def)
  then have "is_ok (MarshalHandshakeMessage HandshakeTypeClientHello (ClientHello_marshalBody
      (sample_hello [\<lparr>etype = ExtensionTypePreSharedKey, edata = ?d\<rparr>])))"
    by (simp add: MarshalHandshakeMessage_def ClientHello_marshalBody_def marshalExtensions_def
        sample_hello_def MaxHandshakeMessageLen_def is_ok_def)
  then obtain full where full: "MarshalHandshakeMessage HandshakeTypeClientHello (ClientHello_marshalBody
      (sample_hello [\<lparr>etype = ExtensionTypePreSharedKey, edata = ?d\<rparr>])) = Inr full"
    by (auto simp: is_ok_iff)
  have "(sample_hello [])\<lparr>ch_Extensions := [] @ [\<lparr>etype = ExtensionTypePreSharedKey, edata = ?d\<rparr>]\<rparr>
      = sample_hello [\<lparr>etype = ExtensionTypePreSharedKey, edata = ?d\<rparr>]"
    by (simp add: sample_hello_def)
  with binder_covers_wire_prefix [of "[]" ?i ?b ?d "sample_hello []" full] d full show ?thesis
    by auto
qed

text \<open>
  C28. The truncation counts bytes from the end of the message and no code checks that
  the pre-shared-key extension is last. When another extension follows it, the last 35
  bytes of that extension's data are not covered by the binder: a ClientHello with other
  bytes there has the same binder transcript.
\<close>

theorem binder_skips_trailing_extension:
  assumes "t \<noteq> ExtensionTypePreSharedKey" and "length d = 35" and "length d' = 35"
    and "hasExtension exts ExtensionTypePreSharedKey"
    and "pskBinderTranscript (ch\<lparr>ch_Extensions := exts @ [\<lparr>etype = t, edata = p @ d\<rparr>]\<rparr>) [i] = Inr trunc"
  shows "pskBinderTranscript (ch\<lparr>ch_Extensions := exts @ [\<lparr>etype = t, edata = p @ d'\<rparr>]\<rparr>) [i] = Inr trunc"
proof -
  from assms(5) obtain ph where ph: "marshalPreSharedKeyExtension [i] [replicate 32 0] = Inr ph"
    by (auto simp: pskBinderTranscript_def bindE_Inr_iff)
  have pl: "placeholderExtensions (exts @ [\<lparr>etype = t, edata = p @ q\<rparr>]) ph
      = placeholderExtensions exts ph @ [\<lparr>etype = t, edata = p @ q\<rparr>]" for q
    using assms(1,4) by (auto simp: placeholderExtensions_def hasExtension_iff list_ex_iff Let_def)
  from assms(5) obtain full where full: "MarshalHandshakeMessage HandshakeTypeClientHello
      (ClientHello_marshalBody (ch\<lparr>ch_Extensions := placeholderExtensions exts ph @ [\<lparr>etype = t, edata = p @ d\<rparr>]\<rparr>))
        = Inr full" "trunc = take (length full - 35) full"
    by (auto simp: pskBinderTranscript_def bindE_Inr_iff ph pl Let_def split: if_splits)
  from Marshal_last_extension [OF full(1), of d'] assms(2,3) obtain pre where
    "full = pre @ p @ d" "MarshalHandshakeMessage HandshakeTypeClientHello
      (ClientHello_marshalBody (ch\<lparr>ch_Extensions := placeholderExtensions exts ph @ [\<lparr>etype = t, edata = p @ d'\<rparr>]\<rparr>))
        = Inr (pre @ p @ d')"
    by auto
  then show ?thesis
    using assms(2,3) full(2) by (simp add: pskBinderTranscript_def ph pl Let_def)
qed

theorem binder_skips_trailing_extension_witness:
  "\<exists>trunc.
     pskBinderTranscript (sample_hello ([\<lparr>etype = ExtensionTypePreSharedKey, edata = []\<rparr>]
        @ [\<lparr>etype = ExtensionTypeQUICTransportParams, edata = [] @ replicate 35 1\<rparr>]))
        [\<lparr>Identity = [9], ObfuscatedTicketAge = 3\<rparr>] = Inr trunc
     \<and> pskBinderTranscript (sample_hello ([\<lparr>etype = ExtensionTypePreSharedKey, edata = []\<rparr>]
        @ [\<lparr>etype = ExtensionTypeQUICTransportParams, edata = [] @ replicate 35 2\<rparr>]))
        [\<lparr>Identity = [9], ObfuscatedTicketAge = 3\<rparr>] = Inr trunc"
proof -
  let ?i = "\<lparr>Identity = [9], ObfuscatedTicketAge = 3\<rparr>"
  let ?exts = "[\<lparr>etype = ExtensionTypePreSharedKey, edata = []\<rparr>]"
  let ?e = "\<lambda>b :: byte. [\<lparr>etype = ExtensionTypeQUICTransportParams, edata = [] @ replicate 35 b\<rparr>]"
  have ph: "marshalPreSharedKeyExtension [?i] [replicate 32 0] = Inr (pskPrefix ?i @ binderField (replicate 32 0))"
    using marshalPreSharedKey_single [of "replicate 32 0" ?i] by simp
  have "is_ok (pskBinderTranscript (sample_hello (?exts @ ?e 1)) [?i])"
    by (simp add: pskBinderTranscript_def ph placeholderExtensions_def extension_types Let_def
        MarshalHandshakeMessage_def ClientHello_marshalBody_def marshalExtensions_def pskPrefix_def
        sample_hello_def MaxHandshakeMessageLen_def is_ok_def)
  then obtain trunc where t: "pskBinderTranscript (sample_hello (?exts @ ?e 1)) [?i] = Inr trunc"
    by (auto simp: is_ok_iff)
  have s: "sample_hello (?exts @ ?e b) = (sample_hello [])\<lparr>ch_Extensions := ?exts @ ?e b\<rparr>" for b
    by (simp add: sample_hello_def)
  from binder_skips_trailing_extension [of ExtensionTypeQUICTransportParams "replicate 35 1" "replicate 35 2"
      ?exts "[]" "sample_hello []" ?i trunc] t
  have "pskBinderTranscript (sample_hello (?exts @ ?e 2)) [?i] = Inr trunc"
    unfolding s by (simp add: extension_types)
  with t show ?thesis by blast
qed

end
