(* ===== verification/Sm2Keys.thy ===== *)
theory Sm2Keys
  imports Symmetric
begin

text \<open>
  SM2 keys: the point encodings of \<open>src/sm2/compress.go\<close>, the curveSM2 key exchange of
  \<open>src/tls13gm/keyexchange.go\<close> and the CertificateVerify signatures of
  \<open>src/tls13gm/signature.go\<close>. The arithmetic of the curve, key generation and the
  signature algorithm come from the gmsm package: they are the further fields of the
  parameter record, and \<open>sm2_ok\<close> says what the package documents of them.
\<close>

section \<open>Keys and parameters\<close>

text \<open>\<open>ecdsa.PublicKey\<close> points to its curve; curves other than SM2 are told apart by a name.\<close>

datatype curve = SM2P256 | OtherCurve string

record PublicKey =
  Curve :: curve
  X :: nat
  Y :: nat

record PrivateKey =
  Public :: PublicKey
  D :: "nat option"

datatype ecdh_error = EcdhPrivateKey | EcdhPublicKey | EcdhInfinity

text \<open>
  \<open>sm2_Marshal\<close> and \<open>sm2_Unmarshal\<close> stand for \<open>elliptic.Marshal\<close> and
  \<open>elliptic.Unmarshal\<close>, which dispatch to the curve of the package. \<open>sm2_ECDH\<close> is the
  conversion of both keys and the multiplication. \<open>sm2_SignASN1\<close> takes the randomness
  it consumes; None is an error. \<open>sm2_KeyPair\<close> are the pairs \<open>GenerateKey\<close> returns.
\<close>

record gm = gm_sym +
  sm2_KeyPair :: "PrivateKey \<Rightarrow> bool"
  sm2_Marshal :: "nat \<Rightarrow> nat \<Rightarrow> bytes"
  sm2_Unmarshal :: "bytes \<Rightarrow> (nat \<times> nat) option"
  sm2_IsOnCurve :: "nat \<Rightarrow> nat \<Rightarrow> bool"
  sm2_ECDH :: "PrivateKey \<Rightarrow> PublicKey \<Rightarrow> ecdh_error + bytes"
  sm2_SignASN1 :: "bytes \<Rightarrow> PrivateKey \<Rightarrow> bytes \<Rightarrow> bytes \<Rightarrow> bytes option"
  sm2_VerifyASN1 :: "PublicKey \<Rightarrow> bytes \<Rightarrow> bytes \<Rightarrow> bytes \<Rightarrow> bool"

text \<open>
  A generated pair lies on the SM2 curve and has its scalar; its point has the 65-byte
  uncompressed encoding and decodes to itself; both sides of an exchange compute the
  same 32 bytes; a signature has at most 72 bytes and verifies under the signer's key,
  user identifier and message.
\<close>

definition sm2_ok :: "'x gm_scheme \<Rightarrow> bool" where
  "sm2_ok g \<longleftrightarrow>
    (\<forall>k. sm2_KeyPair g k \<longrightarrow>
       Curve (Public k) = SM2P256 \<and> D k \<noteq> None
       \<and> length (sm2_Marshal g (X (Public k)) (Y (Public k))) = 65
       \<and> sm2_Unmarshal g (sm2_Marshal g (X (Public k)) (Y (Public k))) = Some (X (Public k), Y (Public k))
       \<and> sm2_IsOnCurve g (X (Public k)) (Y (Public k)))
    \<and> (\<forall>a b. sm2_KeyPair g a \<longrightarrow> sm2_KeyPair g b \<longrightarrow>
       (\<exists>s. sm2_ECDH g a (Public b) = Inr s \<and> sm2_ECDH g b (Public a) = Inr s \<and> length s = 32))
    \<and> (\<forall>r k uid msg sig. sm2_KeyPair g k \<longrightarrow> sm2_SignASN1 g r k uid msg = Some sig \<longrightarrow>
       length sig \<le> 72 \<and> sm2_VerifyASN1 g (Public k) uid msg sig)"

section \<open>Point encodings\<close>

datatype point_error = InvalidPoint | PointNotOnCurve

definition MarshalUncompressed :: "'x gm_scheme \<Rightarrow> PublicKey option \<Rightarrow> bytes" where
  "MarshalUncompressed g pub =
    (case pub of None \<Rightarrow> [] | Some p \<Rightarrow> sm2_Marshal g (X p) (Y p))"

definition UnmarshalUncompressed :: "'x gm_scheme \<Rightarrow> bytes \<Rightarrow> point_error + PublicKey" where
  "UnmarshalUncompressed g data =
    (case sm2_Unmarshal g data of
       None \<Rightarrow> Inl InvalidPoint
     | Some (x, y) \<Rightarrow>
         if \<not> sm2_IsOnCurve g x y then Inl PointNotOnCurve
         else Inr \<lparr>Curve = SM2P256, X = x, Y = y\<rparr>)"

text \<open>
  \<open>Equal\<close>. Distinct curve values compare by the name and the prime of their parameters,
  an argument here; None is a nil parameter structure.
\<close>

definition Equal :: "(curve \<Rightarrow> (string \<times> nat) option) \<Rightarrow> PublicKey option \<Rightarrow> PublicKey option \<Rightarrow> bool" where
  "Equal params x y =
    (case (x, y) of
       (Some x, Some y) \<Rightarrow>
         if Curve x \<noteq> Curve y
            \<and> (params (Curve x) = None \<or> params (Curve y) = None
                \<or> params (Curve x) \<noteq> params (Curve y))
         then False
         else X x = X y \<and> Y x = Y y
     | _ \<Rightarrow> x = None \<and> y = None)"

section \<open>Key exchange\<close>

datatype keyexchange_error =
    PrivateKeyNil
  | PeerPublicNil
  | PrivateKeyCurve
  | PeerPublicCurve
  | PrivateScalarNil
  | KeyExchangeEcdh ecdh_error

definition CurveSM2 :: u16 where "CurveSM2 = 0x0029"

definition CurveSM2KeySize :: nat where "CurveSM2KeySize = 65"

definition CurveSM2ECDHE ::
  "'x gm_scheme \<Rightarrow> PrivateKey option \<Rightarrow> PublicKey option \<Rightarrow> keyexchange_error + bytes" where
  "CurveSM2ECDHE g privateKey peerPublic =
    (case privateKey of
       None \<Rightarrow> Inl PrivateKeyNil
     | Some priv \<Rightarrow>
         (case peerPublic of
            None \<Rightarrow> Inl PeerPublicNil
          | Some peer \<Rightarrow>
              if Curve (Public priv) \<noteq> SM2P256 then Inl PrivateKeyCurve
              else if Curve peer \<noteq> SM2P256 then Inl PeerPublicCurve
              else if D priv = None then Inl PrivateScalarNil
              else mapE KeyExchangeEcdh (sm2_ECDH g priv peer)))"

section \<open>CertificateVerify signatures\<close>

datatype sign_error = SignKeyNil | SignFailed

definition ServerCertificateVerifyContext :: bytes where
  "ServerCertificateVerifyContext = str ''TLS 1.3, server CertificateVerify''"

definition ClientCertificateVerifyContext :: bytes where
  "ClientCertificateVerifyContext = str ''TLS 1.3, client CertificateVerify''"

definition SM2IDTLS13KeyExchange :: bytes where
  "SM2IDTLS13KeyExchange = str ''TLSv1.3+GM+Cipher+Suite''"

definition BuildCertificateVerifyInput :: "bytes \<Rightarrow> bytes \<Rightarrow> bytes" where
  "BuildCertificateVerifyInput context transcriptHash =
    replicate 64 0x20 @ context @ [0x00] @ transcriptHash"

definition SignSM2SM3 ::
  "'x gm_scheme \<Rightarrow> bytes \<Rightarrow> PrivateKey option \<Rightarrow> bytes \<Rightarrow> sign_error + bytes" where
  "SignSM2SM3 g rnd privateKey message =
    (case privateKey of
       None \<Rightarrow> Inl SignKeyNil
     | Some k \<Rightarrow>
         (case sm2_SignASN1 g rnd k SM2IDTLS13KeyExchange message of
            None \<Rightarrow> Inl SignFailed
          | Some sig \<Rightarrow> Inr sig))"

definition VerifySM2SM3 :: "'x gm_scheme \<Rightarrow> PublicKey option \<Rightarrow> bytes \<Rightarrow> bytes \<Rightarrow> bool" where
  "VerifySM2SM3 g publicKey message signature =
    (case publicKey of
       None \<Rightarrow> False
     | Some p \<Rightarrow> sm2_VerifyASN1 g p SM2IDTLS13KeyExchange message signature)"

definition SignCertificateVerify ::
  "'x gm_scheme \<Rightarrow> bytes \<Rightarrow> PrivateKey option \<Rightarrow> bytes \<Rightarrow> bytes \<Rightarrow> sign_error + bytes" where
  "SignCertificateVerify g rnd privateKey context transcriptHash =
    (case privateKey of
       None \<Rightarrow> Inl SignKeyNil
     | Some k \<Rightarrow>
         (let message = BuildCertificateVerifyInput context transcriptHash in
          case sm2_SignASN1 g rnd k SM2IDTLS13KeyExchange message of
            None \<Rightarrow> Inl SignFailed
          | Some sig \<Rightarrow> Inr sig))"

definition VerifyCertificateVerify ::
  "'x gm_scheme \<Rightarrow> PublicKey option \<Rightarrow> bytes \<Rightarrow> bytes \<Rightarrow> bytes \<Rightarrow> bool" where
  "VerifyCertificateVerify g publicKey context transcriptHash signature =
    (case publicKey of
       None \<Rightarrow> False
     | Some p \<Rightarrow>
         (let message = BuildCertificateVerifyInput context transcriptHash in
          sm2_VerifyASN1 g p SM2IDTLS13KeyExchange message signature))"

section \<open>Facts\<close>

lemma sm2_key_facts:
  assumes "sm2_ok g" and "sm2_KeyPair g k"
  shows "Curve (Public k) = SM2P256" and "D k \<noteq> None"
    and "length (MarshalUncompressed g (Some (Public k))) = 65"
    and "UnmarshalUncompressed g (MarshalUncompressed g (Some (Public k))) = Inr (Public k)"
  using assms unfolding sm2_ok_def MarshalUncompressed_def UnmarshalUncompressed_def
  by auto

lemma ecdhe_agree:
  assumes "sm2_ok g" and "sm2_KeyPair g a" and "sm2_KeyPair g b"
  obtains s where "CurveSM2ECDHE g (Some a) (Some (Public b)) = Inr s"
    "CurveSM2ECDHE g (Some b) (Some (Public a)) = Inr s" "length s = 32"
proof -
  from assms obtain s where "sm2_ECDH g a (Public b) = Inr s" "sm2_ECDH g b (Public a) = Inr s"
    "length s = 32"
    unfolding sm2_ok_def by blast
  then show thesis
    using sm2_key_facts(1,2) [OF assms(1,2)] sm2_key_facts(1,2) [OF assms(1,3)]
    by (intro that [of s]) (simp_all add: CurveSM2ECDHE_def)
qed

lemma certificate_verify_ok:
  assumes "sm2_ok g" and "sm2_KeyPair g k"
    and "SignCertificateVerify g rnd (Some k) context h = Inr sig"
  shows "VerifyCertificateVerify g (Some (Public k)) context h sig" and "length sig \<le> 72"
  using assms unfolding sm2_ok_def SignCertificateVerify_def VerifyCertificateVerify_def Let_def
  by (auto split: option.splits)

text \<open>The two contexts have the same length, so the signed input determines its parts.\<close>

lemma length_contexts [simp]:
  "length ServerCertificateVerifyContext = 33" "length ClientCertificateVerifyContext = 33"
  by (simp_all add: ServerCertificateVerifyContext_def ClientCertificateVerifyContext_def)

lemma BuildCertificateVerifyInput_inject:
  assumes "BuildCertificateVerifyInput c h = BuildCertificateVerifyInput c' h'"
    and "length c = length c'"
  shows "c = c' \<and> h = h'"
  using assms by (simp add: BuildCertificateVerifyInput_def)

section \<open>A concrete instance\<close>

text \<open>
  For evaluating the model: a commutative toy exchange and a signature that carries its
  message digest and the signer's coordinates.
\<close>

definition toy_key :: "nat \<Rightarrow> PrivateKey" where
  "toy_key d = \<lparr>Public = \<lparr>Curve = SM2P256, X = d, Y = d\<rparr>, D = Some d\<rparr>"

definition toy_gm :: gm where
  "toy_gm = gm_sym.extend toy_sym
     (gm.fields (\<lambda>k. \<exists>d < 256. k = toy_key d)
        (\<lambda>x y. 4 # be 32 x @ be 32 y)
        (\<lambda>b. if length b = 65 \<and> b ! 0 = 4 then Some (unbe (take 32 (drop 1 b)), unbe (drop 33 b)) else None)
        (\<lambda>x y. x = y)
        (\<lambda>k p. case D k of None \<Rightarrow> Inl EcdhPrivateKey | Some d \<Rightarrow> Inr (be 32 (d * X p)))
        (\<lambda>r k uid m. Some (be 32 (X (Public k)) @ toy_hash (uid @ m)))
        (\<lambda>p uid m s. s = be 32 (X p) @ toy_hash (uid @ m)))"

lemma toy_gm_sym [simp]:
  "sm3_Sum toy_gm = toy_hash" "sm4_Encrypt toy_gm = xorb" "sm4_Decrypt toy_gm = xorb"
  by (simp_all add: toy_gm_def toy_sym_def gm_sym.defs gm.defs)

lemma toy_gm_sm2 [simp]:
  "sm2_KeyPair toy_gm k = (\<exists>d < 256. k = toy_key d)"
  "sm2_Marshal toy_gm x y = 4 # be 32 x @ be 32 y"
  "sm2_Unmarshal toy_gm b = (if length b = 65 \<and> b ! 0 = 4 then Some (unbe (take 32 (drop 1 b)), unbe (drop 33 b)) else None)"
  "sm2_IsOnCurve toy_gm x y = (x = y)"
  "sm2_ECDH toy_gm k p = (case D k of None \<Rightarrow> Inl EcdhPrivateKey | Some d \<Rightarrow> Inr (be 32 (d * X p)))"
  "sm2_SignASN1 toy_gm r k uid m = Some (be 32 (X (Public k)) @ toy_hash (uid @ m))"
  "sm2_VerifyASN1 toy_gm p uid m s = (s = be 32 (X p) @ toy_hash (uid @ m))"
  by (simp_all add: toy_gm_def toy_sym_def gm_sym.defs gm.defs)

lemma toy_gm_ok: "sm3_ok toy_gm" "sm4_ok toy_gm" "sm2_ok toy_gm"
proof -
  show "sm3_ok toy_gm" by (simp add: sm3_ok_def toy_hash_def)
  show "sm4_ok toy_gm" using toy_sm4_ok by (simp add: sm4_ok_def toy_sym_def)
  have "(d::nat) mod (256 ^ 32) = d" if "d < 256" for d using that by simp
  then show "sm2_ok toy_gm"
    unfolding sm2_ok_def by (auto simp: toy_key_def toy_hash_def mult.commute)
qed

end
