(* ===== verification/CertVerify.thy ===== *)
theory CertVerify
  imports Sm2Keys
begin

text \<open>
  Certificate pools and verification: \<open>src/smx509/certpool.go\<close>, \<open>src/smx509/verify.go\<close> and
  the parser and key test of \<open>src/smx509/cert.go\<close>. Parsing DER, checking one signature
  and building chains are done by \<open>crypto/x509\<close> and by the gmsm package; they are
  parameters. What is modelled is the decision around them: which back end is asked,
  with which pools, and when its answer is overruled.
\<close>

section \<open>Certificates and parameters\<close>

text \<open>
  The fields of \<open>x509.Certificate\<close> that are read. A public key may be a typed nil.
\<close>

datatype public_key = EcdsaKey "PublicKey option" | OtherKey

record X509 =
  Raw :: bytes
  RawSubject :: bytes
  RawIssuer :: bytes
  CertKey :: public_key
  KeyUsage :: nat
  NotBefore :: int
  NotAfter :: int

record CertPool =
  certs :: "X509 list"
  raw :: "bytes list"

text \<open>
  The options the two verifiers receive: the DNS name, the extended key usages, the
  roots and intermediates (None is a nil pool) and the reference time.
\<close>

record chain_options =
  co_DNSName :: bytes
  co_KeyUsages :: "int list"
  co_Roots :: "X509 list option"
  co_Intermediates :: "X509 list option"
  co_CurrentTime :: "int option"

datatype chain_result = ChainError | Chains nat

record x509 = gm +
  gmsm_ParseCertificate :: "bytes \<Rightarrow> X509 option"
  std_ParseCertificate :: "bytes \<Rightarrow> X509 option"
  std_CheckSignatureFrom :: "X509 \<Rightarrow> X509 \<Rightarrow> bool"
  std_Verify :: "X509 \<Rightarrow> chain_options \<Rightarrow> chain_result"
  gmsm_Verify :: "X509 \<Rightarrow> chain_options \<Rightarrow> chain_result"

section \<open>Pools\<close>

definition NewCertPool :: CertPool where
  "NewCertPool = \<lparr>certs = [], raw = []\<rparr>"

definition AddCert :: "CertPool \<Rightarrow> X509 option \<Rightarrow> CertPool" where
  "AddCert p cert =
    (case cert of
       None \<Rightarrow> p
     | Some c \<Rightarrow> p\<lparr>certs := certs p @ [c], raw := raw p @ [Raw c]\<rparr>)"

definition Certificates :: "CertPool \<Rightarrow> X509 list" where
  "Certificates p = certs p"

definition RawDER :: "CertPool \<Rightarrow> bytes list" where
  "RawDER p = raw p"

definition CertPool_Len :: "CertPool \<Rightarrow> nat" where
  "CertPool_Len p = length (certs p)"

definition pool_contains :: "CertPool option \<Rightarrow> X509 \<Rightarrow> bool" where
  "pool_contains p cert =
    (case p of None \<Rightarrow> False | Some p \<Rightarrow> list_ex (\<lambda>r. r = Raw cert) (RawDER p))"

definition toStdCertPool :: "CertPool option \<Rightarrow> X509 list option" where
  "toStdCertPool p = map_option Certificates p"

text \<open>The two parallel slices of a pool built by \<open>AddCert\<close> stay in step.\<close>

definition pool_wf :: "CertPool \<Rightarrow> bool" where
  "pool_wf p \<longleftrightarrow> raw p = map Raw (certs p)"

lemma pool_wf_new [simp]: "pool_wf NewCertPool"
  by (simp add: pool_wf_def NewCertPool_def)

lemma pool_wf_add [simp]: "pool_wf p \<Longrightarrow> pool_wf (AddCert p c)"
  by (simp add: pool_wf_def AddCert_def split: option.splits)

lemma pool_wf_fold [simp]: "pool_wf p \<Longrightarrow> pool_wf (foldl AddCert p cs)"
  by (induction cs arbitrary: p) simp_all

lemma pool_contains_iff:
  "pool_wf p \<Longrightarrow> pool_contains (Some p) c \<longleftrightarrow> (\<exists>d \<in> set (certs p). Raw d = Raw c)"
  by (auto simp: pool_contains_def RawDER_def pool_wf_def list_ex_iff) (metis image_eqI)

section \<open>Parsing\<close>

definition ParseCertificate :: "'x x509_scheme \<Rightarrow> bytes \<Rightarrow> X509 option" where
  "ParseCertificate g der =
    (case gmsm_ParseCertificate g der of
       Some c \<Rightarrow> Some c
     | None \<Rightarrow> (case std_ParseCertificate g der of Some c \<Rightarrow> Some c | None \<Rightarrow> None))"

definition IsSM2PublicKey :: "public_key \<Rightarrow> bool" where
  "IsSM2PublicKey pub =
    (case pub of
       EcdsaKey (Some p) \<Rightarrow> Curve p = SM2P256
     | _ \<Rightarrow> False)"

section \<open>Verification\<close>

datatype verify_error =
    VerifyNilCert
  | VerifySelfSignedLeaf
  | VerifyStdFailed
  | VerifyNoChain
  | VerifyParseSM2
  | VerifyKeyUsageRange
  | VerifyNoSM2Roots
  | VerifyGmsmFailed
  | VerifyNotYetValid
  | VerifyExpired
  | VerifyMissingEncryptCert
  | VerifyMismatchedCA
  | VerifySubjectMismatch
  | VerifySignKeyUsage
  | VerifyEncryptKeyUsage

record VerifyOptions =
  DNSName :: bytes
  Roots :: "CertPool option"
  Intermediates :: "CertPool option"
  KeyUsages :: "int list"
  CurrentTime :: "int option"

definition maxSharedExtKeyUsage :: int where "maxSharedExtKeyUsage = 13"

text \<open>The certificates of a pool the gmsm parser accepts.\<close>

definition reparse :: "'x x509_scheme \<Rightarrow> CertPool \<Rightarrow> X509 list" where
  "reparse g p = List.map_filter (gmsm_ParseCertificate g) (RawDER p)"

definition verifySM2 :: "'x x509_scheme \<Rightarrow> X509 \<Rightarrow> VerifyOptions \<Rightarrow> verify_error + unit" where
  "verifySM2 g cert opts =
    (case gmsm_ParseCertificate g (Raw cert) of
       None \<Rightarrow> Inl VerifyParseSM2
     | Some smCert \<Rightarrow>
         if list_ex (\<lambda>ku. ku < 0 \<or> ku > maxSharedExtKeyUsage) (KeyUsages opts)
         then Inl VerifyKeyUsageRange
         else
           bindE
             (case Roots opts of
                None \<Rightarrow> Inr None
              | Some roots \<Rightarrow>
                  if CertPool_Len roots > 0 then
                    (if reparse g roots = [] then Inl VerifyNoSM2Roots
                     else Inr (Some (reparse g roots)))
                  else Inr None)
             (\<lambda>smRoots.
           let smIntermediates =
                 (case Intermediates opts of
                    None \<Rightarrow> None
                  | Some inters \<Rightarrow> if CertPool_Len inters > 0 then Some (reparse g inters) else None);
               smOpts = \<lparr>co_DNSName = DNSName opts, co_KeyUsages = KeyUsages opts, co_Roots = smRoots,
                         co_Intermediates = smIntermediates, co_CurrentTime = None\<rparr>
           in (case gmsm_Verify g smCert smOpts of
                 ChainError \<Rightarrow> Inl VerifyGmsmFailed
               | Chains n \<Rightarrow>
                   if n = 0 then Inl VerifyNoChain
                   else
                     (case CurrentTime opts of
                        None \<Rightarrow> Inr ()
                      | Some t \<Rightarrow>
                          if t < NotBefore smCert then Inl VerifyNotYetValid
                          else if t > NotAfter smCert then Inl VerifyExpired
                          else Inr ()))))"

definition Verify :: "'x x509_scheme \<Rightarrow> X509 option \<Rightarrow> VerifyOptions \<Rightarrow> verify_error + unit" where
  "Verify g cert opts =
    (case cert of
       None \<Rightarrow> Inl VerifyNilCert
     | Some cert \<Rightarrow>
         if std_CheckSignatureFrom g cert cert \<and> \<not> pool_contains (Roots opts) cert
         then Inl VerifySelfSignedLeaf
         else if IsSM2PublicKey (CertKey cert) \<and> RawSubject cert = RawIssuer cert
            \<and> \<not> pool_contains (Roots opts) cert
         then Inl VerifySelfSignedLeaf
         else
           (let verifyOpts =
                  \<lparr>co_DNSName = DNSName opts, co_KeyUsages = KeyUsages opts,
                   co_Roots = toStdCertPool (Roots opts),
                   co_Intermediates = toStdCertPool (Intermediates opts),
                   co_CurrentTime = CurrentTime opts\<rparr>
            in case std_Verify g cert verifyOpts of
                 Chains n \<Rightarrow>
                   if n > 0 then Inr ()
                   else if IsSM2PublicKey (CertKey cert) then verifySM2 g cert opts
                   else Inl VerifyNoChain
               | ChainError \<Rightarrow>
                   if IsSM2PublicKey (CertKey cert) then verifySM2 g cert opts
                   else Inl VerifyStdFailed))"

definition KeyUsageDigitalSignature :: nat where "KeyUsageDigitalSignature = 1"
definition KeyUsageKeyEncipherment :: nat where "KeyUsageKeyEncipherment = 4"
definition KeyUsageDataEncipherment :: nat where "KeyUsageDataEncipherment = 8"

definition VerifyDualCerts :: "X509 option \<Rightarrow> X509 option \<Rightarrow> verify_error + unit" where
  "VerifyDualCerts signCert encCert =
    (case (signCert, encCert) of
       (Some s, Some e) \<Rightarrow>
         if RawIssuer s \<noteq> RawIssuer e then Inl VerifyMismatchedCA
         else if RawSubject s \<noteq> RawSubject e then Inl VerifySubjectMismatch
         else if and (KeyUsage s) KeyUsageDigitalSignature = 0 then Inl VerifySignKeyUsage
         else if and (KeyUsage e) KeyUsageKeyEncipherment = 0
               \<and> and (KeyUsage e) KeyUsageDataEncipherment = 0
         then Inl VerifyEncryptKeyUsage
         else Inr ()
     | _ \<Rightarrow> Inl VerifyMissingEncryptCert)"

section \<open>Properties\<close>

lemma verifySM2_ok:
  assumes "verifySM2 g cert opts = Inr ()"
  shows "\<exists>smCert o' n. gmsm_ParseCertificate g (Raw cert) = Some smCert
    \<and> gmsm_Verify g smCert o' = Chains n \<and> n > 0
    \<and> co_DNSName o' = DNSName opts \<and> co_KeyUsages o' = KeyUsages opts
    \<and> (\<forall>r \<in> set (case co_Roots o' of None \<Rightarrow> [] | Some rs \<Rightarrow> rs).
         \<exists>der p. Roots opts = Some p \<and> der \<in> set (RawDER p) \<and> gmsm_ParseCertificate g der = Some r)
    \<and> (\<forall>t. CurrentTime opts = Some t \<longrightarrow> NotBefore smCert \<le> t \<and> t \<le> NotAfter smCert)"
proof -
  from assms obtain smCert where p: "gmsm_ParseCertificate g (Raw cert) = Some smCert"
    by (auto simp: verifySM2_def split: option.splits)
  from assms p show ?thesis
    by (fastforce simp: verifySM2_def bindE_Inr_iff Let_def reparse_def List.map_filter_def not_less
        split: option.splits if_splits chain_result.splits)
qed

text \<open>The decision of \<open>Verify\<close>, for clients of the component.\<close>

lemma Verify_accepts:
  assumes "Verify g (Some c) opts = Inr ()"
  shows "(std_CheckSignatureFrom g c c \<longrightarrow> pool_contains (Roots opts) c)
    \<and> (IsSM2PublicKey (CertKey c) \<longrightarrow> RawSubject c = RawIssuer c \<longrightarrow> pool_contains (Roots opts) c)
    \<and> ((\<exists>n > 0. std_Verify g c
           \<lparr>co_DNSName = DNSName opts, co_KeyUsages = KeyUsages opts,
            co_Roots = toStdCertPool (Roots opts), co_Intermediates = toStdCertPool (Intermediates opts),
            co_CurrentTime = CurrentTime opts\<rparr> = Chains n)
       \<or> IsSM2PublicKey (CertKey c) \<and> verifySM2 g c opts = Inr ())"
  using assms
  by (auto simp: Verify_def Let_def split: if_splits chain_result.splits)

text \<open>
  C26. A certificate that passes \<open>Verify\<close> has a chain: either the standard library found
  one under the caller's name, key usages, roots, intermediates and time, or the
  certificate carries an SM2 key and gmsm found one for the certificate re-parsed from
  the same DER, under the same name and usages, with every root taken from the caller's
  pool and with the leaf inside its validity period at the caller's time. In neither
  case is a self-signed certificate accepted unless the caller's roots contain it.
\<close>

theorem Verify_sound:
  assumes "Verify g (Some c) opts = Inr ()"
  shows "(std_CheckSignatureFrom g c c \<or> IsSM2PublicKey (CertKey c) \<and> RawSubject c = RawIssuer c
          \<longrightarrow> pool_contains (Roots opts) c)
    \<and> ((\<exists>n > 0. std_Verify g c
           \<lparr>co_DNSName = DNSName opts, co_KeyUsages = KeyUsages opts,
            co_Roots = toStdCertPool (Roots opts), co_Intermediates = toStdCertPool (Intermediates opts),
            co_CurrentTime = CurrentTime opts\<rparr> = Chains n)
       \<or> IsSM2PublicKey (CertKey c)
         \<and> (\<exists>smCert o' n. gmsm_ParseCertificate g (Raw c) = Some smCert
              \<and> gmsm_Verify g smCert o' = Chains n \<and> n > 0
              \<and> co_DNSName o' = DNSName opts \<and> co_KeyUsages o' = KeyUsages opts
              \<and> (\<forall>r \<in> set (case co_Roots o' of None \<Rightarrow> [] | Some rs \<Rightarrow> rs).
                   \<exists>der p. Roots opts = Some p \<and> der \<in> set (RawDER p) \<and> gmsm_ParseCertificate g der = Some r)
              \<and> (\<forall>t. CurrentTime opts = Some t \<longrightarrow> NotBefore smCert \<le> t \<and> t \<le> NotAfter smCert)))"
  using Verify_accepts [OF assms] verifySM2_ok [of g c opts] by blast

text \<open>
  A concrete instance: DER is the certificate's single byte, a chain is a root in the
  pool whose subject is the issuer.
\<close>

definition toy_cert :: "byte \<Rightarrow> byte \<Rightarrow> X509" where
  "toy_cert sub iss =
    \<lparr>Raw = [sub, iss], RawSubject = [sub], RawIssuer = [iss],
     CertKey = EcdsaKey (Some (Public (toy_key (unat sub)))), KeyUsage = 1,
     NotBefore = 0, NotAfter = 100\<rparr>"

definition toy_parse :: "bytes \<Rightarrow> X509 option" where
  "toy_parse der = (if length der = 2 then Some (toy_cert (der ! 0) (der ! 1)) else None)"

definition toy_chains :: "X509 \<Rightarrow> chain_options \<Rightarrow> chain_result" where
  "toy_chains c opts =
    (case co_Roots opts of
       None \<Rightarrow> ChainError
     | Some rs \<Rightarrow> Chains (length (filter (\<lambda>r. RawSubject r = RawIssuer c) rs)))"

definition toy_x509 :: x509 where
  "toy_x509 = gm.extend toy_gm
     (x509.fields toy_parse (\<lambda>_. None) (\<lambda>a b. False) (\<lambda>c opts. ChainError) toy_chains)"

lemma toy_x509_gm [simp]:
  "sm3_Sum toy_x509 = sm3_Sum toy_gm" "sm4_Encrypt toy_x509 = sm4_Encrypt toy_gm"
  "sm4_Decrypt toy_x509 = sm4_Decrypt toy_gm"
  "sm2_KeyPair toy_x509 = sm2_KeyPair toy_gm" "sm2_Marshal toy_x509 = sm2_Marshal toy_gm"
  "sm2_Unmarshal toy_x509 = sm2_Unmarshal toy_gm" "sm2_IsOnCurve toy_x509 = sm2_IsOnCurve toy_gm"
  "sm2_ECDH toy_x509 = sm2_ECDH toy_gm" "sm2_SignASN1 toy_x509 = sm2_SignASN1 toy_gm"
  "sm2_VerifyASN1 toy_x509 = sm2_VerifyASN1 toy_gm"
  by (simp_all add: toy_x509_def toy_gm_def toy_sym_def x509.defs gm.defs gm_sym.defs)

lemma toy_x509_fields [simp]:
  "gmsm_ParseCertificate toy_x509 = toy_parse" "std_ParseCertificate toy_x509 = (\<lambda>_. None)"
  "std_CheckSignatureFrom toy_x509 = (\<lambda>a b. False)"
  "std_Verify toy_x509 = (\<lambda>c opts. ChainError)" "gmsm_Verify toy_x509 = toy_chains"
  by (simp_all add: toy_x509_def x509.defs gm.defs gm_sym.defs)

lemma toy_x509_ok: "sm3_ok toy_x509" "sm4_ok toy_x509" "sm2_ok toy_x509"
  using toy_gm_ok unfolding sm3_ok_def sm4_ok_def sm2_ok_def toy_x509_gm by blast+

theorem Verify_sound_witness:
  "\<exists>opts smCert o' n. Verify toy_x509 (Some (toy_cert 2 1)) opts = Inr ()
     \<and> Roots opts = Some (AddCert NewCertPool (Some (toy_cert 1 1)))
     \<and> gmsm_ParseCertificate toy_x509 [2, 1] = Some smCert
     \<and> Verify toy_x509 (Some (toy_cert 2 2)) opts = Inl VerifySelfSignedLeaf
     \<and> gmsm_Verify toy_x509 smCert o' = Chains n \<and> n > 0 \<and> NotBefore smCert \<le> 50"
proof -
  let ?opts = "\<lparr>DNSName = [], Roots = Some (AddCert NewCertPool (Some (toy_cert 1 1))),
    Intermediates = None, KeyUsages = [1], CurrentTime = Some 50\<rparr>"
  have v: "Verify toy_x509 (Some (toy_cert 2 1)) ?opts = Inr ()"
    and w: "Verify toy_x509 (Some (toy_cert 2 2)) ?opts = Inl VerifySelfSignedLeaf"
    by (simp_all add: Verify_def verifySM2_def toy_cert_def toy_key_def toy_parse_def toy_chains_def
        IsSM2PublicKey_def AddCert_def NewCertPool_def pool_contains_def RawDER_def CertPool_Len_def
        reparse_def maxSharedExtKeyUsage_def List.map_filter_def Let_def)
  from conjunct2 [OF Verify_sound [OF v]] have "\<exists>smCert o' n. gmsm_ParseCertificate toy_x509 (Raw (toy_cert 2 1)) = Some smCert
      \<and> gmsm_Verify toy_x509 smCert o' = Chains n \<and> n > 0 \<and> NotBefore smCert \<le> 50"
    by auto
  then show ?thesis using v w by (intro exI [of _ ?opts]) (simp add: toy_cert_def)
qed

text \<open>
  A pair of TLCP certificates is accepted exactly when both are present, they name
  the same issuer and the same subject, the signing certificate may sign and the
  encryption certificate may encipher keys or data.
\<close>

lemma VerifyDualCerts_iff:
  "VerifyDualCerts sc ec = Inr () \<longleftrightarrow>
    (\<exists>s e. sc = Some s \<and> ec = Some e \<and> RawIssuer s = RawIssuer e \<and> RawSubject s = RawSubject e
       \<and> bit (KeyUsage s) 0 \<and> (bit (KeyUsage e) 2 \<or> bit (KeyUsage e) 3))"
proof -
  have b: "and n (2 ^ k) = 0 \<longleftrightarrow> \<not> bit n k" for n k :: nat
    using and_exp_eq_0_iff_not_bit [of n k] by simp
  show ?thesis
    using b [of _ 0] b [of _ 2] b [of _ 3]
    by (auto simp: VerifyDualCerts_def KeyUsageDigitalSignature_def KeyUsageKeyEncipherment_def
        KeyUsageDataEncipherment_def split: option.splits if_splits)
qed

end
