(* ===== verification/SessionTicket.thy ===== *)
theory SessionTicket
  imports Aead TicketKeys
begin

text \<open>
  Stateless session tickets, \<open>src/tls13gm/session_ticket.go\<close>: a resumption PSK, its
  \<open>ticket_age_add\<close> and an application blob sealed under a ticket encryption key. The
  random nonce is an argument. Zeroing of plaintexts is not represented.
\<close>

section \<open>Operations\<close>

datatype ticket_error =
    TicketKeyLen
  | TicketAppDataTooLarge
  | TicketNonceRand
  | TicketAead aead_error
  | TicketTooShort
  | TicketVersion
  | TicketNoKey
  | TicketUndecryptable
  | TicketDataOverrun

definition sessionTicketVersion :: byte where "sessionTicketVersion = 0x03"

definition EncryptSessionTicketWithData ::
  "'x gm_sym_scheme \<Rightarrow> bytes option \<Rightarrow> bytes \<Rightarrow> bytes \<Rightarrow> u32 \<Rightarrow> bytes \<Rightarrow> ticket_error + bytes" where
  "EncryptSessionTicketWithData g rnd tek psk ticketAgeAdd appData =
    (if length tek \<noteq> SessionTicketKeyLen then Inl TicketKeyLen
     else if length appData > 2 ^ 20 then Inl TicketAppDataTooLarge
     else
       (case rnd of
          None \<Rightarrow> Inl TicketNonceRand
        | Some nonce \<Rightarrow>
            bindE (mapE TicketAead (NewAEAD tek nonce)) (\<lambda>aead.
            let plaintext = psk @ be 4 (unat ticketAgeAdd) @ appData @ be 4 (length appData) in
            bindE (mapE TicketAead (AEAD_Seal g aead 0 plaintext [sessionTicketVersion])) (\<lambda>ct.
            Inr ([sessionTicketVersion] @ nonce @ ct)))))"

definition EncryptSessionTicket ::
  "'x gm_sym_scheme \<Rightarrow> bytes option \<Rightarrow> bytes \<Rightarrow> bytes \<Rightarrow> u32 \<Rightarrow> ticket_error + bytes" where
  "EncryptSessionTicket g rnd tek psk ticketAgeAdd =
    EncryptSessionTicketWithData g rnd tek psk ticketAgeAdd []"

definition parseTicketPlaintext :: "bytes \<Rightarrow> ticket_error + (bytes \<times> u32 \<times> bytes)" where
  "parseTicketPlaintext pt =
    (if length pt < 8 then Inl TicketTooShort
     else
       (let dataLen = unbe (drop (length pt - 4) pt) in
        if dataLen > length pt - 8 then Inl TicketDataOverrun
        else
          (let split = length pt - 8 - dataLen;
               psk = take split pt;
               ageAdd = of_nat (unbe (take 4 (drop split pt)));
               data = (if dataLen > 0 then take dataLen (drop (split + 4) pt) else []) in
           Inr (psk, ageAdd, data))))"

text \<open>One pass of the loop over the keys; the first success is kept.\<close>

definition tryTicketKey ::
  "'x gm_sym_scheme \<Rightarrow> bytes \<Rightarrow> bytes \<Rightarrow> (bytes \<times> u32 \<times> bytes) option \<Rightarrow> bytes \<Rightarrow> (bytes \<times> u32 \<times> bytes) option" where
  "tryTicketKey g nonce ct res tek =
    (if length tek \<noteq> SessionTicketKeyLen then res
     else
       (case NewAEAD tek nonce of
          Inl _ \<Rightarrow> res
        | Inr aead \<Rightarrow>
            (case AEAD_Open g aead 0 ct [sessionTicketVersion] of
               Inl _ \<Rightarrow> res
             | Inr pt \<Rightarrow>
                 (case parseTicketPlaintext pt of
                    Inl _ \<Rightarrow> res
                  | Inr r \<Rightarrow> (case res of None \<Rightarrow> Some r | Some _ \<Rightarrow> res)))))"

definition DecryptSessionTicketWithData ::
  "'x gm_sym_scheme \<Rightarrow> bytes list \<Rightarrow> bytes \<Rightarrow> ticket_error + (bytes \<times> u32 \<times> bytes)" where
  "DecryptSessionTicketWithData g teks ticket =
    (if length ticket < 1 + 12 then Inl TicketTooShort
     else if ticket ! 0 \<noteq> sessionTicketVersion then Inl TicketVersion
     else
       (let nonce = take 12 (drop 1 ticket); ct = drop 13 ticket in
        if length teks = 0 then Inl TicketNoKey
        else
          (case foldl (tryTicketKey g nonce ct) None teks of
             None \<Rightarrow> Inl TicketUndecryptable
           | Some r \<Rightarrow> Inr r)))"

definition DecryptSessionTicket :: "'x gm_sym_scheme \<Rightarrow> bytes list \<Rightarrow> bytes \<Rightarrow> ticket_error + (bytes \<times> u32)" where
  "DecryptSessionTicket g teks ticket =
    bindE (DecryptSessionTicketWithData g teks ticket) (\<lambda>(psk, ageAdd, _). Inr (psk, ageAdd))"

section \<open>Round trip\<close>

lemma parseTicketPlaintext_roundtrip:
  assumes "length appData \<le> 2 ^ 20"
  shows "parseTicketPlaintext (psk @ be 4 (unat (age :: u32)) @ appData @ be 4 (length appData))
    = Inr (psk, age, appData)"
proof -
  let ?pt = "psk @ be 4 (unat age) @ appData @ be 4 (length appData)"
  have dl: "unbe (drop (length ?pt - 4) ?pt) = length appData"
    using assms by (simp add: unbe_be_id)
  have "unat age < 2 ^ 32" using unsigned_less [of age] by simp
  then have age: "of_nat (unat age mod 4294967296) = age" by simp
  show ?thesis
    unfolding parseTicketPlaintext_def Let_def dl using age by simp
qed

text \<open>A key that fails to authenticate the ciphertext leaves the result alone.\<close>

definition opens :: "'x gm_sym_scheme \<Rightarrow> bytes \<Rightarrow> bytes \<Rightarrow> bytes \<Rightarrow> bool" where
  "opens g nonce ct tek \<longleftrightarrow>
     (\<exists>a. NewAEAD tek nonce = Inr a \<and> is_ok (AEAD_Open g a 0 ct [sessionTicketVersion]))"

lemma tryTicketKey_skip: "\<not> opens g nonce ct tek \<Longrightarrow> tryTicketKey g nonce ct res tek = res"
  by (auto simp: tryTicketKey_def opens_def is_ok_iff split: sum.splits)

lemma tryTicketKey_keep: "tryTicketKey g nonce ct (Some r) tek = Some r"
  by (simp add: tryTicketKey_def split: sum.splits)

lemma foldl_keep: "foldl (tryTicketKey g nonce ct) (Some r) teks = Some r"
  by (induction teks) (simp_all add: tryTicketKey_keep)

lemma foldl_first:
  assumes "tek \<in> set teks" and "tryTicketKey g nonce ct None tek = Some r"
    and "\<And>k. k \<in> set teks \<Longrightarrow> k \<noteq> tek \<Longrightarrow> \<not> opens g nonce ct k"
  shows "foldl (tryTicketKey g nonce ct) None teks = Some r"
  using assms
proof (induction teks)
  case (Cons k teks)
  show ?case
  proof (cases "k = tek")
    case True
    then show ?thesis using Cons.prems by (simp add: foldl_keep)
  next
    case False
    then have "tryTicketKey g nonce ct None k = None"
      using Cons.prems(3) by (intro tryTicketKey_skip) simp
    then show ?thesis using Cons False by simp
  qed
qed simp

lemma ticket_roundtrip_aux:
  assumes "sm4_ok g" and enc: "EncryptSessionTicketWithData g rnd tek psk age appData = Inr ticket"
    and "tek \<in> set teks"
    and excl: "\<And>k. k \<in> set teks \<Longrightarrow> k \<noteq> tek \<Longrightarrow> \<not> opens g (take 12 (drop 1 ticket)) (drop 13 ticket) k"
  shows "DecryptSessionTicketWithData g teks ticket = Inr (psk, age, appData)"
proof -
  let ?pt = "psk @ be 4 (unat age) @ appData @ be 4 (length appData)"
  from enc obtain nonce a ct where a: "NewAEAD tek nonce = Inr a"
    and ct: "AEAD_Seal g a 0 ?pt [sessionTicketVersion] = Inr ct"
    and t: "ticket = sessionTicketVersion # nonce @ ct"
    and tek: "length tek = SessionTicketKeyLen" and len: "length appData \<le> 2 ^ 20"
    by (auto simp: EncryptSessionTicketWithData_def bindE_Inr_iff Let_def not_less
        split: if_splits option.splits)
  have nonce: "length nonce = 12" using a by (simp add: NewAEAD_iff)
  have parts: "take 12 (drop 1 ticket) = nonce" "drop 13 ticket = ct"
    using nonce by (simp_all add: t)
  have "AEAD_Open g a 0 ct [sessionTicketVersion] = Inr ?pt"
    by (rule AEAD_open_seal [OF assms(1) NewAEAD_wf [OF a] ct])
  then have "tryTicketKey g nonce ct None tek = Some (psk, age, appData)"
    by (simp add: tryTicketKey_def tek a parseTicketPlaintext_roundtrip [OF len])
  from foldl_first [OF assms(3) this excl [unfolded parts]]
  have "foldl (tryTicketKey g nonce ct) None teks = Some (psk, age, appData)" .
  moreover have "teks \<noteq> []" using assms(3) by auto
  ultimately show ?thesis
    using nonce parts by (simp add: DecryptSessionTicketWithData_def t Let_def)
qed

lemma Encrypt_total:
  assumes "sm4_ok g" and "length tek = 16" and "length nonce = 12" and "length appData \<le> 2 ^ 20"
    and "length psk \<le> 2 ^ 20"
  obtains ticket where "EncryptSessionTicketWithData g (Some nonce) tek psk age appData = Inr ticket"
proof -
  obtain a where a: "NewAEAD tek nonce = Inr a" using assms by (simp add: NewAEAD_def NewGCM_def)
  have "length (psk @ be 4 (unat age) @ appData @ be 4 (length appData)) \<le> gcm_max"
    using assms by (simp add: gcm_max_def)
  from AEAD_seal_total [OF assms(1) NewAEAD_wf [OF a] this, of 0 "[sessionTicketVersion]"]
  obtain ct where "AEAD_Seal g a 0 (psk @ be 4 (unat age) @ appData @ be 4 (length appData)) [sessionTicketVersion] = Inr ct" .
  then show thesis
    using assms a by (intro that) (simp add: EncryptSessionTicketWithData_def SessionTicketKeyLen_def Let_def)
qed



end
