(* ===== verification/HandshakeState.thy ===== *)
theory HandshakeState
  imports Transcript CertVerify SessionTicket
begin

text \<open>
  What the two handshakers of \<open>src/tls13gm/handshake.go\<close> share: the secrets they hand to
  the transport, the errors, and the way a method of a mutable object is written. A
  method takes the object and returns the object after the call together with its
  result, so that what an error leaves behind is part of the model.
\<close>

section \<open>Errors\<close>

datatype client_check =
    ClientDcidRequired
  | RootsRequired
  | ServerNameRequired
  | ErrHelloRetryRequest
  | CipherSuiteMismatch
  | NotTLS13
  | PskNotOffered
  | ServerKeyShareMissing
  | SecondHelloRetry
  | NotHelloRetry
  | AlpnMissing
  | AlpnCount
  | AlpnNotOffered
  | EmptyChain
  | LeafParse
  | PeerCallback
  | SignatureSchemeMismatch
  | LeafNil
  | LeafKeyType
  | BadCertificateVerify
  | ServerFinishedMismatch
  | TicketBeforeFinished

datatype server_check =
    ServerDcidRequired
  | ServerCertRequired
  | SuiteNotOffered
  | VersionNotOffered
  | SigAlgNotOffered
  | GroupNotOffered
  | ClientKeyShareMissing
  | AlpnNoOverlap
  | NoTicketKeys
  | PskCount
  | BinderMismatch
  | ClientFinishedMismatch
  | TicketKeyRequired
  | TicketKeyListEmpty

datatype hs_error =
    HsOrder
  | HsRead msg_error
  | HsMsgType
  | HsBody msg_error
  | HsKdf kdf_error
  | HsKeyShare keyshare_error
  | HsPoint point_error
  | HsEcdh keyexchange_error
  | HsAlpn alpn_error
  | HsCookie cookie_error
  | HsPsk psk_error
  | HsSign sign_error
  | HsTicket ticket_error
  | HsVerify verify_error
  | HsRand
  | HsKeyGen
  | HsClient client_check
  | HsServer server_check

section \<open>Methods\<close>

text \<open>
  \<open>tryS s r k\<close> is \<open>x, err := r; if err != nil { return err }\<close>: on an error the method
  returns it and leaves the object as \<open>s\<close>.
\<close>

definition tryS :: "'s \<Rightarrow> 'e + 'a \<Rightarrow> ('a \<Rightarrow> 's \<times> ('e + 'b)) \<Rightarrow> 's \<times> ('e + 'b)" where
  "tryS s r k = (case r of Inl e \<Rightarrow> (s, Inl e) | Inr a \<Rightarrow> k a)"

lemma tryS_simps [simp]: "tryS s (Inl e) k = (s, Inl e)" "tryS s (Inr a) k = k a"
  by (simp_all add: tryS_def)

lemma tryS_Inr_iff: "tryS s r k = (s', Inr b) \<longleftrightarrow> (\<exists>a. r = Inr a \<and> k a = (s', Inr b))"
  by (cases r) (auto simp: tryS_def)

lemma tryS_cases:
  "tryS s r k = (s', v) \<longleftrightarrow> (\<exists>e. r = Inl e \<and> s' = s \<and> v = Inl e) \<or> (\<exists>a. r = Inr a \<and> k a = (s', v))"
  by (cases r) (auto simp: tryS_def)

text \<open>
  Reading one message of an expected type and parsing its body. The Certificate step
  does not look at the type.
\<close>

definition readBody :: "(byte \<Rightarrow> bool) \<Rightarrow> (bytes \<Rightarrow> msg_error + 'm) \<Rightarrow> bytes \<Rightarrow> hs_error + (byte \<times> bytes \<times> 'm)" where
  "readBody expected unmarshalBody b =
    bindE (mapE HsRead (ReadHandshakeMessage b)) (\<lambda>((ty, body), _).
    if \<not> expected ty then Inl HsMsgType
    else bindE (mapE HsBody (unmarshalBody body)) (\<lambda>m. Inr (ty, body, m)))"

lemma readBody_Inr_iff:
  "readBody expected un b = Inr (ty, body, m) \<longleftrightarrow>
    (\<exists>n. ReadHandshakeMessage b = Inr ((ty, body), n)) \<and> expected ty \<and> un body = Inr m"
  by (auto simp: readBody_def bindE_Inr_iff split: if_splits)

section \<open>Secrets\<close>

record HandshakeSecrets =
  ClientInitialKeys :: "QUICPacketKeys option"
  ServerInitialKeys :: "QUICPacketKeys option"
  ClientEarlyKeys :: "QUICPacketKeys option"
  ClientHandshakeKeys :: "QUICPacketKeys option"
  ServerHandshakeKeys :: "QUICPacketKeys option"
  ClientApplicationKeys :: "QUICPacketKeys option"
  ServerApplicationKeys :: "QUICPacketKeys option"
  ClientApplicationTrafficSecret :: bytes
  ServerApplicationTrafficSecret :: bytes
  ClientHandshakeTrafficSecret :: bytes
  ServerHandshakeTrafficSecret :: bytes

definition initialSecrets :: "QUICPacketKeys \<Rightarrow> QUICPacketKeys \<Rightarrow> HandshakeSecrets" where
  "initialSecrets cInit sInit =
    \<lparr>ClientInitialKeys = Some cInit, ServerInitialKeys = Some sInit, ClientEarlyKeys = None,
     ClientHandshakeKeys = None, ServerHandshakeKeys = None, ClientApplicationKeys = None,
     ServerApplicationKeys = None, ClientApplicationTrafficSecret = [],
     ServerApplicationTrafficSecret = [], ClientHandshakeTrafficSecret = [],
     ServerHandshakeTrafficSecret = []\<rparr>"

definition ZeroBytes :: "bytes \<Rightarrow> bytes" where
  "ZeroBytes data = replicate (length data) 0"

definition HandshakeSecrets_Zero :: "HandshakeSecrets \<Rightarrow> HandshakeSecrets" where
  "HandshakeSecrets_Zero h =
    h\<lparr>ClientInitialKeys := map_option QUICPacketKeys_Zero (ClientInitialKeys h),
      ServerInitialKeys := map_option QUICPacketKeys_Zero (ServerInitialKeys h),
      ClientEarlyKeys := map_option QUICPacketKeys_Zero (ClientEarlyKeys h),
      ClientHandshakeKeys := map_option QUICPacketKeys_Zero (ClientHandshakeKeys h),
      ServerHandshakeKeys := map_option QUICPacketKeys_Zero (ServerHandshakeKeys h),
      ClientApplicationKeys := map_option QUICPacketKeys_Zero (ClientApplicationKeys h),
      ServerApplicationKeys := map_option QUICPacketKeys_Zero (ServerApplicationKeys h)\<rparr>"

definition HandshakeSecrets_ZeroAll :: "HandshakeSecrets \<Rightarrow> HandshakeSecrets" where
  "HandshakeSecrets_ZeroAll h =
    (let h = HandshakeSecrets_Zero h in
     h\<lparr>ClientApplicationTrafficSecret := ZeroBytes (ClientApplicationTrafficSecret h),
       ServerApplicationTrafficSecret := ZeroBytes (ServerApplicationTrafficSecret h),
       ClientHandshakeTrafficSecret := ZeroBytes (ClientHandshakeTrafficSecret h),
       ServerHandshakeTrafficSecret := ZeroBytes (ServerHandshakeTrafficSecret h)\<rparr>)"

definition zeroEphemeral :: "PrivateKey \<Rightarrow> PrivateKey" where
  "zeroEphemeral priv = priv\<lparr>D := map_option (\<lambda>_. 0) (D priv)\<rparr>"

definition DiscardEarlyKeys :: "HandshakeSecrets \<Rightarrow> HandshakeSecrets" where
  "DiscardEarlyKeys h = h\<lparr>ClientEarlyKeys := None\<rparr>"

definition equalConstantTime :: "bytes \<Rightarrow> bytes \<Rightarrow> bool" where
  "equalConstantTime a b \<longleftrightarrow> a = b"

section \<open>Initial keys\<close>

text \<open>Both constructors derive the Initial keys of both directions from the connection id.\<close>

definition deriveInitial :: "'x gm_sym_scheme \<Rightarrow> bytes \<Rightarrow> hs_error + HandshakeSecrets" where
  "deriveInitial g dcid =
    bindE (mapE HsKdf (DeriveQUICInitialSecrets g dcid)) (\<lambda>(clientIn, serverIn).
    bindE (mapE HsKdf (DeriveQUICPacketKeys g clientIn)) (\<lambda>cInit.
    bindE (mapE HsKdf (DeriveQUICPacketKeys g serverIn)) (\<lambda>sInit.
    Inr (initialSecrets cInit sInit))))"

lemma deriveInitial_total:
  assumes "sm3_ok g" and "dcid \<noteq> []"
  obtains cInit sInit where "deriveInitial g dcid = Inr (initialSecrets cInit sInit)"
    "packet_keys_wf cInit" "packet_keys_wf sInit"
proof -
  obtain c s where cs: "DeriveQUICInitialSecrets g dcid = Inr (c, s)" "length c = 32" "length s = 32"
    using DeriveQUICInitialSecrets_total [OF assms] .
  then have ne: "c \<noteq> []" "s \<noteq> []" by auto
  obtain ck where "DeriveQUICPacketKeys g c = Inr ck" using DeriveQUICPacketKeys_total [OF assms(1) ne(1)] .
  moreover obtain sk where "DeriveQUICPacketKeys g s = Inr sk" using DeriveQUICPacketKeys_total [OF assms(1) ne(2)] .
  ultimately show thesis
    using cs DeriveQUICPacketKeys_wf [OF assms(1)] by (intro that) (auto simp: deriveInitial_def)
qed

end
