(* ===== verification/ClientHandshake.thy ===== *)
theory ClientHandshake
  imports HandshakeState
begin

text \<open>
  The client handshaker of \<open>src/tls13gm/handshake.go\<close>. Each step-wise method is a
  function of the handshaker. Random bytes are arguments (None is a failed read), and so
  is the outcome of key generation. The peer-certificate callback is a function of the
  raw chain that answers whether it accepts. A nil slice that the code compares with nil
  is None.
\<close>

section \<open>State\<close>

datatype clientHandshakePhase =
    clientPhaseNone
  | clientAfterClientHello
  | clientAfterServerHello
  | clientAfterEncryptedExtensions
  | clientAfterCertificate
  | clientAfterCertificateVerify
  | clientAfterServerFinished
  | clientFailed

record ClientHandshaker =
  c_ephemeral :: PrivateKey
  c_transcript :: Transcript
  insecureSkipVerify :: bool
  rootPool :: "CertPool option"
  intermediates :: "CertPool option"
  serverName :: bytes
  verifyPeerCert :: "(bytes list \<Rightarrow> bool) option"
  c_handshakeSecret :: bytes
  c_masterSecret :: bytes
  c_resumptionMasterSecret :: bytes
  c_clientHSTraffic :: bytes
  c_serverHSTraffic :: bytes
  c_secrets :: HandshakeSecrets
  leafCert :: "X509 option"
  c_phase :: clientHandshakePhase
  c_localTransportParams :: "bytes option"
  c_peerTransportParams :: bytes
  clientHello1Full :: "bytes option"
  resumptionPSK :: "bytes option"
  resumptionIdentity :: bytes
  resumptionObfAge :: u32
  offerEarlyData :: bool
  pskMode :: bool
  earlyDataAccepted :: bool
  c_nextProtos :: "bytes list"
  c_negotiatedProto :: bytes
  clientFinishedSent :: bool

record ClientConfig =
  cc_DCID :: bytes
  cc_ServerName :: bytes
  cc_Roots :: "CertPool option"
  cc_Intermediates :: "CertPool option"
  cc_InsecureSkipVerify :: bool
  cc_VerifyPeerCertificate :: "(bytes list \<Rightarrow> bool) option"
  cc_NextProtos :: "bytes list"
  cc_TransportParameters :: "bytes option"
  cc_ResumptionPSK :: "bytes option"
  cc_ResumptionIdentity :: bytes
  cc_ResumptionObfuscatedTicketAge :: u32
  cc_ResumptionAppData :: bytes
  cc_EarlyData :: bool

section \<open>Construction\<close>

definition NewClientHandshakerWithConfig ::
  "'x x509_scheme \<Rightarrow> PrivateKey option \<Rightarrow> ClientConfig \<Rightarrow> hs_error + ClientHandshaker" where
  "NewClientHandshakerWithConfig g generated cfg =
    (if length (cc_DCID cfg) = 0 then Inl (HsClient ClientDcidRequired)
     else if \<not> cc_InsecureSkipVerify cfg \<and> cc_VerifyPeerCertificate cfg = None \<and> cc_Roots cfg = None
     then Inl (HsClient RootsRequired)
     else if \<not> cc_InsecureSkipVerify cfg \<and> cc_Roots cfg \<noteq> None \<and> cc_ServerName cfg = []
     then Inl (HsClient ServerNameRequired)
     else
       (case generated of
          None \<Rightarrow> Inl HsKeyGen
        | Some priv \<Rightarrow>
            bindE (deriveInitial g (cc_DCID cfg)) (\<lambda>initial.
            Inr \<lparr>c_ephemeral = priv,
                 c_transcript = NewTranscript,
                 insecureSkipVerify = cc_InsecureSkipVerify cfg,
                 rootPool = cc_Roots cfg,
                 intermediates = cc_Intermediates cfg,
                 serverName = cc_ServerName cfg,
                 verifyPeerCert = cc_VerifyPeerCertificate cfg,
                 c_handshakeSecret = [],
                 c_masterSecret = [],
                 c_resumptionMasterSecret = [],
                 c_clientHSTraffic = [],
                 c_serverHSTraffic = [],
                 c_secrets = initial,
                 leafCert = None,
                 c_phase = clientPhaseNone,
                 c_localTransportParams = cc_TransportParameters cfg,
                 c_peerTransportParams = [],
                 clientHello1Full = None,
                 resumptionPSK = cc_ResumptionPSK cfg,
                 resumptionIdentity = cc_ResumptionIdentity cfg,
                 resumptionObfAge = cc_ResumptionObfuscatedTicketAge cfg,
                 offerEarlyData = cc_EarlyData cfg,
                 pskMode = False,
                 earlyDataAccepted = False,
                 c_nextProtos = cc_NextProtos cfg,
                 c_negotiatedProto = [],
                 clientFinishedSent = False\<rparr>)))"

section \<open>ClientHello\<close>

definition pskIdentity :: "ClientHandshaker \<Rightarrow> PskIdentity" where
  "pskIdentity c = \<lparr>Identity = resumptionIdentity c, ObfuscatedTicketAge = resumptionObfAge c\<rparr>"

definition appendPreSharedKey ::
  "'x x509_scheme \<Rightarrow> ClientHandshaker \<Rightarrow> bytes \<Rightarrow> ClientHelloMsg \<Rightarrow> hs_error + bytes" where
  "appendPreSharedKey g c psk ch =
    (let identities = [pskIdentity c];
         ch = (if offerEarlyData c
               then ch\<lparr>ch_Extensions := ch_Extensions ch @ [\<lparr>etype = ExtensionTypeEarlyData, edata = []\<rparr>]\<rparr>
               else ch) in
     bindE (mapE HsBody (pskBinderTranscript ch identities)) (\<lambda>truncated.
     let prefix = Transcript_Bytes (c_transcript c) in
     bindE (mapE HsKdf (computeResumptionBinder g psk (prefix @ truncated))) (\<lambda>binder.
     bindE (mapE HsPsk (marshalPreSharedKeyExtension identities [binder])) (\<lambda>fullExt.
     let ch = ch\<lparr>ch_Extensions := ch_Extensions ch @ [\<lparr>etype = ExtensionTypePreSharedKey, edata = fullExt\<rparr>]\<rparr> in
     mapE HsBody (MarshalHandshakeMessage HandshakeTypeClientHello (ClientHello_marshalBody ch))))))"

definition helloExtensions :: "'x x509_scheme \<Rightarrow> ClientHandshaker \<Rightarrow> Extension list" where
  "helloExtensions g c =
    [\<lparr>etype = ExtensionTypeSupportedVersions, edata = [0x02, 0x03, 0x04]\<rparr>,
     \<lparr>etype = ExtensionTypeSignatureAlgorithms, edata = [0x00, 0x02] @ be 2 (unat SM2SigSM3)\<rparr>,
     \<lparr>etype = ExtensionTypeSupportedGroups, edata = [0x00, 0x02] @ be 2 (unat CurveSM2)\<rparr>,
     \<lparr>etype = ExtensionTypeKeyShare,
      edata = marshalClientKeyShare CurveSM2 (MarshalUncompressed g (Some (Public (c_ephemeral c))))\<rparr>,
     \<lparr>etype = ExtensionTypePSKKeyExchangeModes,
      edata = marshalPSKKeyExchangeModesExtension [PSKKeyExchangeModeDHEKE]\<rparr>]"

definition buildClientHello ::
  "'x x509_scheme \<Rightarrow> ClientHandshaker \<Rightarrow> bytes option \<Rightarrow> bytes option \<Rightarrow> hs_error + bytes" where
  "buildClientHello g c rnd cookie =
    (case rnd of
       None \<Rightarrow> Inl HsRand
     | Some random \<Rightarrow>
         bindE (if length (c_nextProtos c) > 0
                then bindE (mapE HsAlpn (marshalALPNExtension (c_nextProtos c))) (\<lambda>alpnExt.
                     Inr [\<lparr>etype = ExtensionTypeALPN, edata = alpnExt\<rparr>])
                else Inr []) (\<lambda>alpn.
         bindE (case cookie of
                  None \<Rightarrow> Inr []
                | Some ck \<Rightarrow>
                    bindE (mapE HsCookie (marshalCookieExtension ck)) (\<lambda>cookieExt.
                    Inr [\<lparr>etype = ExtensionTypeCookie, edata = cookieExt\<rparr>])) (\<lambda>cookies.
         let params = (case c_localTransportParams c of
                         None \<Rightarrow> []
                       | Some tp \<Rightarrow> [\<lparr>etype = ExtensionTypeQUICTransportParams, edata = tp\<rparr>]);
             ch = \<lparr>ch_LegacyVersion = VersionTLS12, ch_Random = random, ch_LegacySessionID = [],
                   CipherSuites = [TLS_SM4_GCM_SM3],
                   ch_Extensions = helloExtensions g c @ alpn @ cookies @ params\<rparr>
         in case resumptionPSK c of
              Some psk \<Rightarrow> appendPreSharedKey g c psk ch
            | None \<Rightarrow>
                mapE HsBody (MarshalHandshakeMessage HandshakeTypeClientHello (ClientHello_marshalBody ch)))))"

definition ClientHello ::
  "'x x509_scheme \<Rightarrow> ClientHandshaker \<Rightarrow> bytes option \<Rightarrow> ClientHandshaker \<times> (hs_error + bytes)" where
  "ClientHello g c rnd =
    (if c_phase c \<noteq> clientPhaseNone then (c, Inl HsOrder)
     else
       tryS (c\<lparr>c_phase := clientFailed\<rparr>) (buildClientHello g c rnd None) (\<lambda>full.
       let c = c\<lparr>clientHello1Full := Some full,
                 c_transcript := AddMessage (c_transcript c) HandshakeTypeClientHello (drop 4 full),
                 c_phase := clientAfterClientHello\<rparr>
       in case resumptionPSK c of
            Some psk \<Rightarrow>
              if offerEarlyData c then
                tryS (c\<lparr>c_secrets := (c_secrets c)\<lparr>ClientEarlyKeys := None\<rparr>, c_phase := clientFailed\<rparr>)
                  (mapE HsKdf (DeriveEarlyTrafficKeys g psk (Transcript_Sum g (c_transcript c)))) (\<lambda>k.
                (c\<lparr>c_secrets := (c_secrets c)\<lparr>ClientEarlyKeys := Some k\<rparr>\<rparr>, Inr full))
              else (c, Inr full)
          | None \<Rightarrow> (c, Inr full)))"

section \<open>The server's messages\<close>

definition ClientHandshaker_fail :: "ClientHandshaker \<Rightarrow> ClientHandshaker" where
  "ClientHandshaker_fail c = c\<lparr>c_phase := clientFailed\<rparr>"

text \<open>The key schedule of the ServerHello step, from the recorded message on.\<close>

definition deriveClientHandshakeKeys ::
  "'x x509_scheme \<Rightarrow> ClientHandshaker \<Rightarrow> bytes \<Rightarrow> ClientHandshaker \<times> (hs_error + unit)" where
  "deriveClientHandshakeKeys g c sharedSecret =
    (let earlyPSK = (if \<not> pskMode c then None else resumptionPSK c) in
     tryS (ClientHandshaker_fail c)
       (mapE HsKdf (DeriveEarlySecret g (case earlyPSK of None \<Rightarrow> [] | Some p \<Rightarrow> p))) (\<lambda>earlySecret.
     tryS (ClientHandshaker_fail (c\<lparr>c_handshakeSecret := []\<rparr>))
       (mapE HsKdf (DeriveHandshakeSecret g earlySecret sharedSecret)) (\<lambda>hs.
     let c = c\<lparr>c_handshakeSecret := hs\<rparr>; h = Transcript_Sum g (c_transcript c) in
     tryS (ClientHandshaker_fail (c\<lparr>c_clientHSTraffic := []\<rparr>))
       (mapE HsKdf (DeriveSecret g hs LabelClientHSTraffic h)) (\<lambda>cht.
     let c = c\<lparr>c_clientHSTraffic := cht\<rparr> in
     tryS (ClientHandshaker_fail (c\<lparr>c_serverHSTraffic := []\<rparr>))
       (mapE HsKdf (DeriveSecret g hs LabelServerHSTraffic h)) (\<lambda>sht.
     let c = c\<lparr>c_serverHSTraffic := sht\<rparr> in
     tryS (ClientHandshaker_fail (c\<lparr>c_secrets := (c_secrets c)\<lparr>ClientHandshakeKeys := None\<rparr>\<rparr>))
       (mapE HsKdf (DeriveQUICPacketKeys g cht)) (\<lambda>ck.
     let c = c\<lparr>c_secrets := (c_secrets c)\<lparr>ClientHandshakeKeys := Some ck\<rparr>\<rparr> in
     tryS (ClientHandshaker_fail (c\<lparr>c_secrets := (c_secrets c)\<lparr>ServerHandshakeKeys := None\<rparr>\<rparr>))
       (mapE HsKdf (DeriveQUICPacketKeys g sht)) (\<lambda>sk.
     (c\<lparr>c_secrets := (c_secrets c)\<lparr>ServerHandshakeKeys := Some sk,
                                   ClientHandshakeTrafficSecret := cht,
                                   ServerHandshakeTrafficSecret := sht\<rparr>,
        c_phase := clientAfterServerHello\<rparr>, Inr ()))))))))"

definition HandleServerHello ::
  "'x x509_scheme \<Rightarrow> ClientHandshaker \<Rightarrow> bytes \<Rightarrow> ClientHandshaker \<times> (hs_error + unit)" where
  "HandleServerHello g c serverHello =
    (if c_phase c \<noteq> clientAfterClientHello then (c, Inl HsOrder)
     else
       tryS c (readBody (\<lambda>ty. ty = HandshakeTypeServerHello) ServerHello_unmarshalBody serverHello)
         (\<lambda>(shType, shBody, sh).
       if CipherSuite sh \<noteq> TLS_SM4_GCM_SM3 then (c, Inl (HsClient CipherSuiteMismatch))
       else if sh_Random sh = helloRetryRequestRandom then (c, Inl (HsClient ErrHelloRetryRequest))
       else
         (let sv = findExtension (sh_Extensions sh) ExtensionTypeSupportedVersions in
          if length sv \<noteq> 2 \<or> (of_nat (unbe sv) :: u16) \<noteq> VersionTLS13
          then (c, Inl (HsClient NotTLS13))
          else if findExtension (sh_Extensions sh) ExtensionTypePreSharedKey \<noteq> [] \<and> resumptionPSK c = None
          then (c, Inl (HsClient PskNotOffered))
          else
            (let c = (if findExtension (sh_Extensions sh) ExtensionTypePreSharedKey \<noteq> []
                      then c\<lparr>pskMode := True\<rparr> else c);
                 ks = findExtension (sh_Extensions sh) ExtensionTypeKeyShare in
             if ks = [] then (c, Inl (HsClient ServerKeyShareMissing))
             else
               tryS c (mapE HsKeyShare (parseServerKeyShare ks CurveSM2)) (\<lambda>serverKeyBytes.
               tryS c (mapE HsPoint (UnmarshalUncompressed g serverKeyBytes)) (\<lambda>serverPub.
               tryS c (mapE HsEcdh (CurveSM2ECDHE g (Some (c_ephemeral c)) (Some serverPub))) (\<lambda>sharedSecret.
               deriveClientHandshakeKeys g
                 (c\<lparr>c_transcript := AddMessage (c_transcript c) shType shBody\<rparr>) sharedSecret)))))))"

definition HandleHelloRetryRequest ::
  "'x x509_scheme \<Rightarrow> ClientHandshaker \<Rightarrow> bytes option \<Rightarrow> bytes \<Rightarrow> ClientHandshaker \<times> (hs_error + bytes)" where
  "HandleHelloRetryRequest g c rnd hrr =
    (if c_phase c \<noteq> clientAfterClientHello then (c, Inl HsOrder)
     else
       (case clientHello1Full c of
          None \<Rightarrow> (c, Inl (HsClient SecondHelloRetry))
        | Some ch1 \<Rightarrow>
            tryS c (readBody (\<lambda>ty. ty = HandshakeTypeServerHello) ServerHello_unmarshalBody hrr)
              (\<lambda>(hrrType, hrrBody, hrrMsg).
            if sh_Random hrrMsg \<noteq> helloRetryRequestRandom then (c, Inl (HsClient NotHelloRetry))
            else
              (let cookieData = findExtension (sh_Extensions hrrMsg) ExtensionTypeCookie in
               tryS c (if cookieData \<noteq> []
                       then bindE (mapE HsCookie (parseCookieExtension cookieData)) (\<lambda>ck. Inr (Some ck))
                       else Inr None) (\<lambda>cookie.
               let c = c\<lparr>c_transcript := ResetForHelloRetry g (c_transcript c) ch1 hrr,
                         offerEarlyData := False,
                         c_secrets := DiscardEarlyKeys (c_secrets c)\<rparr> in
               tryS c (buildClientHello g c rnd cookie) (\<lambda>ch2.
               (c\<lparr>c_transcript := AddMessage (c_transcript c) HandshakeTypeClientHello (drop 4 ch2),
                  clientHello1Full := None,
                  c_phase := clientAfterClientHello\<rparr>, Inr ch2)))))))"

definition HandleEncryptedExtensions ::
  "ClientHandshaker \<Rightarrow> bytes \<Rightarrow> ClientHandshaker \<times> (hs_error + unit)" where
  "HandleEncryptedExtensions c encryptedExt =
    (if c_phase c \<noteq> clientAfterServerHello then (c, Inl HsOrder)
     else
       tryS c (readBody (\<lambda>ty. ty = HandshakeTypeEncryptedExtensions) EncryptedExtensions_unmarshalBody encryptedExt)
         (\<lambda>(eeType, eeBody, ee).
       let tp = findExtension (ee_Extensions ee) ExtensionTypeQUICTransportParams;
           c = (if tp \<noteq> [] then c\<lparr>c_peerTransportParams := tp\<rparr> else c) in
       tryS c
         (if length (c_nextProtos c) > 0 then
            (let alpn = findExtension (ee_Extensions ee) ExtensionTypeALPN in
             if alpn = [] then Inl (HsClient AlpnMissing)
             else
               bindE (mapE HsAlpn (parseALPNExtension alpn)) (\<lambda>selected.
               if length selected \<noteq> 1 then Inl (HsClient AlpnCount)
               else if \<not> list_ex (\<lambda>p. p = selected ! 0) (c_nextProtos c)
               then Inl (HsClient AlpnNotOffered)
               else Inr (selected ! 0)))
          else Inr (c_negotiatedProto c)) (\<lambda>proto.
       let c = c\<lparr>c_negotiatedProto := proto\<rparr>;
           c = (if offerEarlyData c \<and> pskMode c \<and> hasExtension (ee_Extensions ee) ExtensionTypeEarlyData
                then c\<lparr>earlyDataAccepted := True\<rparr> else c);
           c = c\<lparr>c_transcript := AddMessage (c_transcript c) eeType eeBody\<rparr> in
       (c\<lparr>c_phase := (if pskMode c then clientAfterCertificateVerify
                      else clientAfterEncryptedExtensions)\<rparr>, Inr ()))))"

text \<open>
  The options \<open>HandleCertificate\<close> gives to \<open>smx509.Verify\<close>: the configured
  intermediates followed by those of the message that parse.
\<close>

definition chainOptions :: "'x x509_scheme \<Rightarrow> ClientHandshaker \<Rightarrow> CertificateEntry list \<Rightarrow> VerifyOptions" where
  "chainOptions g c list =
    (let pool = foldl AddCert NewCertPool
           ((case intermediates c of None \<Rightarrow> [] | Some p \<Rightarrow> map Some (Certificates p))
            @ map (\<lambda>e. ParseCertificate g (Certificate e)) (drop 1 list))
     in \<lparr>DNSName = serverName c, Roots = rootPool c,
         Intermediates = (if length list > 1 \<or> intermediates c \<noteq> None then Some pool else None),
         KeyUsages = [], CurrentTime = None\<rparr>)"

definition HandleCertificate ::
  "'x x509_scheme \<Rightarrow> ClientHandshaker \<Rightarrow> bytes \<Rightarrow> ClientHandshaker \<times> (hs_error + unit)" where
  "HandleCertificate g c certificate =
    (if c_phase c \<noteq> clientAfterEncryptedExtensions then (c, Inl HsOrder)
     else
       tryS c (readBody (\<lambda>ty. True) Certificate_unmarshalBody certificate) (\<lambda>(_, certBody, certMsg).
       if length (CertificateList certMsg) = 0 then (c, Inl (HsClient EmptyChain))
       else
         (case ParseCertificate g (Certificate (CertificateList certMsg ! 0)) of
            None \<Rightarrow> (c, Inl (HsClient LeafParse))
          | Some leaf \<Rightarrow>
              tryS c
                (if \<not> insecureSkipVerify c \<and> \<not> (rootPool c = None \<and> verifyPeerCert c \<noteq> None)
                 then mapE HsVerify (Verify g (Some leaf) (chainOptions g c (CertificateList certMsg)))
                 else Inr ()) (\<lambda>_.
              tryS c
                (case verifyPeerCert c of
                   None \<Rightarrow> Inr ()
                 | Some f \<Rightarrow>
                     if f (map Certificate (CertificateList certMsg)) then Inr ()
                     else Inl (HsClient PeerCallback)) (\<lambda>_.
              (c\<lparr>c_transcript := AddMessage (c_transcript c) HandshakeTypeCertificate certBody,
                 leafCert := Some leaf,
                 c_phase := clientAfterCertificate\<rparr>, Inr ()))))))"

definition HandleCertificateVerify ::
  "'x x509_scheme \<Rightarrow> ClientHandshaker \<Rightarrow> bytes \<Rightarrow> ClientHandshaker \<times> (hs_error + unit)" where
  "HandleCertificateVerify g c certVerify =
    (if c_phase c \<noteq> clientAfterCertificate then (c, Inl HsOrder)
     else
       tryS c (readBody (\<lambda>ty. ty = HandshakeTypeCertificateVerify) CertificateVerify_unmarshalBody certVerify)
         (\<lambda>(cvType, cvBody, cv).
       if SignatureScheme cv \<noteq> SM2SigSM3 then (c, Inl (HsClient SignatureSchemeMismatch))
       else
         (case leafCert c of
            None \<Rightarrow> (c, Inl (HsClient LeafNil))
          | Some leaf \<Rightarrow>
              (case CertKey leaf of
                 OtherKey \<Rightarrow> (c, Inl (HsClient LeafKeyType))
               | EcdsaKey serverPubCert \<Rightarrow>
                   if \<not> VerifyCertificateVerify g serverPubCert ServerCertificateVerifyContext
                        (Transcript_Sum g (c_transcript c)) (Signature cv)
                   then (c, Inl (HsClient BadCertificateVerify))
                   else
                     (c\<lparr>c_transcript := AddMessage (c_transcript c) cvType cvBody,
                        c_phase := clientAfterCertificateVerify\<rparr>, Inr ())))))"

text \<open>The key schedule of the Finished step, from the recorded message on.\<close>

definition deriveClientApplicationKeys ::
  "'x x509_scheme \<Rightarrow> ClientHandshaker \<Rightarrow> ClientHandshaker \<times> (hs_error + unit)" where
  "deriveClientApplicationKeys g c =
    tryS (ClientHandshaker_fail (c\<lparr>c_masterSecret := []\<rparr>))
      (mapE HsKdf (DeriveMasterSecret g (c_handshakeSecret c))) (\<lambda>ms.
    let c = c\<lparr>c_masterSecret := ms\<rparr>; h = Transcript_Sum g (c_transcript c) in
    tryS (ClientHandshaker_fail c) (mapE HsKdf (DeriveSecret g ms LabelClientAPTraffic h)) (\<lambda>cAP.
    tryS (ClientHandshaker_fail c) (mapE HsKdf (DeriveSecret g ms LabelServerAPTraffic h)) (\<lambda>sAP.
    let c = c\<lparr>c_secrets := (c_secrets c)\<lparr>ClientApplicationTrafficSecret := cAP,
                                         ServerApplicationTrafficSecret := sAP\<rparr>\<rparr> in
    tryS (ClientHandshaker_fail (c\<lparr>c_secrets := (c_secrets c)\<lparr>ClientApplicationKeys := None\<rparr>\<rparr>))
      (mapE HsKdf (DeriveQUICPacketKeys g cAP)) (\<lambda>ck.
    let c = c\<lparr>c_secrets := (c_secrets c)\<lparr>ClientApplicationKeys := Some ck\<rparr>\<rparr> in
    tryS (ClientHandshaker_fail (c\<lparr>c_secrets := (c_secrets c)\<lparr>ServerApplicationKeys := None\<rparr>\<rparr>))
      (mapE HsKdf (DeriveQUICPacketKeys g sAP)) (\<lambda>sk.
    (c\<lparr>c_secrets := (c_secrets c)\<lparr>ServerApplicationKeys := Some sk\<rparr>,
       c_phase := clientAfterServerFinished\<rparr>, Inr ()))))))"

definition HandleServerFinished ::
  "'x x509_scheme \<Rightarrow> ClientHandshaker \<Rightarrow> bytes \<Rightarrow> ClientHandshaker \<times> (hs_error + unit)" where
  "HandleServerFinished g c finished =
    (if c_phase c \<noteq> clientAfterCertificateVerify then (c, Inl HsOrder)
     else
       tryS c (readBody (\<lambda>ty. ty = HandshakeTypeFinished) Finished_unmarshalBody finished)
         (\<lambda>(finType, finBody, fin).
       tryS c (mapE HsKdf (DeriveFinishedKey g (c_serverHSTraffic c))) (\<lambda>serverFinishedKey.
       tryS c (mapE HsKdf (ComputeFinishedVerifyData g serverFinishedKey
                (Transcript_Sum g (c_transcript c)))) (\<lambda>expected.
       if \<not> equalConstantTime expected (VerifyData fin)
       then (c, Inl (HsClient ServerFinishedMismatch))
       else
         deriveClientApplicationKeys g
           (c\<lparr>c_transcript := AddMessage (c_transcript c) finType finBody\<rparr>)))))"

definition HandleServerFlight ::
  "'x x509_scheme \<Rightarrow> ClientHandshaker \<Rightarrow> bytes \<Rightarrow> bytes \<Rightarrow> bytes \<Rightarrow> bytes \<Rightarrow> bytes
    \<Rightarrow> ClientHandshaker \<times> (hs_error + unit)" where
  "HandleServerFlight g c serverHello encryptedExt certificate certVerify finished =
    (case HandleServerHello g c serverHello of
       (c, Inl e) \<Rightarrow> (c, Inl e)
     | (c, Inr _) \<Rightarrow>
         (case HandleEncryptedExtensions c encryptedExt of
            (c, Inl e) \<Rightarrow> (c, Inl e)
          | (c, Inr _) \<Rightarrow>
              if \<not> pskMode c then
                (case HandleCertificate g c certificate of
                   (c, Inl e) \<Rightarrow> (c, Inl e)
                 | (c, Inr _) \<Rightarrow>
                     (case HandleCertificateVerify g c certVerify of
                        (c, Inl e) \<Rightarrow> (c, Inl e)
                      | (c, Inr _) \<Rightarrow> HandleServerFinished g c finished))
              else HandleServerFinished g c finished))"

section \<open>The client's last message and the ticket\<close>

definition ClientFinished ::
  "'x x509_scheme \<Rightarrow> ClientHandshaker \<Rightarrow> ClientHandshaker \<times> (hs_error + bytes)" where
  "ClientFinished g c =
    (if c_phase c \<noteq> clientAfterServerFinished then (c, Inl HsOrder)
     else
       tryS c (mapE HsKdf (DeriveFinishedKey g (c_clientHSTraffic c))) (\<lambda>finishedKey.
       tryS c (mapE HsKdf (ComputeFinishedVerifyData g finishedKey
                (Transcript_Sum g (c_transcript c)))) (\<lambda>verifyData.
       tryS c (mapE HsBody (MarshalHandshakeMessage HandshakeTypeFinished
                (Finished_marshalBody \<lparr>VerifyData = verifyData\<rparr>))) (\<lambda>full.
       (c\<lparr>c_transcript := AddMessage (c_transcript c) HandshakeTypeFinished (drop 4 full),
          clientFinishedSent := True\<rparr>, Inr full)))))"

definition HandleNewSessionTicket ::
  "'x x509_scheme \<Rightarrow> ClientHandshaker \<Rightarrow> bytes \<Rightarrow> ClientHandshaker \<times> (hs_error + (bytes \<times> bytes \<times> u32))" where
  "HandleNewSessionTicket g c nstBody =
    (if \<not> clientFinishedSent c then (c, Inl (HsClient TicketBeforeFinished))
     else
       tryS c (mapE HsBody (NewSessionTicket_unmarshalBody nstBody)) (\<lambda>msg.
       tryS c (mapE HsKdf (DeriveResumptionMasterSecret g (c_masterSecret c)
                (Transcript_Sum g (c_transcript c)))) (\<lambda>rms.
       let c = c\<lparr>c_resumptionMasterSecret := rms\<rparr> in
       tryS c (mapE HsKdf (DeriveResumptionPSK g rms (nst_TicketNonce msg))) (\<lambda>psk.
       (c, Inr (Ticket msg, psk, TicketAgeAdd msg))))))"

definition ClientHandshaker_DiscardEarlyKeys :: "ClientHandshaker \<Rightarrow> ClientHandshaker" where
  "ClientHandshaker_DiscardEarlyKeys c = c\<lparr>c_secrets := DiscardEarlyKeys (c_secrets c)\<rparr>"

definition ClientHandshaker_Zero :: "ClientHandshaker \<Rightarrow> ClientHandshaker" where
  "ClientHandshaker_Zero c =
    c\<lparr>c_handshakeSecret := ZeroBytes (c_handshakeSecret c),
      c_masterSecret := ZeroBytes (c_masterSecret c),
      c_resumptionMasterSecret := ZeroBytes (c_resumptionMasterSecret c),
      c_clientHSTraffic := ZeroBytes (c_clientHSTraffic c),
      c_serverHSTraffic := ZeroBytes (c_serverHSTraffic c),
      resumptionPSK := map_option ZeroBytes (resumptionPSK c),
      resumptionIdentity := ZeroBytes (resumptionIdentity c),
      c_ephemeral := zeroEphemeral (c_ephemeral c),
      c_secrets := HandshakeSecrets_Zero (c_secrets c)\<rparr>"

end
