(* ===== verification/ClientSafety.thy ===== *)
theory ClientSafety
  imports ClientHandshake "HOL-Library.Sublist"
begin

text \<open>
  What a client knows when it has application keys, whatever messages it was fed and in
  whatever order its methods were called. The methods form a step relation; an invariant
  of the reachable handshakers records how the server was authenticated.
\<close>

section \<open>Calls\<close>

text \<open>Every state-changing method, up to the final \<open>Zero\<close>.\<close>

inductive client_step :: "'x x509_scheme \<Rightarrow> ClientHandshaker \<Rightarrow> ClientHandshaker \<Rightarrow> bool" for g where
  step_ClientHello: "client_step g c (fst (ClientHello g c rnd))"
| step_ServerHello: "client_step g c (fst (HandleServerHello g c m))"
| step_HelloRetry: "client_step g c (fst (HandleHelloRetryRequest g c rnd m))"
| step_EncryptedExtensions: "client_step g c (fst (HandleEncryptedExtensions c m))"
| step_Certificate: "client_step g c (fst (HandleCertificate g c m))"
| step_CertificateVerify: "client_step g c (fst (HandleCertificateVerify g c m))"
| step_ServerFinished: "client_step g c (fst (HandleServerFinished g c m))"
| step_ClientFinished: "client_step g c (fst (ClientFinished g c))"
| step_NewSessionTicket: "client_step g c (fst (HandleNewSessionTicket g c m))"
| step_DiscardEarlyKeys: "client_step g c (ClientHandshaker_DiscardEarlyKeys c)"

abbreviation client_steps :: "'x x509_scheme \<Rightarrow> ClientHandshaker \<Rightarrow> ClientHandshaker \<Rightarrow> bool" where
  "client_steps g \<equiv> (client_step g)\<^sup>*\<^sup>*"

section \<open>Evidence\<close>

definition msg_bytes :: "byte \<Rightarrow> bytes \<Rightarrow> bytes" where
  "msg_bytes ty body = ty # be 3 (length body) @ body"

lemma Bytes_AddMessage_msg: "Transcript_Bytes (AddMessage t ty body) = Transcript_Bytes t @ msg_bytes ty body"
  by (simp add: msg_bytes_def)

text \<open>The checks the configuration demands of a certificate chain.\<close>

definition trusted_chain :: "'x x509_scheme \<Rightarrow> ClientHandshaker \<Rightarrow> CertificateEntry list \<Rightarrow> X509 \<Rightarrow> bool" where
  "trusted_chain g c list leaf \<longleftrightarrow>
     list \<noteq> [] \<and> ParseCertificate g (Certificate (list ! 0)) = Some leaf
     \<and> (\<not> insecureSkipVerify c \<and> \<not> (rootPool c = None \<and> verifyPeerCert c \<noteq> None)
         \<longrightarrow> Verify g (Some leaf) (chainOptions g c list) = Inr ())
     \<and> (\<forall>f. verifyPeerCert c = Some f \<longrightarrow> f (map Certificate list))"

definition cert_recorded :: "'x x509_scheme \<Rightarrow> ClientHandshaker \<Rightarrow> bool" where
  "cert_recorded g c \<longleftrightarrow>
    (\<exists>t body m leaf. Transcript_Bytes (c_transcript c) = t @ msg_bytes HandshakeTypeCertificate body
       \<and> Certificate_unmarshalBody body = Inr m \<and> trusted_chain g c (CertificateList m) leaf
       \<and> leafCert c = Some leaf)"

definition cert_auth :: "'x x509_scheme \<Rightarrow> ClientHandshaker \<Rightarrow> bool" where
  "cert_auth g c \<longleftrightarrow>
    (\<exists>t body m leaf pub cvBody cv.
       prefix (t @ msg_bytes HandshakeTypeCertificate body @ msg_bytes HandshakeTypeCertificateVerify cvBody)
         (Transcript_Bytes (c_transcript c))
       \<and> Certificate_unmarshalBody body = Inr m \<and> trusted_chain g c (CertificateList m) leaf
       \<and> CertKey leaf = EcdsaKey pub \<and> CertificateVerify_unmarshalBody cvBody = Inr cv
       \<and> VerifyCertificateVerify g pub ServerCertificateVerifyContext
            (sm3_Sum g (t @ msg_bytes HandshakeTypeCertificate body)) (Signature cv))"

definition psk_keyed :: "'x x509_scheme \<Rightarrow> ClientHandshaker \<Rightarrow> bool" where
  "psk_keyed g c \<longleftrightarrow>
    (\<exists>psk es ss. resumptionPSK c = Some psk \<and> DeriveEarlySecret g psk = Inr es
       \<and> DeriveHandshakeSecret g es ss = Inr (c_handshakeSecret c))"

definition finished_auth :: "'x x509_scheme \<Rightarrow> ClientHandshaker \<Rightarrow> bool" where
  "finished_auth g c \<longleftrightarrow>
    (\<exists>t fk vd. prefix (t @ msg_bytes HandshakeTypeFinished vd) (Transcript_Bytes (c_transcript c))
       \<and> DeriveFinishedKey g (c_serverHSTraffic c) = Inr fk
       \<and> ComputeFinishedVerifyData g fk (sm3_Sum g t) = Inr vd)"

definition server_auth :: "'x x509_scheme \<Rightarrow> ClientHandshaker \<Rightarrow> bool" where
  "server_auth g c \<longleftrightarrow> (if pskMode c then psk_keyed g c else cert_auth g c)"

section \<open>Invariant\<close>

text \<open>The phases in which the handshake secret is set and the transcript only grows.\<close>

fun keyed_phase :: "clientHandshakePhase \<Rightarrow> bool" where
  "keyed_phase clientPhaseNone = False"
| "keyed_phase clientAfterClientHello = False"
| "keyed_phase clientFailed = False"
| "keyed_phase _ = True"

fun verified_phase :: "clientHandshakePhase \<Rightarrow> bool" where
  "verified_phase clientAfterCertificateVerify = True"
| "verified_phase clientAfterServerFinished = True"
| "verified_phase _ = False"

definition has_app_keys :: "ClientHandshaker \<Rightarrow> bool" where
  "has_app_keys c \<longleftrightarrow> c_phase c = clientAfterServerFinished
     \<or> ClientApplicationKeys (c_secrets c) \<noteq> None \<or> ServerApplicationKeys (c_secrets c) \<noteq> None"

definition client_inv :: "'x x509_scheme \<Rightarrow> ClientHandshaker \<Rightarrow> bool" where
  "client_inv g c \<longleftrightarrow>
     transcript_ok (c_transcript c)
     \<and> (pskMode c \<longrightarrow> resumptionPSK c \<noteq> None)
     \<and> (keyed_phase (c_phase c) \<and> pskMode c \<longrightarrow> psk_keyed g c)
     \<and> (c_phase c = clientAfterCertificate \<longrightarrow> cert_recorded g c)
     \<and> (verified_phase (c_phase c) \<longrightarrow> server_auth g c)
     \<and> (has_app_keys c \<longrightarrow> c_phase c \<in> {clientAfterServerFinished, clientFailed}
          \<and> server_auth g c \<and> finished_auth g c)"

text \<open>What the evidence depends on: the configuration, the secrets and the transcript.\<close>

definition same_config :: "ClientHandshaker \<Rightarrow> ClientHandshaker \<Rightarrow> bool" where
  "same_config c c' \<longleftrightarrow>
     insecureSkipVerify c' = insecureSkipVerify c \<and> rootPool c' = rootPool c
     \<and> intermediates c' = intermediates c \<and> serverName c' = serverName c
     \<and> verifyPeerCert c' = verifyPeerCert c \<and> resumptionPSK c' = resumptionPSK c"

definition grows :: "ClientHandshaker \<Rightarrow> ClientHandshaker \<Rightarrow> bool" where
  "grows c c' \<longleftrightarrow>
     same_config c c' \<and> c_handshakeSecret c' = c_handshakeSecret c
     \<and> c_serverHSTraffic c' = c_serverHSTraffic c \<and> pskMode c' = pskMode c
     \<and> prefix (Transcript_Bytes (c_transcript c)) (Transcript_Bytes (c_transcript c'))"

lemma chainOptions_cong: "same_config c c' \<Longrightarrow> chainOptions g c' list = chainOptions g c list"
  by (simp add: same_config_def chainOptions_def)

lemma trusted_chain_cong: "same_config c c' \<Longrightarrow> trusted_chain g c list leaf \<Longrightarrow> trusted_chain g c' list leaf"
  unfolding trusted_chain_def using chainOptions_cong [of c c' g list] by (auto simp: same_config_def)

lemma grows_cert_auth: "grows c c' \<Longrightarrow> cert_auth g c \<Longrightarrow> cert_auth g c'"
  unfolding grows_def cert_auth_def using trusted_chain_cong by (meson prefix_order.trans)

lemma grows_psk_keyed: "grows c c' \<Longrightarrow> psk_keyed g c \<Longrightarrow> psk_keyed g c'"
  by (simp add: grows_def same_config_def psk_keyed_def)

lemma grows_server_auth: "grows c c' \<Longrightarrow> server_auth g c \<Longrightarrow> server_auth g c'"
  using grows_cert_auth [of c c' g] grows_psk_keyed [of c c' g] by (simp add: server_auth_def grows_def)

lemma grows_finished_auth: "grows c c' \<Longrightarrow> finished_auth g c \<Longrightarrow> finished_auth g c'"
  unfolding grows_def finished_auth_def by (metis prefix_order.trans)

section \<open>Every call preserves the invariant\<close>

text \<open>A call that leaves phase, keys and transcript alone.\<close>

lemma inv_quiet:
  assumes "client_inv g c" and "grows c c'" and "c_phase c' = c_phase c"
    and "c_transcript c' = c_transcript c" and "leafCert c' = leafCert c"
    and "ClientApplicationKeys (c_secrets c') = ClientApplicationKeys (c_secrets c)"
    and "ServerApplicationKeys (c_secrets c') = ServerApplicationKeys (c_secrets c)"
  shows "client_inv g c'"
proof -
  have "same_config c c'" "pskMode c' = pskMode c" using assms(2) by (simp_all add: grows_def)
  moreover from this have "cert_recorded g c \<Longrightarrow> cert_recorded g c'"
    using assms(4,5) trusted_chain_cong [of c c' g] unfolding cert_recorded_def by metis
  ultimately show ?thesis
    using assms grows_server_auth [OF assms(2), of g] grows_finished_auth [OF assms(2), of g]
      grows_psk_keyed [OF assms(2), of g]
    unfolding client_inv_def has_app_keys_def same_config_def by auto
qed

text \<open>A call that fails for good before there are application keys.\<close>

lemma inv_failed:
  assumes "client_inv g c" and "\<not> has_app_keys c" and "c_phase c' = clientFailed"
    and "transcript_ok (c_transcript c')" and "pskMode c' \<longrightarrow> resumptionPSK c' \<noteq> None"
    and "ClientApplicationKeys (c_secrets c') = ClientApplicationKeys (c_secrets c)"
    and "ServerApplicationKeys (c_secrets c') = ServerApplicationKeys (c_secrets c)"
  shows "client_inv g c'"
  using assms by (simp add: client_inv_def has_app_keys_def)

lemma no_app_keys:
  "client_inv g c \<Longrightarrow> c_phase c \<notin> {clientAfterServerFinished, clientFailed} \<Longrightarrow> \<not> has_app_keys c"
  by (auto simp: client_inv_def)

lemma grows_refl_fields:
  "same_config c c' \<Longrightarrow> c_handshakeSecret c' = c_handshakeSecret c \<Longrightarrow> c_serverHSTraffic c' = c_serverHSTraffic c
    \<Longrightarrow> pskMode c' = pskMode c \<Longrightarrow> Transcript_Bytes (c_transcript c') = Transcript_Bytes (c_transcript c) @ b
    \<Longrightarrow> grows c c'"
  by (simp add: grows_def)

lemma inv_ClientHello:
  assumes "client_inv g c"
  shows "client_inv g (fst (ClientHello g c rnd))"
proof (cases "c_phase c = clientPhaseNone")
  case True
  then have "\<not> has_app_keys c" using no_app_keys [OF assms] by simp
  with True assms show ?thesis
    by (auto simp: ClientHello_def client_inv_def has_app_keys_def tryS_def Let_def split: sum.splits option.splits)
qed (use assms in \<open>simp add: ClientHello_def\<close>)

lemma inv_HelloRetry:
  assumes "client_inv g c"
  shows "client_inv g (fst (HandleHelloRetryRequest g c rnd m))"
proof (cases "c_phase c = clientAfterClientHello")
  case True
  then have "\<not> has_app_keys c" using no_app_keys [OF assms] by simp
  with True assms show ?thesis
    by (auto simp: HandleHelloRetryRequest_def client_inv_def has_app_keys_def tryS_def Let_def DiscardEarlyKeys_def
        split: sum.splits option.splits)
qed (use assms in \<open>simp add: HandleHelloRetryRequest_def\<close>)

lemma inv_deriveClientHandshakeKeys:
  assumes "client_inv g c" and "\<not> has_app_keys c"
  shows "client_inv g (fst (deriveClientHandshakeKeys g c ss))"
proof -
  have "psk_keyed g (fst (deriveClientHandshakeKeys g c ss))"
    if "pskMode c" "resumptionPSK c \<noteq> None" "c_phase (fst (deriveClientHandshakeKeys g c ss)) \<noteq> clientFailed"
    using that unfolding psk_keyed_def deriveClientHandshakeKeys_def ClientHandshaker_fail_def
    by (auto simp: tryS_def Let_def split: sum.splits if_splits)
  then show ?thesis
    using assms
    by (auto simp: deriveClientHandshakeKeys_def ClientHandshaker_fail_def client_inv_def has_app_keys_def
        tryS_def Let_def split: sum.splits)
qed

lemma inv_HandleServerHello:
  assumes "client_inv g c"
  shows "client_inv g (fst (HandleServerHello g c m))"
proof (cases "c_phase c = clientAfterClientHello")
  case True
  then have n: "\<not> has_app_keys c" using no_app_keys [OF assms] by simp
  have d: "client_inv g (fst (deriveClientHandshakeKeys g
      (c\<lparr>pskMode := b, c_transcript := AddMessage (c_transcript c) ty body\<rparr>) ss))"
    if "b \<longrightarrow> resumptionPSK c \<noteq> None" for b ty body ss
    using that n True assms
    by (intro inv_deriveClientHandshakeKeys) (auto simp: client_inv_def has_app_keys_def)
  have e: "client_inv g (c\<lparr>pskMode := True\<rparr>)" if "resumptionPSK c \<noteq> None"
    using that n True assms by (auto simp: client_inv_def has_app_keys_def)
  have u: "c\<lparr>c_transcript := t\<rparr> = c\<lparr>pskMode := pskMode c, c_transcript := t\<rparr>" for t by simp
  have p: "pskMode c \<longrightarrow> resumptionPSK c \<noteq> None" using assms by (simp add: client_inv_def)
  show ?thesis
    using True assms d e d [OF p, folded u]
    by (auto simp: HandleServerHello_def tryS_def Let_def split: sum.splits)
qed (use assms in \<open>simp add: HandleServerHello_def\<close>)

lemma inv_EncryptedExtensions:
  assumes "client_inv g c"
  shows "client_inv g (fst (HandleEncryptedExtensions c m))"
proof (cases "c_phase c = clientAfterServerHello")
  case True
  then have n: "\<not> has_app_keys c" using no_app_keys [OF assms] by simp
  have k: "pskMode c \<Longrightarrow> psk_keyed g c" using assms True by (simp add: client_inv_def)
  show ?thesis
    using True assms n k
    by (auto simp: HandleEncryptedExtensions_def client_inv_def has_app_keys_def server_auth_def psk_keyed_def
        tryS_def Let_def split: sum.splits)
qed (use assms in \<open>simp add: HandleEncryptedExtensions_def\<close>)

lemma inv_Certificate:
  assumes "client_inv g c"
  shows "client_inv g (fst (HandleCertificate g c m))"
proof (cases "HandleCertificate g c m")
  case (Pair c' r)
  show ?thesis
  proof (cases r)
    case (Inl e)
    then have "c' = c"
      using Pair by (auto simp: HandleCertificate_def tryS_cases split: if_splits option.splits)
    then show ?thesis using Pair assms by simp
  next
    case (Inr u)
    with Pair obtain ty body cm leaf where ph: "c_phase c = clientAfterEncryptedExtensions"
      and un: "Certificate_unmarshalBody body = Inr cm"
      and tr: "trusted_chain g c (CertificateList cm) leaf"
      and c': "c' = c\<lparr>c_transcript := AddMessage (c_transcript c) HandshakeTypeCertificate body,
        leafCert := Some leaf, c_phase := clientAfterCertificate\<rparr>"
      by (auto simp: HandleCertificate_def trusted_chain_def tryS_Inr_iff readBody_Inr_iff
          split: if_splits option.splits)
    have n: "\<not> has_app_keys c" using no_app_keys [OF assms] ph by simp
    have "trusted_chain g c' (CertificateList cm) leaf"
      using tr by (rule trusted_chain_cong [rotated]) (simp add: c' same_config_def)
    then have "cert_recorded g c'"
      unfolding cert_recorded_def using un by (auto simp: c' msg_bytes_def)
    moreover have "psk_keyed g c \<Longrightarrow> psk_keyed g c'" by (simp add: c' psk_keyed_def)
    ultimately have "client_inv g c'"
      using assms n ph by (simp add: client_inv_def has_app_keys_def c')
    then show ?thesis using Pair by simp
  qed
qed

lemma inv_CertificateVerify:
  assumes "client_inv g c"
  shows "client_inv g (fst (HandleCertificateVerify g c m))"
proof (cases "HandleCertificateVerify g c m")
  case (Pair c' r)
  show ?thesis
  proof (cases r)
    case (Inl e)
    then have "c' = c"
      using Pair by (auto simp: HandleCertificateVerify_def tryS_cases split: if_splits option.splits public_key.splits)
    then show ?thesis using Pair assms by simp
  next
    case (Inr u)
    with Pair obtain body cv leaf pub where ph: "c_phase c = clientAfterCertificate"
      and un: "CertificateVerify_unmarshalBody body = Inr cv"
      and leaf: "leafCert c = Some leaf" "CertKey leaf = EcdsaKey pub"
      and ok: "VerifyCertificateVerify g pub ServerCertificateVerifyContext
        (Transcript_Sum g (c_transcript c)) (Signature cv)"
      and c': "c' = c\<lparr>c_transcript := AddMessage (c_transcript c) HandshakeTypeCertificateVerify body,
        c_phase := clientAfterCertificateVerify\<rparr>"
      by (auto simp: HandleCertificateVerify_def tryS_Inr_iff readBody_Inr_iff
          split: if_splits option.splits public_key.splits)
    have n: "\<not> has_app_keys c" using no_app_keys [OF assms] ph by simp
    from assms ph leaf(1) obtain t cb cm where t: "Transcript_Bytes (c_transcript c) = t @ msg_bytes HandshakeTypeCertificate cb"
      and cb: "Certificate_unmarshalBody cb = Inr cm" and tr: "trusted_chain g c (CertificateList cm) leaf"
      unfolding client_inv_def cert_recorded_def by auto
    have tok: "transcript_ok (c_transcript c)" using assms by (simp add: client_inv_def)
    have tr': "trusted_chain g c' (CertificateList cm) leaf"
      using tr by (rule trusted_chain_cong [rotated]) (simp add: c' same_config_def)
    have bytes: "Transcript_Bytes (c_transcript c') = t @ msg_bytes HandshakeTypeCertificate cb
        @ msg_bytes HandshakeTypeCertificateVerify body"
      by (simp add: c' Bytes_AddMessage_msg t del: Bytes_AddMessage)
    have "cert_auth g c'"
      unfolding cert_auth_def bytes
      using cb tr' leaf(2) un ok [unfolded Sum_of_Bytes [OF tok] t] by blast
    moreover have "psk_keyed g c \<Longrightarrow> psk_keyed g c'" by (simp add: c' psk_keyed_def)
    ultimately have "client_inv g c'"
      using assms n ph by (auto simp: client_inv_def has_app_keys_def server_auth_def c')
    then show ?thesis using Pair by simp
  qed
qed

text \<open>The application keys are derived after the Finished message entered the transcript.\<close>

lemma deriveClientApplicationKeys_frame:
  assumes "fst (deriveClientApplicationKeys g c) = c'"
  shows "grows c c'" and "c_transcript c' = c_transcript c"
    and "c_phase c' \<in> {clientAfterServerFinished, clientFailed}"
  using assms
  by (auto simp: deriveClientApplicationKeys_def ClientHandshaker_fail_def grows_def same_config_def tryS_def Let_def
      split: sum.splits)

lemma inv_ServerFinished:
  assumes "client_inv g c"
  shows "client_inv g (fst (HandleServerFinished g c m))"
proof (cases "c_phase c = clientAfterCertificateVerify
    \<and> (\<exists>body fin fk. readBody (\<lambda>ty. ty = HandshakeTypeFinished) Finished_unmarshalBody m
          = Inr (HandshakeTypeFinished, body, fin)
        \<and> DeriveFinishedKey g (c_serverHSTraffic c) = Inr fk
        \<and> ComputeFinishedVerifyData g fk (Transcript_Sum g (c_transcript c)) = Inr (VerifyData fin))")
  case True
  then obtain body fin fk where ph: "c_phase c = clientAfterCertificateVerify"
    and rd: "readBody (\<lambda>ty. ty = HandshakeTypeFinished) Finished_unmarshalBody m = Inr (HandshakeTypeFinished, body, fin)"
    and fk: "DeriveFinishedKey g (c_serverHSTraffic c) = Inr fk"
    and vd: "ComputeFinishedVerifyData g fk (Transcript_Sum g (c_transcript c)) = Inr (VerifyData fin)"
    by blast
  define c1 where "c1 = c\<lparr>c_transcript := AddMessage (c_transcript c) HandshakeTypeFinished body\<rparr>"
  define c2 where "c2 = fst (deriveClientApplicationKeys g c1)"
  have fst: "fst (HandleServerFinished g c m) = c2"
    by (simp add: HandleServerFinished_def ph rd fk vd equalConstantTime_def c1_def c2_def)
  have body: "body = VerifyData fin"
    using rd by (auto simp: readBody_Inr_iff Finished_unmarshalBody_def split: if_splits)
  have tok: "transcript_ok (c_transcript c)" using assms by (simp add: client_inv_def)
  have g1: "grows c c1" by (simp add: c1_def grows_def same_config_def Bytes_AddMessage_msg del: Bytes_AddMessage)
  note fr = deriveClientApplicationKeys_frame [OF c2_def [symmetric]]
  have g2: "grows c c2" using g1 fr(1) unfolding grows_def same_config_def
    using prefix_order.trans by auto
  have "finished_auth g c1"
    unfolding finished_auth_def using fk vd tok
    by (intro exI [of _ "Transcript_Bytes (c_transcript c)"] exI [of _ fk] exI [of _ body])
       (simp add: c1_def Bytes_AddMessage_msg Sum_of_Bytes body del: Bytes_AddMessage)
  then have "finished_auth g c2" using grows_finished_auth [OF fr(1)] by blast
  moreover have sa: "server_auth g c2"
    using assms ph grows_server_auth [OF g2, of g] by (simp add: client_inv_def)
  moreover have "transcript_ok (c_transcript c2)" using tok fr(2) by (simp add: c1_def)
  moreover have "pskMode c2 \<longrightarrow> resumptionPSK c2 \<noteq> None"
    using assms g2 by (auto simp: client_inv_def grows_def same_config_def)
  ultimately have "client_inv g c2"
    using fr(3) unfolding client_inv_def has_app_keys_def server_auth_def by (auto split: if_splits)
  then show ?thesis using fst by simp
next
  case False
  then have "fst (HandleServerFinished g c m) = c"
    by (auto simp: HandleServerFinished_def equalConstantTime_def tryS_def readBody_Inr_iff split: sum.splits)
  then show ?thesis using assms by simp
qed

lemma inv_ClientFinished:
  assumes "client_inv g c"
  shows "client_inv g (fst (ClientFinished g c))"
proof (cases "ClientFinished g c")
  case (Pair c' r)
  show ?thesis
  proof (cases r)
    case (Inl e)
    then have "c' = c" using Pair by (auto simp: ClientFinished_def tryS_cases split: if_splits)
    then show ?thesis using Pair assms by simp
  next
    case (Inr full)
    with Pair have ph: "c_phase c = clientAfterServerFinished"
      and c': "c' = c\<lparr>c_transcript := AddMessage (c_transcript c) HandshakeTypeFinished (drop 4 full), clientFinishedSent := True\<rparr>"
      by (auto simp: ClientFinished_def tryS_Inr_iff split: if_splits)
    have gr: "grows c c'"
      by (simp add: c' grows_def same_config_def Bytes_AddMessage_msg del: Bytes_AddMessage)
    have "server_auth g c'" "finished_auth g c'"
      using assms ph grows_server_auth [OF gr, of g] grows_finished_auth [OF gr, of g]
      by (simp_all add: client_inv_def has_app_keys_def)
    moreover have "transcript_ok (c_transcript c')" "pskMode c' \<longrightarrow> resumptionPSK c' \<noteq> None"
      using assms by (auto simp: c' client_inv_def)
    ultimately have "client_inv g c'"
      using ph unfolding client_inv_def server_auth_def by (auto simp: c' split: if_splits)
    then show ?thesis using Pair by simp
  qed
qed

lemma inv_NewSessionTicket:
  assumes "client_inv g c"
  shows "client_inv g (fst (HandleNewSessionTicket g c m))"
proof -
  have "client_inv g (c\<lparr>c_resumptionMasterSecret := rms\<rparr>)" for rms
    by (rule inv_quiet [OF assms]) (simp_all add: grows_def same_config_def)
  then show ?thesis
    using assms by (auto simp: HandleNewSessionTicket_def tryS_def Let_def split: sum.splits)
qed

lemma inv_DiscardEarlyKeys:
  assumes "client_inv g c"
  shows "client_inv g (ClientHandshaker_DiscardEarlyKeys c)"
  by (rule inv_quiet [OF assms])
     (simp_all add: ClientHandshaker_DiscardEarlyKeys_def DiscardEarlyKeys_def grows_def same_config_def)

lemmas inv_calls = inv_ClientHello inv_HandleServerHello inv_HelloRetry inv_EncryptedExtensions inv_Certificate
  inv_CertificateVerify inv_ServerFinished inv_ClientFinished inv_NewSessionTicket inv_DiscardEarlyKeys

lemma client_step_inv: "client_step g c c' \<Longrightarrow> client_inv g c \<Longrightarrow> client_inv g c'"
  by (induction rule: client_step.induct) (simp_all add: inv_calls)

lemma client_steps_inv: "client_steps g c c' \<Longrightarrow> client_inv g c \<Longrightarrow> client_inv g c'"
  by (induction rule: rtranclp_induct) (auto intro: client_step_inv)

lemma NewClient_inv:
  assumes "NewClientHandshakerWithConfig g k cfg = Inr c"
  shows "client_inv g c"
  using assms
  by (auto simp: NewClientHandshakerWithConfig_def client_inv_def has_app_keys_def deriveInitial_def
      initialSecrets_def bindE_Inr_iff split: if_splits option.splits)

end
