(* ===== verification/ServerHandshake.thy ===== *)
theory ServerHandshake
  imports HandshakeState
begin

text \<open>
  The server handshaker of \<open>src/tls13gm/handshake.go\<close>. The two callbacks of the
  configuration, the ticket keys and the early-data acceptor, are stateful: they read and
  update an environment (the key rotator, the anti-replay cache) that outlives the
  handshaker. A method that calls one takes the environment and returns it.
\<close>

section \<open>State\<close>

datatype serverHandshakePhase =
    serverPhaseNone
  | serverAfterClientHello
  | serverAfterFlight
  | serverAfterClientFinished
  | serverFailed

record 'e ServerHandshaker =
  s_ephemeral :: PrivateKey
  clientPub :: "PublicKey option"
  serverCert :: X509
  serverKey :: PrivateKey
  s_transcript :: Transcript
  s_handshakeSecret :: bytes
  s_masterSecret :: bytes
  s_clientHSTraffic :: bytes
  s_serverHSTraffic :: bytes
  s_secrets :: HandshakeSecrets
  s_localTransportParams :: "bytes option"
  s_peerTransportParams :: bytes
  s_resumptionMasterSecret :: bytes
  resumptionSelectedPSK :: "bytes option"
  resumptionRealAge :: int
  s_phase :: serverHandshakePhase
  ticketKeys :: "('e \<Rightarrow> bytes list \<times> 'e) option"
  allowEarlyData :: bool
  clientOfferedEarlyData :: bool
  acceptedEarlyData :: bool
  earlyDataAcceptor :: "('e \<Rightarrow> bytes \<Rightarrow> int \<Rightarrow> bool \<times> 'e) option"
  s_nextProtos :: "bytes list"
  s_negotiatedProto :: bytes
  resumptionAppData :: bytes

record 'e ServerConfig =
  sc_DCID :: bytes
  sc_Certificate :: "X509 option"
  sc_PrivateKey :: "PrivateKey option"
  sc_TransportParameters :: "bytes option"
  sc_NextProtos :: "bytes list"
  sc_SessionTicketKeys :: "('e \<Rightarrow> bytes list \<times> 'e) option"
  sc_AllowEarlyData :: bool
  sc_EarlyDataAcceptor :: "('e \<Rightarrow> bytes \<Rightarrow> int \<Rightarrow> bool \<times> 'e) option"

definition NewServerHandshakerWithConfig ::
  "'x x509_scheme \<Rightarrow> PrivateKey option \<Rightarrow> 'e ServerConfig \<Rightarrow> hs_error + 'e ServerHandshaker" where
  "NewServerHandshakerWithConfig g generated cfg =
    (if length (sc_DCID cfg) = 0 then Inl (HsServer ServerDcidRequired)
     else
       (case (sc_Certificate cfg, sc_PrivateKey cfg) of
          (Some cert, Some key) \<Rightarrow>
            (case generated of
               None \<Rightarrow> Inl HsKeyGen
             | Some priv \<Rightarrow>
                 bindE (deriveInitial g (sc_DCID cfg)) (\<lambda>initial.
                 Inr \<lparr>s_ephemeral = priv,
                      clientPub = None,
                      serverCert = cert,
                      serverKey = key,
                      s_transcript = NewTranscript,
                      s_handshakeSecret = [],
                      s_masterSecret = [],
                      s_clientHSTraffic = [],
                      s_serverHSTraffic = [],
                      s_secrets = initial,
                      s_localTransportParams = sc_TransportParameters cfg,
                      s_peerTransportParams = [],
                      s_resumptionMasterSecret = [],
                      resumptionSelectedPSK = None,
                      resumptionRealAge = 0,
                      s_phase = serverPhaseNone,
                      ticketKeys = sc_SessionTicketKeys cfg,
                      allowEarlyData = sc_AllowEarlyData cfg,
                      clientOfferedEarlyData = False,
                      acceptedEarlyData = False,
                      earlyDataAcceptor = sc_EarlyDataAcceptor cfg,
                      s_nextProtos = sc_NextProtos cfg,
                      s_negotiatedProto = [],
                      resumptionAppData = []\<rparr>))
        | _ \<Rightarrow> Inl (HsServer ServerCertRequired)))"

section \<open>Capability checks\<close>

definition offersPSKDHEKE :: "bytes \<Rightarrow> bool" where
  "offersPSKDHEKE modesExt =
    (if length modesExt = 0 then False
     else
       (let listLen = unat (modesExt ! 0) in
        if 1 + listLen > length modesExt then False
        else list_ex (\<lambda>m. m = PSKKeyExchangeModeDHEKE) (take listLen (drop 1 modesExt))))"

definition containsCipherSuite :: "u16 list \<Rightarrow> u16 \<Rightarrow> bool" where
  "containsCipherSuite list want = list_ex (\<lambda>c. c = want) list"

text \<open>The loop reads the list two bytes at a time and ignores an odd last byte.\<close>

definition containsUint16List :: "bytes \<Rightarrow> nat \<Rightarrow> u16 \<Rightarrow> bool" where
  "containsUint16List data lenSize want =
    (if length data < lenSize then False
     else
       (let listLen = (if lenSize = 1 then unat (data ! 0) else unbe (take 2 data));
            body = drop lenSize data in
        if listLen > length body then False
        else list_ex (\<lambda>c. c = want) (parseU16s (take listLen body))))"

section \<open>ClientHello\<close>

type_synonym 'e server_env = "'e ServerHandshaker \<times> 'e"

definition verifyPSKBinder ::
  "'x x509_scheme \<Rightarrow> 'e ServerHandshaker \<Rightarrow> 'e \<Rightarrow> ClientHelloMsg \<Rightarrow> bytes \<Rightarrow> 'e server_env \<times> (hs_error + unit)" where
  "verifyPSKBinder g s env chMsg pskExt =
    (case ticketKeys s of
       None \<Rightarrow> ((s, env), Inl (HsServer NoTicketKeys))
     | Some getKeys \<Rightarrow>
         tryS (s, env) (mapE HsPsk (parsePreSharedKeyExtension pskExt)) (\<lambda>(identities, binders).
         if length identities \<noteq> 1 \<or> length binders \<noteq> 1 then ((s, env), Inl (HsServer PskCount))
         else
           (case getKeys env of
              (keys, env) \<Rightarrow>
                (case DecryptSessionTicketWithData g keys (Identity (identities ! 0)) of
                   Inl _ \<Rightarrow> ((s, env), Inr ())
                 | Inr (psk, ageAdd, appData) \<Rightarrow>
                     (let s = s\<lparr>resumptionAppData := appData,
                                resumptionRealAge :=
                                  int (unat (ObfuscatedTicketAge (identities ! 0) - ageAdd)) * 1000000\<rparr> in
                      tryS (s, env) (mapE HsBody (pskBinderTranscript chMsg identities)) (\<lambda>transcript.
                      tryS (s, env) (mapE HsKdf (computeResumptionBinder g psk transcript)) (\<lambda>expected.
                      if \<not> equalConstantTime expected (binders ! 0)
                      then ((s, env), Inl (HsServer BinderMismatch))
                      else ((s\<lparr>resumptionSelectedPSK := Some psk\<rparr>, env), Inr ()))))))))"

text \<open>
  The end of \<open>HandleClientHello\<close>: the pre-shared key and, if the client offered early
  data, the decision to derive its keys.
\<close>

definition admitEarlyData ::
  "'x x509_scheme \<Rightarrow> 'e ServerHandshaker \<Rightarrow> 'e \<Rightarrow> 'e server_env \<times> (hs_error + unit)" where
  "admitEarlyData g s env =
    (let s = s\<lparr>clientOfferedEarlyData := True\<rparr> in
     case (resumptionSelectedPSK s, earlyDataAcceptor s) of
       (Some psk, Some accept) \<Rightarrow>
         if allowEarlyData s then
           (case accept env psk (resumptionRealAge s) of
              (ok, env) \<Rightarrow>
                if ok then
                  tryS (s\<lparr>s_secrets := (s_secrets s)\<lparr>ClientEarlyKeys := None\<rparr>\<rparr>, env)
                    (mapE HsKdf (DeriveEarlyTrafficKeys g psk (Transcript_Sum g (s_transcript s)))) (\<lambda>k.
                  ((s\<lparr>s_secrets := (s_secrets s)\<lparr>ClientEarlyKeys := Some k\<rparr>\<rparr>, env), Inr ()))
                else ((s, env), Inr ()))
         else ((s, env), Inr ())
     | _ \<Rightarrow> ((s, env), Inr ()))"

definition handleOfferedPSK ::
  "'x x509_scheme \<Rightarrow> 'e ServerHandshaker \<Rightarrow> 'e \<Rightarrow> ClientHelloMsg \<Rightarrow> 'e server_env \<times> (hs_error + unit)" where
  "handleOfferedPSK g s env chMsg =
    (let pskExt = findExtension (ch_Extensions chMsg) ExtensionTypePreSharedKey in
     if pskExt \<noteq> [] then
       (if \<not> offersPSKDHEKE (findExtension (ch_Extensions chMsg) ExtensionTypePSKKeyExchangeModes)
        then ((s, env), Inr ())
        else
          (case verifyPSKBinder g s env chMsg pskExt of
             ((s, env), Inl e) \<Rightarrow> ((s, env), Inl e)
           | ((s, env), Inr _) \<Rightarrow>
               if hasExtension (ch_Extensions chMsg) ExtensionTypeEarlyData
               then admitEarlyData g s env
               else ((s, env), Inr ())))
     else ((s, env), Inr ()))"

text \<open>ALPN selection: the first protocol of the client that the server supports.\<close>

definition selectALPN :: "'e ServerHandshaker \<Rightarrow> ClientHelloMsg \<Rightarrow> hs_error + bytes" where
  "selectALPN s chMsg =
    (let alpn = findExtension (ch_Extensions chMsg) ExtensionTypeALPN in
     if length (s_nextProtos s) > 0 \<and> alpn \<noteq> [] then
       bindE (mapE HsAlpn (parseALPNExtension alpn)) (\<lambda>clientProtos.
       case List.find (\<lambda>cp. list_ex (\<lambda>sp. cp = sp) (s_nextProtos s)) clientProtos of
         None \<Rightarrow> Inl (HsServer AlpnNoOverlap)
       | Some selected \<Rightarrow> if selected = [] then Inl (HsServer AlpnNoOverlap) else Inr selected)
     else Inr (s_negotiatedProto s))"

definition HandleClientHello ::
  "'x x509_scheme \<Rightarrow> 'e ServerHandshaker \<Rightarrow> 'e \<Rightarrow> bytes \<Rightarrow> 'e server_env \<times> (hs_error + unit)" where
  "HandleClientHello g s env ch =
    (if s_phase s \<noteq> serverPhaseNone then ((s, env), Inl HsOrder)
     else
       tryS (s, env) (readBody (\<lambda>ty. ty = HandshakeTypeClientHello) ClientHello_unmarshalBody ch)
         (\<lambda>(mt, body, chMsg).
       let ext = findExtension (ch_Extensions chMsg);
           sv = ext ExtensionTypeSupportedVersions;
           sa = ext ExtensionTypeSignatureAlgorithms;
           sg = ext ExtensionTypeSupportedGroups;
           ks = ext ExtensionTypeKeyShare;
           tp = ext ExtensionTypeQUICTransportParams in
       if \<not> containsCipherSuite (CipherSuites chMsg) TLS_SM4_GCM_SM3
       then ((s, env), Inl (HsServer SuiteNotOffered))
       else if sv = [] \<or> \<not> containsUint16List sv 1 VersionTLS13
       then ((s, env), Inl (HsServer VersionNotOffered))
       else if sa = [] \<or> \<not> containsUint16List sa 2 SM2SigSM3
       then ((s, env), Inl (HsServer SigAlgNotOffered))
       else if sg = [] \<or> \<not> containsUint16List sg 2 CurveSM2
       then ((s, env), Inl (HsServer GroupNotOffered))
       else if ks = [] then ((s, env), Inl (HsServer ClientKeyShareMissing))
       else
         tryS (s, env) (selectALPN s chMsg) (\<lambda>proto.
         let s = s\<lparr>s_negotiatedProto := proto\<rparr> in
         tryS (s, env) (mapE HsKeyShare (parseClientKeyShare ks CurveSM2)) (\<lambda>clientKeyBytes.
         tryS (s, env) (mapE HsPoint (UnmarshalUncompressed g clientKeyBytes)) (\<lambda>pub.
         let s = s\<lparr>s_transcript := AddMessage (s_transcript s) mt body, clientPub := Some pub\<rparr>;
             s = (if tp \<noteq> [] then s\<lparr>s_peerTransportParams := tp\<rparr> else s);
             s = s\<lparr>s_phase := serverAfterClientHello\<rparr>
         in handleOfferedPSK g s env chMsg)))))"

section \<open>The server flight\<close>

definition ServerHandshaker_fail :: "'e ServerHandshaker \<Rightarrow> 'e ServerHandshaker" where
  "ServerHandshaker_fail s = s\<lparr>s_phase := serverFailed\<rparr>"

text \<open>The ServerHello and the handshake keys.\<close>

definition serverHelloMsg :: "'x x509_scheme \<Rightarrow> 'e ServerHandshaker \<Rightarrow> bytes \<Rightarrow> ServerHelloMsg" where
  "serverHelloMsg g s random =
    \<lparr>sh_LegacyVersion = VersionTLS12, sh_Random = random, sh_LegacySessionID = [],
     CipherSuite = TLS_SM4_GCM_SM3,
     sh_Extensions =
       [\<lparr>etype = ExtensionTypeSupportedVersions, edata = [0x03, 0x04]\<rparr>,
        \<lparr>etype = ExtensionTypeKeyShare,
         edata = marshalServerKeyShare CurveSM2 (MarshalUncompressed g (Some (Public (s_ephemeral s))))\<rparr>]
       @ (if resumptionSelectedPSK s \<noteq> None
          then [\<lparr>etype = ExtensionTypePreSharedKey, edata = [0x00, 0x00]\<rparr>] else [])\<rparr>"

definition sendServerHello ::
  "'x x509_scheme \<Rightarrow> 'e ServerHandshaker \<Rightarrow> bytes option \<Rightarrow> 'e ServerHandshaker \<times> (hs_error + bytes)" where
  "sendServerHello g s rnd =
    tryS (ServerHandshaker_fail s) (case rnd of None \<Rightarrow> Inl HsRand | Some r \<Rightarrow> Inr r) (\<lambda>random.
    tryS (ServerHandshaker_fail s)
      (mapE HsBody (MarshalHandshakeMessage HandshakeTypeServerHello
        (ServerHello_marshalBody (serverHelloMsg g s random)))) (\<lambda>serverHello.
    let s = s\<lparr>s_transcript := AddMessage (s_transcript s) HandshakeTypeServerHello (drop 4 serverHello)\<rparr> in
    tryS (ServerHandshaker_fail s)
      (mapE HsEcdh (CurveSM2ECDHE g (Some (s_ephemeral s)) (clientPub s))) (\<lambda>sharedSecret.
    tryS (ServerHandshaker_fail s)
      (mapE HsKdf (DeriveEarlySecret g
        (case resumptionSelectedPSK s of None \<Rightarrow> [] | Some p \<Rightarrow> p))) (\<lambda>earlySecret.
    tryS (ServerHandshaker_fail (s\<lparr>s_handshakeSecret := []\<rparr>))
      (mapE HsKdf (DeriveHandshakeSecret g earlySecret sharedSecret)) (\<lambda>hs.
    let s = s\<lparr>s_handshakeSecret := hs\<rparr>; h = Transcript_Sum g (s_transcript s) in
    tryS (ServerHandshaker_fail (s\<lparr>s_clientHSTraffic := []\<rparr>))
      (mapE HsKdf (DeriveSecret g hs LabelClientHSTraffic h)) (\<lambda>cht.
    let s = s\<lparr>s_clientHSTraffic := cht\<rparr> in
    tryS (ServerHandshaker_fail (s\<lparr>s_serverHSTraffic := []\<rparr>))
      (mapE HsKdf (DeriveSecret g hs LabelServerHSTraffic h)) (\<lambda>sht.
    let s = s\<lparr>s_serverHSTraffic := sht\<rparr> in
    tryS (ServerHandshaker_fail (s\<lparr>s_secrets := (s_secrets s)\<lparr>ClientHandshakeKeys := None\<rparr>\<rparr>))
      (mapE HsKdf (DeriveQUICPacketKeys g cht)) (\<lambda>ck.
    let s = s\<lparr>s_secrets := (s_secrets s)\<lparr>ClientHandshakeKeys := Some ck\<rparr>\<rparr> in
    tryS (ServerHandshaker_fail (s\<lparr>s_secrets := (s_secrets s)\<lparr>ServerHandshakeKeys := None\<rparr>\<rparr>))
      (mapE HsKdf (DeriveQUICPacketKeys g sht)) (\<lambda>sk.
    (s\<lparr>s_secrets := (s_secrets s)\<lparr>ServerHandshakeKeys := Some sk,
                                  ClientHandshakeTrafficSecret := cht,
                                  ServerHandshakeTrafficSecret := sht\<rparr>\<rparr>, Inr serverHello))))))))))"

text \<open>
  EncryptedExtensions. The early return on an ALPN error does not go through \<open>fail\<close>.
\<close>

definition sendEncryptedExtensions ::
  "'e ServerHandshaker \<Rightarrow> 'e ServerHandshaker \<times> (hs_error + bytes)" where
  "sendEncryptedExtensions s =
    tryS s
      (if s_negotiatedProto s \<noteq> []
       then bindE (mapE HsAlpn (marshalALPNExtension [s_negotiatedProto s])) (\<lambda>alpnExt.
            Inr [\<lparr>etype = ExtensionTypeALPN, edata = alpnExt\<rparr>])
       else Inr []) (\<lambda>alpn.
    let params = (case s_localTransportParams s of
                    None \<Rightarrow> []
                  | Some tp \<Rightarrow> [\<lparr>etype = ExtensionTypeQUICTransportParams, edata = tp\<rparr>]);
        s = (if ClientEarlyKeys (s_secrets s) \<noteq> None then s\<lparr>acceptedEarlyData := True\<rparr> else s);
        early = (if ClientEarlyKeys (s_secrets s) \<noteq> None
                 then [\<lparr>etype = ExtensionTypeEarlyData, edata = []\<rparr>] else []) in
    tryS (ServerHandshaker_fail s)
      (mapE HsBody (MarshalHandshakeMessage HandshakeTypeEncryptedExtensions
        (EncryptedExtensions_marshalBody \<lparr>ee_Extensions = params @ alpn @ early\<rparr>))) (\<lambda>encExt.
    (s\<lparr>s_transcript := AddMessage (s_transcript s) HandshakeTypeEncryptedExtensions (drop 4 encExt)\<rparr>,
     Inr encExt)))"

text \<open>Certificate and CertificateVerify, both empty when a pre-shared key was selected.\<close>

definition sendCertificate ::
  "'x x509_scheme \<Rightarrow> 'e ServerHandshaker \<Rightarrow> bytes \<Rightarrow> 'e ServerHandshaker \<times> (hs_error + (bytes \<times> bytes))" where
  "sendCertificate g s sigRnd =
    (if resumptionSelectedPSK s \<noteq> None then (s, Inr ([], []))
     else
       tryS (ServerHandshaker_fail s)
         (mapE HsBody (MarshalHandshakeMessage HandshakeTypeCertificate (Certificate_marshalBody
           \<lparr>CertificateRequestContext = [],
            CertificateList = [\<lparr>Certificate = Raw (serverCert s), ce_Extensions = []\<rparr>]\<rparr>))) (\<lambda>certificate.
       let s = s\<lparr>s_transcript := AddMessage (s_transcript s) HandshakeTypeCertificate (drop 4 certificate)\<rparr> in
       tryS (ServerHandshaker_fail s)
         (mapE HsSign (SignCertificateVerify g sigRnd (Some (serverKey s)) ServerCertificateVerifyContext
           (Transcript_Sum g (s_transcript s)))) (\<lambda>sig.
       tryS (ServerHandshaker_fail s)
         (mapE HsBody (MarshalHandshakeMessage HandshakeTypeCertificateVerify (CertificateVerify_marshalBody
           \<lparr>SignatureScheme = SM2SigSM3, Signature = sig\<rparr>))) (\<lambda>certVerify.
       (s\<lparr>s_transcript := AddMessage (s_transcript s) HandshakeTypeCertificateVerify (drop 4 certVerify)\<rparr>,
        Inr (certificate, certVerify))))))"

definition sendFinished ::
  "'x x509_scheme \<Rightarrow> 'e ServerHandshaker \<Rightarrow> 'e ServerHandshaker \<times> (hs_error + bytes)" where
  "sendFinished g s =
    tryS (ServerHandshaker_fail s) (mapE HsKdf (DeriveFinishedKey g (s_serverHSTraffic s))) (\<lambda>serverFinishedKey.
    tryS (ServerHandshaker_fail s)
      (mapE HsKdf (ComputeFinishedVerifyData g serverFinishedKey
        (Transcript_Sum g (s_transcript s)))) (\<lambda>verifyData.
    tryS (ServerHandshaker_fail s)
      (mapE HsBody (MarshalHandshakeMessage HandshakeTypeFinished
        (Finished_marshalBody \<lparr>VerifyData = verifyData\<rparr>))) (\<lambda>finished.
    let s = s\<lparr>s_transcript := AddMessage (s_transcript s) HandshakeTypeFinished (drop 4 finished)\<rparr> in
    tryS (ServerHandshaker_fail (s\<lparr>s_masterSecret := []\<rparr>))
      (mapE HsKdf (DeriveMasterSecret g (s_handshakeSecret s))) (\<lambda>ms.
    let s = s\<lparr>s_masterSecret := ms\<rparr>; h = Transcript_Sum g (s_transcript s) in
    tryS (ServerHandshaker_fail s) (mapE HsKdf (DeriveSecret g ms LabelClientAPTraffic h)) (\<lambda>cAP.
    tryS (ServerHandshaker_fail s) (mapE HsKdf (DeriveSecret g ms LabelServerAPTraffic h)) (\<lambda>sAP.
    let s = s\<lparr>s_secrets := (s_secrets s)\<lparr>ClientApplicationTrafficSecret := cAP,
                                         ServerApplicationTrafficSecret := sAP\<rparr>\<rparr> in
    tryS (ServerHandshaker_fail (s\<lparr>s_secrets := (s_secrets s)\<lparr>ClientApplicationKeys := None\<rparr>\<rparr>))
      (mapE HsKdf (DeriveQUICPacketKeys g cAP)) (\<lambda>ck.
    let s = s\<lparr>s_secrets := (s_secrets s)\<lparr>ClientApplicationKeys := Some ck\<rparr>\<rparr> in
    tryS (ServerHandshaker_fail (s\<lparr>s_secrets := (s_secrets s)\<lparr>ServerApplicationKeys := None\<rparr>\<rparr>))
      (mapE HsKdf (DeriveQUICPacketKeys g sAP)) (\<lambda>sk.
    (s\<lparr>s_secrets := (s_secrets s)\<lparr>ServerApplicationKeys := Some sk\<rparr>,
       s_phase := serverAfterFlight\<rparr>, Inr finished)))))))))"

definition ServerFlight ::
  "'x x509_scheme \<Rightarrow> 'e ServerHandshaker \<Rightarrow> bytes option \<Rightarrow> bytes
    \<Rightarrow> 'e ServerHandshaker \<times> (hs_error + (bytes \<times> bytes \<times> bytes \<times> bytes \<times> bytes))" where
  "ServerFlight g s rnd sigRnd =
    (if s_phase s \<noteq> serverAfterClientHello then (s, Inl HsOrder)
     else
       (case sendServerHello g s rnd of
          (s, Inl e) \<Rightarrow> (s, Inl e)
        | (s, Inr serverHello) \<Rightarrow>
            (case sendEncryptedExtensions s of
               (s, Inl e) \<Rightarrow> (s, Inl e)
             | (s, Inr encExt) \<Rightarrow>
                 (case sendCertificate g s sigRnd of
                    (s, Inl e) \<Rightarrow> (s, Inl e)
                  | (s, Inr (certificate, certVerify)) \<Rightarrow>
                      (case sendFinished g s of
                         (s, Inl e) \<Rightarrow> (s, Inl e)
                       | (s, Inr finished) \<Rightarrow>
                           (s, Inr (serverHello, encExt, certificate, certVerify, finished)))))))"

section \<open>The end of the handshake\<close>

definition HandleClientFinished ::
  "'x x509_scheme \<Rightarrow> 'e ServerHandshaker \<Rightarrow> bytes \<Rightarrow> 'e ServerHandshaker \<times> (hs_error + unit)" where
  "HandleClientFinished g s cf =
    (if s_phase s \<noteq> serverAfterFlight then (s, Inl HsOrder)
     else
       tryS s (readBody (\<lambda>ty. ty = HandshakeTypeFinished) Finished_unmarshalBody cf) (\<lambda>(mt, body, fin).
       tryS s (mapE HsKdf (DeriveFinishedKey g (s_clientHSTraffic s))) (\<lambda>finishedKey.
       tryS s (mapE HsKdf (ComputeFinishedVerifyData g finishedKey
                (Transcript_Sum g (s_transcript s)))) (\<lambda>expected.
       if \<not> equalConstantTime expected (VerifyData fin)
       then (s, Inl (HsServer ClientFinishedMismatch))
       else
         (let s = s\<lparr>s_transcript := AddMessage (s_transcript s) mt body\<rparr> in
          tryS (ServerHandshaker_fail (s\<lparr>s_resumptionMasterSecret := []\<rparr>))
            (mapE HsKdf (DeriveResumptionMasterSecret g (s_masterSecret s)
              (Transcript_Sum g (s_transcript s)))) (\<lambda>rms.
          (s\<lparr>s_resumptionMasterSecret := rms, s_phase := serverAfterClientFinished\<rparr>, Inr ())))))))"

definition maxSessionTicketLifetime :: u32 where "maxSessionTicketLifetime = 604800"

definition NewSessionTicketWithData ::
  "'x x509_scheme \<Rightarrow> 'e ServerHandshaker \<Rightarrow> 'e \<Rightarrow> u32 \<Rightarrow> bytes \<Rightarrow> bytes option \<Rightarrow> bytes option \<Rightarrow> bytes option
    \<Rightarrow> 'e \<times> (hs_error + bytes)" where
  "NewSessionTicketWithData g s env ticketLifetime appData nonceRnd ageRnd sealRnd =
    (let ticketLifetime = (if ticketLifetime > maxSessionTicketLifetime then maxSessionTicketLifetime
                           else ticketLifetime) in
     if s_phase s \<noteq> serverAfterClientFinished then (env, Inl HsOrder)
     else
       (case ticketKeys s of
          None \<Rightarrow> (env, Inl (HsServer TicketKeyRequired))
        | Some getKeys \<Rightarrow>
            tryS env (case nonceRnd of None \<Rightarrow> Inl HsRand | Some r \<Rightarrow> Inr r) (\<lambda>nonce.
            tryS env (case ageRnd of None \<Rightarrow> Inl HsRand | Some r \<Rightarrow> Inr r) (\<lambda>ageAddBytes.
            let ticketAgeAdd = of_nat (unbe ageAddBytes) in
            tryS env (mapE HsKdf (DeriveResumptionPSK g (s_resumptionMasterSecret s) nonce)) (\<lambda>psk.
            case getKeys env of
              (keys, env) \<Rightarrow>
                if length keys = 0 then (env, Inl (HsServer TicketKeyListEmpty))
                else
                  tryS env (mapE HsTicket (EncryptSessionTicketWithData g sealRnd (keys ! 0) psk ticketAgeAdd appData))
                    (\<lambda>ticket.
                  (env, mapE HsBody (MarshalHandshakeMessage HandshakeTypeNewSessionTicket
                     (NewSessionTicket_marshalBody
                       \<lparr>TicketLifetime = ticketLifetime, TicketAgeAdd = ticketAgeAdd,
                        nst_TicketNonce = nonce, Ticket = ticket, nst_Extensions = []\<rparr>)))))))))"

definition ServerHandshaker_DiscardEarlyKeys :: "'e ServerHandshaker \<Rightarrow> 'e ServerHandshaker" where
  "ServerHandshaker_DiscardEarlyKeys s = s\<lparr>s_secrets := DiscardEarlyKeys (s_secrets s)\<rparr>"

definition ServerHandshaker_Zero :: "'e ServerHandshaker \<Rightarrow> 'e ServerHandshaker" where
  "ServerHandshaker_Zero s =
    s\<lparr>s_handshakeSecret := ZeroBytes (s_handshakeSecret s),
      s_masterSecret := ZeroBytes (s_masterSecret s),
      s_clientHSTraffic := ZeroBytes (s_clientHSTraffic s),
      s_serverHSTraffic := ZeroBytes (s_serverHSTraffic s),
      s_resumptionMasterSecret := ZeroBytes (s_resumptionMasterSecret s),
      resumptionSelectedPSK := map_option ZeroBytes (resumptionSelectedPSK s),
      s_ephemeral := zeroEphemeral (s_ephemeral s),
      s_secrets := HandshakeSecrets_Zero (s_secrets s)\<rparr>"

end
