(* ===== verification/Agreement.thy ===== *)
theory Agreement
  imports ClientHandshake ServerHandshake
begin

text \<open>
  Both handshakers run against each other: the messages one side marshals are the
  messages the other side parses, the two transcripts stay equal, and so do the secrets
  derived from them. The lemmas follow the flight message by message.
\<close>

section \<open>Marshalling succeeds\<close>

context handshake_message
begin

lemma readBody_marshalled:
  assumes "wf m" and "MarshalHandshakeMessage msgType (marshalBody m) = Inr full" and "expected msgType"
  shows "readBody expected unmarshalBody full = Inr (msgType, drop 4 full, m)"
proof -
  from read_message [OF assms(1,2), of "[]"] obtain body where
    body: "ReadHandshakeMessage full = Inr ((msgType, body), length full)" "unmarshalBody body = Inr m"
    by auto
  have "body = drop 4 full"
    using body(2) AddMessage_marshal(2) [OF assms(2)] unmarshal_iff [of body m] by simp
  then show ?thesis using body assms(3) by (simp add: readBody_Inr_iff)
qed

end

definition ext_size :: "Extension list \<Rightarrow> nat" where
  "ext_size exts = sum_list (map (\<lambda>e. 4 + length (edata e)) exts)"

lemma ext_size_simps [simp]:
  "ext_size [] = 0" "ext_size (e # es) = 4 + length (edata e) + ext_size es"
  "ext_size (xs @ ys) = ext_size xs + ext_size ys"
  by (simp_all add: ext_size_def)

lemma marshalExtensionBody_total:
  "\<forall>e \<in> set exts. length (edata e) \<le> 0xFFFF \<Longrightarrow> \<exists>b. marshalExtensionBody exts = Inr b \<and> length b = ext_size exts"
  by (induction exts) (auto simp: not_less)

lemma edata_le_ext_size: "e \<in> set exts \<Longrightarrow> length (edata e) \<le> ext_size exts"
  by (induction exts) auto

lemma marshalExtensions_total:
  assumes "ext_size exts \<le> 0xFFFF"
  obtains b where "marshalExtensions exts = Inr b" "length b = 2 + ext_size exts"
proof -
  have "\<forall>e \<in> set exts. length (edata e) \<le> 0xFFFF"
    using edata_le_ext_size assms le_trans by blast
  from marshalExtensionBody_total [OF this] assms show thesis
    by (auto simp: marshalExtensions_def intro!: that)
qed

lemma Marshal_ClientHello_total:
  assumes "ext_size (ch_Extensions m) \<le> 0xFFFF" and "ch_LegacySessionID m = []"
    and "length (ch_Random m) = 32" and "CipherSuites m = [cs]"
  obtains full where "MarshalHandshakeMessage HandshakeTypeClientHello (ClientHello_marshalBody m) = Inr full"
proof -
  obtain b where "marshalExtensions (ch_Extensions m) = Inr b" "length b = 2 + ext_size (ch_Extensions m)"
    using marshalExtensions_total [OF assms(1)] .
  then show thesis
    using assms by (intro that) (simp add: ClientHello_marshalBody_def MarshalHandshakeMessage_def MaxHandshakeMessageLen_def)
qed

lemma Marshal_ServerHello_total:
  assumes "ext_size (sh_Extensions m) \<le> 0xFFFF" and "sh_LegacySessionID m = []"
    and "length (sh_Random m) = 32"
  obtains full where "MarshalHandshakeMessage HandshakeTypeServerHello (ServerHello_marshalBody m) = Inr full"
proof -
  obtain b where "marshalExtensions (sh_Extensions m) = Inr b" "length b = 2 + ext_size (sh_Extensions m)"
    using marshalExtensions_total [OF assms(1)] .
  then show thesis
    using assms by (intro that) (simp add: ServerHello_marshalBody_def MarshalHandshakeMessage_def MaxHandshakeMessageLen_def)
qed

lemma Marshal_EncryptedExtensions_total:
  assumes "ext_size exts \<le> 0xFFFF"
  obtains full where "MarshalHandshakeMessage HandshakeTypeEncryptedExtensions
    (EncryptedExtensions_marshalBody \<lparr>ee_Extensions = exts\<rparr>) = Inr full"
proof -
  obtain b where "marshalExtensions exts = Inr b" "length b = 2 + ext_size exts"
    using marshalExtensions_total [OF assms(1)] .
  then show thesis
    using assms by (intro that) (simp add: EncryptedExtensions_marshalBody_def MarshalHandshakeMessage_def MaxHandshakeMessageLen_def)
qed

lemma Marshal_Certificate_total:
  assumes "0 < length der" and "length der \<le> 8388608"
  obtains full where "MarshalHandshakeMessage HandshakeTypeCertificate (Certificate_marshalBody
    \<lparr>CertificateRequestContext = [], CertificateList = [\<lparr>Certificate = der, ce_Extensions = []\<rparr>]\<rparr>) = Inr full"
proof -
  obtain b where "marshalExtensions [] = Inr b" "length b = 2"
    using marshalExtensions_total [of "[]"] by auto
  then show thesis
    using assms by (intro that) (simp add: Certificate_marshalBody_def MarshalHandshakeMessage_def MaxHandshakeMessageLen_def)
qed

lemma Marshal_CertificateVerify_total:
  assumes "length sig \<le> 72"
  obtains full where "MarshalHandshakeMessage HandshakeTypeCertificateVerify
    (CertificateVerify_marshalBody \<lparr>SignatureScheme = s, Signature = sig\<rparr>) = Inr full"
  using assms by (intro that) (simp add: CertificateVerify_marshalBody_def MarshalHandshakeMessage_def MaxHandshakeMessageLen_def)

lemma Marshal_Finished_total:
  assumes "length vd = 32"
  obtains full where "MarshalHandshakeMessage HandshakeTypeFinished (Finished_marshalBody \<lparr>VerifyData = vd\<rparr>) = Inr full"
  using assms by (intro that) (simp add: Finished_marshalBody_def MarshalHandshakeMessage_def MaxHandshakeMessageLen_def)

text \<open>ALPN lists.\<close>

definition alpn_ok :: "bytes list \<Rightarrow> bool" where
  "alpn_ok ps \<longleftrightarrow> (\<forall>p \<in> set ps. 1 \<le> length p \<and> length p \<le> 255)"

definition alpn_size :: "bytes list \<Rightarrow> nat" where
  "alpn_size ps = sum_list (map (\<lambda>p. 1 + length p) ps)"

lemma marshalALPN_total:
  assumes "alpn_ok ps"
  obtains b where "marshalALPNExtension ps = Inr b" "length b = 2 + alpn_size ps"
proof -
  have "alpn_ok ps \<Longrightarrow> \<exists>out. marshalALPNNames ps = Inr out \<and> length out = alpn_size ps"
    by (induction ps) (auto simp: alpn_ok_def alpn_size_def)
  then show thesis using assms that by (auto simp: marshalALPNExtension_def)
qed

section \<open>The key schedule succeeds\<close>

lemma DeriveHandshakeSecret_total:
  assumes "sm3_ok g"
  obtains hs where "DeriveHandshakeSecret g es ss = Inr hs"
proof -
  obtain d where "DeriveSecret g es LabelDerived (sm3_Sum g []) = Inr d"
    using DeriveSecret_total [OF assms, of LabelDerived "sm3_Sum g []" es] assms by (auto simp: all_labels_def)
  then show thesis by (intro that) (auto simp: DeriveHandshakeSecret_def HKDFExtract_def Let_def)
qed

lemma DeriveMasterSecret_total:
  assumes "sm3_ok g"
  obtains ms where "DeriveMasterSecret g hs = Inr ms"
proof -
  obtain d where "DeriveSecret g hs LabelDerived (sm3_Sum g []) = Inr d"
    using DeriveSecret_total [OF assms, of LabelDerived "sm3_Sum g []" hs] assms by (auto simp: all_labels_def)
  then show thesis by (intro that) (auto simp: DeriveMasterSecret_def HKDFExtract_def)
qed

text \<open>A traffic secret and its packet keys.\<close>

lemma traffic_total:
  assumes "sm3_ok g" and "label \<in> set all_labels"
  obtains s k where "DeriveSecret g secret label (Transcript_Sum g t) = Inr s" "length s = 32"
    "DeriveQUICPacketKeys g s = Inr k"
proof -
  obtain s where s: "DeriveSecret g secret label (Transcript_Sum g t) = Inr s" "length s = 32"
    using DeriveSecret_total [OF assms, of "Transcript_Sum g t" secret] assms by auto
  then have "s \<noteq> []" by auto
  then obtain k where "DeriveQUICPacketKeys g s = Inr k" using DeriveQUICPacketKeys_total [OF assms(1)] by metis
  then show thesis using that s by blast
qed

lemma finished_total:
  assumes "sm3_ok g"
  obtains fk vd where "DeriveFinishedKey g ts = Inr fk"
    "\<And>h. ComputeFinishedVerifyData g fk h = Inr (vd h)" "\<And>h. length (vd h) = 32"
proof -
  obtain fk where fk: "DeriveFinishedKey g ts = Inr fk" "length fk = 32"
    using HKDFExpandLabel_total [OF assms, of LabelFinished "[]" 32 ts]
    by (auto simp: DeriveFinishedKey_def label_defs)
  then have "fk \<noteq> []" by auto
  then show thesis
    using fk assms by (intro that [of fk "NewHMAC g fk"]) (auto simp: ComputeFinishedVerifyData_def)
qed

lemma schedule_labels [simp]:
  "LabelClientHSTraffic \<in> set all_labels" "LabelServerHSTraffic \<in> set all_labels"
  "LabelClientAPTraffic \<in> set all_labels" "LabelServerAPTraffic \<in> set all_labels"
  "LabelResumptionMaster \<in> set all_labels" "LabelClientEarlyTraffic \<in> set all_labels"
  by (simp_all add: all_labels_def)

section \<open>The ClientHello\<close>

definition alpn_exts :: "bytes list \<Rightarrow> Extension list" where
  "alpn_exts ps =
    (if ps = [] then []
     else (case marshalALPNExtension ps of
             Inl _ \<Rightarrow> []
           | Inr b \<Rightarrow> [\<lparr>etype = ExtensionTypeALPN, edata = b\<rparr>]))"

definition param_exts :: "bytes option \<Rightarrow> Extension list" where
  "param_exts tp =
    (case tp of None \<Rightarrow> [] | Some b \<Rightarrow> [\<lparr>etype = ExtensionTypeQUICTransportParams, edata = b\<rparr>])"

definition early_exts :: "bool \<Rightarrow> Extension list" where
  "early_exts b = (if b then [\<lparr>etype = ExtensionTypeEarlyData, edata = []\<rparr>] else [])"

definition psk_exts :: "bytes option \<Rightarrow> Extension list" where
  "psk_exts d = (case d of None \<Rightarrow> [] | Some b \<Rightarrow> [\<lparr>etype = ExtensionTypePreSharedKey, edata = b\<rparr>])"

lemma find_optional [simp]:
  "findExtension (alpn_exts ps @ r) t = (if t = ExtensionTypeALPN \<and> alpn_exts ps \<noteq> [] then edata (hd (alpn_exts ps)) else findExtension r t)"
  "findExtension (param_exts tp @ r) t = (if t = ExtensionTypeQUICTransportParams \<and> tp \<noteq> None then the tp else findExtension r t)"
  "findExtension (early_exts e @ r) t = (if t = ExtensionTypeEarlyData \<and> e then [] else findExtension r t)"
  "findExtension (psk_exts d @ r) t = (if t = ExtensionTypePreSharedKey \<and> d \<noteq> None then the d else findExtension r t)"
  by (auto simp: alpn_exts_def param_exts_def early_exts_def psk_exts_def split: sum.splits option.splits)

lemma has_optional [simp]:
  "hasExtension (alpn_exts ps) t = (t = ExtensionTypeALPN \<and> alpn_exts ps \<noteq> [])"
  "hasExtension (param_exts tp) t = (t = ExtensionTypeQUICTransportParams \<and> tp \<noteq> None)"
  "hasExtension (early_exts e) t = (t = ExtensionTypeEarlyData \<and> e)"
  "hasExtension (psk_exts d) t = (t = ExtensionTypePreSharedKey \<and> d \<noteq> None)"
  by (auto simp: alpn_exts_def param_exts_def early_exts_def psk_exts_def split: sum.splits option.splits)

text \<open>The ClientHello a fresh client sends; \<open>d\<close> is the pre-shared-key extension, if any.\<close>

definition helloMsg :: "'x x509_scheme \<Rightarrow> ClientHandshaker \<Rightarrow> bytes \<Rightarrow> bytes option \<Rightarrow> ClientHelloMsg" where
  "helloMsg g c random d =
    \<lparr>ch_LegacyVersion = VersionTLS12, ch_Random = random, ch_LegacySessionID = [],
     CipherSuites = [TLS_SM4_GCM_SM3],
     ch_Extensions = helloExtensions g c @ alpn_exts (c_nextProtos c) @ param_exts (c_localTransportParams c)
       @ early_exts (offerEarlyData c \<and> d \<noteq> None) @ psk_exts d\<rparr>"

definition params_size :: "bytes option \<Rightarrow> nat" where
  "params_size tp = (case tp of None \<Rightarrow> 0 | Some b \<Rightarrow> length b)"

text \<open>Sizes that fit the sixteen-bit lengths with room to spare.\<close>

definition client_sizes_ok :: "ClientHandshaker \<Rightarrow> bool" where
  "client_sizes_ok c \<longleftrightarrow> alpn_ok (c_nextProtos c) \<and> alpn_size (c_nextProtos c) \<le> 10000
     \<and> params_size (c_localTransportParams c) \<le> 10000 \<and> length (resumptionIdentity c) \<le> 10000"

lemma helloMsg_wf: "length random = 32 \<Longrightarrow> ClientHello_wf (helloMsg g c random d)"
  by (simp add: ClientHello_wf_def helloMsg_def legacy_version_ok_def VersionTLS12_def)

lemma length_keyshare:
  "length key = 65 \<Longrightarrow> length (marshalClientKeyShare grp key) = 71"
  "length key = 65 \<Longrightarrow> length (marshalServerKeyShare grp key) = 69"
  by (auto simp: marshalClientKeyShare_def marshalServerKeyShare_def)

lemma ext_size_alpn: "alpn_ok ps \<Longrightarrow> ext_size (alpn_exts ps) \<le> 6 + alpn_size ps"
  by (erule marshalALPN_total) (simp add: alpn_exts_def)

lemma ext_size_optional:
  "ext_size (param_exts tp) \<le> 4 + params_size tp" "ext_size (early_exts e) \<le> 4"
  by (auto simp: param_exts_def params_size_def early_exts_def split: option.splits)

lemma ext_size_hello:
  assumes "sm2_ok g" and "sm2_KeyPair g (c_ephemeral c)"
  shows "ext_size (helloExtensions g c) = 104"
  using length_keyshare(1) [OF sm2_key_facts(3) [OF assms]]
  by (simp add: helloExtensions_def marshalPSKKeyExchangeModesExtension_def)

lemma ext_size_helloMsg:
  assumes "sm2_ok g" and "sm2_KeyPair g (c_ephemeral c)" and "client_sizes_ok c"
    and "\<And>b. d = Some b \<Longrightarrow> length b \<le> 10100"
  shows "ext_size (ch_Extensions (helloMsg g c random d)) \<le> 0xFFFF"
proof -
  have "ext_size (psk_exts d) \<le> 10104" using assms(4) by (auto simp: psk_exts_def split: option.splits)
  then show ?thesis
    using ext_size_hello [OF assms(1,2)] ext_size_alpn [of "c_nextProtos c"]
      ext_size_optional(1) [of "c_localTransportParams c"] ext_size_optional(2) [of "offerEarlyData c \<and> d \<noteq> None"]
      assms(3)
    by (simp add: helloMsg_def client_sizes_ok_def)
qed

lemma alpn_exts_built:
  "alpn_ok ps \<Longrightarrow>
    (if length ps > 0
     then bindE (mapE HsAlpn (marshalALPNExtension ps)) (\<lambda>e. Inr [\<lparr>etype = ExtensionTypeALPN, edata = e\<rparr>])
     else Inr []) = Inr (alpn_exts ps)"
  by (erule marshalALPN_total) (simp add: alpn_exts_def)

lemma build_no_psk:
  assumes "alpn_ok (c_nextProtos c)" and "resumptionPSK c = None"
  shows "buildClientHello g c (Some random) None
    = mapE HsBody (MarshalHandshakeMessage HandshakeTypeClientHello (ClientHello_marshalBody (helloMsg g c random None)))"
  unfolding buildClientHello_def option.case alpn_exts_built [OF assms(1)]
  by (simp add: assms(2) helloMsg_def param_exts_def early_exts_def psk_exts_def Let_def)

definition preHello :: "'x x509_scheme \<Rightarrow> ClientHandshaker \<Rightarrow> bytes \<Rightarrow> ClientHelloMsg" where
  "preHello g c random =
    \<lparr>ch_LegacyVersion = VersionTLS12, ch_Random = random, ch_LegacySessionID = [],
     CipherSuites = [TLS_SM4_GCM_SM3],
     ch_Extensions = helloExtensions g c @ alpn_exts (c_nextProtos c) @ param_exts (c_localTransportParams c)
       @ early_exts (offerEarlyData c)\<rparr>"

lemma helloMsg_psk:
  "helloMsg g c random (Some d) =
    (preHello g c random)\<lparr>ch_Extensions := ch_Extensions (preHello g c random)
      @ [\<lparr>etype = ExtensionTypePreSharedKey, edata = d\<rparr>]\<rparr>"
  by (simp add: helloMsg_def preHello_def psk_exts_def)

lemma preHello_no_psk: "\<not> hasExtension (ch_Extensions (preHello g c random)) ExtensionTypePreSharedKey"
  by (simp add: preHello_def helloExtensions_def extension_types)

lemma build_psk_step:
  assumes "alpn_ok (c_nextProtos c)" and "resumptionPSK c = Some psk"
  shows "buildClientHello g c (Some random) None =
    bindE (mapE HsBody (pskBinderTranscript (preHello g c random) [pskIdentity c])) (\<lambda>truncated.
    bindE (mapE HsKdf (computeResumptionBinder g psk (Transcript_Bytes (c_transcript c) @ truncated))) (\<lambda>binder.
    bindE (mapE HsPsk (marshalPreSharedKeyExtension [pskIdentity c] [binder])) (\<lambda>d.
    mapE HsBody (MarshalHandshakeMessage HandshakeTypeClientHello
      (ClientHello_marshalBody (helloMsg g c random (Some d)))))))"
  unfolding buildClientHello_def option.case alpn_exts_built [OF assms(1)]
  by (auto simp: assms(2) helloMsg_psk preHello_def param_exts_def early_exts_def appendPreSharedKey_def Let_def
      cong: bindE_cong)

lemma binderField_nonempty [simp]: "binderField b \<noteq> []"
  by (simp add: binderField_def)

lemma pskExt_total:
  assumes "client_sizes_ok c" and "length binder = 32"
  obtains d where "marshalPreSharedKeyExtension [pskIdentity c] [binder] = Inr d" "length d \<le> 10100" "d \<noteq> []"
proof -
  have "marshalPreSharedKeyExtension [pskIdentity c] [binder] = Inr (pskPrefix (pskIdentity c) @ binderField binder)"
    using marshalPreSharedKey_single [OF assms(2), of "pskIdentity c"] assms(1)
    by (simp add: pskIdentity_def client_sizes_ok_def)
  then show thesis
    using assms by (intro that [of "pskPrefix (pskIdentity c) @ binderField binder"])
      (simp_all add: pskPrefix_def pskIdentity_def client_sizes_ok_def)
qed

lemma Marshal_helloMsg:
  assumes "sm2_ok g" and "sm2_KeyPair g (c_ephemeral c)" and "client_sizes_ok c" and "length random = 32"
    and "\<And>b. d = Some b \<Longrightarrow> length b \<le> 10100"
  obtains full where "MarshalHandshakeMessage HandshakeTypeClientHello
    (ClientHello_marshalBody (helloMsg g c random d)) = Inr full"
  by (rule Marshal_ClientHello_total [of "helloMsg g c random d" TLS_SM4_GCM_SM3])
     (use ext_size_helloMsg [OF assms(1,2,3,5)] assms(4) that in \<open>auto simp: helloMsg_def\<close>)

text \<open>
  The pre-shared-key extension of the message that is sent: its binder is the one the
  server will recompute from the message.
\<close>

definition psk_offer :: "'x x509_scheme \<Rightarrow> ClientHandshaker \<Rightarrow> bytes \<Rightarrow> bytes option \<Rightarrow> bool" where
  "psk_offer g c random d \<longleftrightarrow>
    (case (resumptionPSK c, d) of
       (None, None) \<Rightarrow> True
     | (Some psk, Some b) \<Rightarrow>
         \<exists>trunc binder. pskBinderTranscript (helloMsg g c random d) [pskIdentity c] = Inr trunc
           \<and> computeResumptionBinder g psk trunc = Inr binder
           \<and> parsePreSharedKeyExtension b = Inr ([pskIdentity c], [binder]) \<and> b \<noteq> []
     | _ \<Rightarrow> False)"

lemma buildClientHello_sent:
  assumes "sm3_ok g" and "sm2_ok g" and "sm2_KeyPair g (c_ephemeral c)" and "client_sizes_ok c"
    and "length random = 32" and "Transcript_Bytes (c_transcript c) = []"
  obtains full d where "buildClientHello g c (Some random) None = Inr full"
    "MarshalHandshakeMessage HandshakeTypeClientHello (ClientHello_marshalBody (helloMsg g c random d)) = Inr full"
    "psk_offer g c random d"
proof (cases "resumptionPSK c")
  case None
  obtain full where "MarshalHandshakeMessage HandshakeTypeClientHello
      (ClientHello_marshalBody (helloMsg g c random None)) = Inr full"
    using Marshal_helloMsg [OF assms(2-5), of None] by auto
  then show thesis
    using that [of full None] None assms(4) by (simp add: build_no_psk client_sizes_ok_def psk_offer_def)
next
  case (Some psk)
  let ?z = "replicate 32 (0 :: byte)"
  obtain dz where dz: "marshalPreSharedKeyExtension [pskIdentity c] [?z] = Inr dz" "length dz \<le> 10100"
    using pskExt_total [OF assms(4), of ?z] by auto
  obtain fz where fz: "MarshalHandshakeMessage HandshakeTypeClientHello
      (ClientHello_marshalBody (helloMsg g c random (Some dz))) = Inr fz"
    using Marshal_helloMsg [OF assms(2-5), of "Some dz"] dz by auto
  from binder_transcript_prefix [OF preHello_no_psk dz(1) _ fz [unfolded helloMsg_psk]]
  obtain trunc where trunc: "pskBinderTranscript (preHello g c random) [pskIdentity c] = Inr trunc" by auto
  obtain b where bi: "computeResumptionBinder g psk trunc = Inr b" "length b = 32"
    using computeResumptionBinder_total [OF assms(1)] .
  obtain d where d: "marshalPreSharedKeyExtension [pskIdentity c] [b] = Inr d" "length d \<le> 10100" "d \<noteq> []"
    using pskExt_total [OF assms(4) bi(2)] .
  obtain full where full: "MarshalHandshakeMessage HandshakeTypeClientHello
      (ClientHello_marshalBody (helloMsg g c random (Some d))) = Inr full"
    using Marshal_helloMsg [OF assms(2-5), of "Some d"] d by auto
  from binder_transcript_prefix [OF preHello_no_psk d(1) bi(2) full [unfolded helloMsg_psk]] trunc
  have "pskBinderTranscript (helloMsg g c random (Some d)) [pskIdentity c] = Inr trunc"
    by (auto simp: helloMsg_psk)
  moreover have "parsePreSharedKeyExtension d = Inr ([pskIdentity c], [b])"
    using parse_marshal_psk [OF d(1), of "[]"] d(2) by simp
  ultimately have "psk_offer g c random (Some d)"
    using Some bi d(3) by (simp add: psk_offer_def)
  moreover have "buildClientHello g c (Some random) None = Inr full"
    using assms(4,6) Some trunc bi d(1) full by (simp add: build_psk_step client_sizes_ok_def)
  ultimately show thesis using that full by blast
qed

section \<open>The server reads the ClientHello\<close>

lemma find_nil_tail [simp]:
  "findExtension (alpn_exts ps) t = (if t = ExtensionTypeALPN \<and> alpn_exts ps \<noteq> [] then edata (hd (alpn_exts ps)) else [])"
  "findExtension (psk_exts d) t = (if t = ExtensionTypePreSharedKey \<and> d \<noteq> None then the d else [])"
  "findExtension (early_exts e) t = []"
  by (auto simp: alpn_exts_def early_exts_def psk_exts_def split: sum.splits option.splits)

lemma helloMsg_find:
  "findExtension (ch_Extensions (helloMsg g c random d)) ExtensionTypeSupportedVersions = [0x02, 0x03, 0x04]"
  "findExtension (ch_Extensions (helloMsg g c random d)) ExtensionTypeSignatureAlgorithms = [0x00, 0x02] @ be 2 (unat SM2SigSM3)"
  "findExtension (ch_Extensions (helloMsg g c random d)) ExtensionTypeSupportedGroups = [0x00, 0x02] @ be 2 (unat CurveSM2)"
  "findExtension (ch_Extensions (helloMsg g c random d)) ExtensionTypeKeyShare
    = marshalClientKeyShare CurveSM2 (MarshalUncompressed g (Some (Public (c_ephemeral c))))"
  "findExtension (ch_Extensions (helloMsg g c random d)) ExtensionTypePSKKeyExchangeModes
    = marshalPSKKeyExchangeModesExtension [PSKKeyExchangeModeDHEKE]"
  "findExtension (ch_Extensions (helloMsg g c random d)) ExtensionTypeALPN = findExtension (alpn_exts (c_nextProtos c)) ExtensionTypeALPN"
  "findExtension (ch_Extensions (helloMsg g c random d)) ExtensionTypeQUICTransportParams
    = (case c_localTransportParams c of None \<Rightarrow> [] | Some b \<Rightarrow> b)"
  "findExtension (ch_Extensions (helloMsg g c random d)) ExtensionTypePreSharedKey = (case d of None \<Rightarrow> [] | Some b \<Rightarrow> b)"
  "hasExtension (ch_Extensions (helloMsg g c random d)) ExtensionTypeEarlyData = (offerEarlyData c \<and> d \<noteq> None)"
  by (auto simp: helloMsg_def helloExtensions_def extension_types split: option.splits)

lemma capability_checks:
  "containsUint16List [0x02, 0x03, 0x04] 1 VersionTLS13"
  "containsUint16List ([0x00, 0x02] @ be 2 (unat SM2SigSM3)) 2 SM2SigSM3"
  "containsUint16List ([0x00, 0x02] @ be 2 (unat CurveSM2)) 2 CurveSM2"
  "offersPSKDHEKE (marshalPSKKeyExchangeModesExtension [PSKKeyExchangeModeDHEKE])"
  by (simp_all add: containsUint16List_def offersPSKDHEKE_def marshalPSKKeyExchangeModesExtension_def
      VersionTLS13_def SM2SigSM3_def CurveSM2_def be2_cons unbe_two Let_def)

definition agreedProto :: "bytes list \<Rightarrow> bytes list \<Rightarrow> bytes" where
  "agreedProto cps sps =
    (if cps = [] \<or> sps = [] then []
     else (case List.find (\<lambda>cp. list_ex (\<lambda>sp. cp = sp) sps) cps of None \<Rightarrow> [] | Some p \<Rightarrow> p))"

definition alpn_compatible :: "bytes list \<Rightarrow> bytes list \<Rightarrow> bool" where
  "alpn_compatible cps sps \<longleftrightarrow> cps \<noteq> [] \<longrightarrow> (\<exists>p \<in> set cps. p \<in> set sps)"

lemma alpn_ext_parses:
  assumes "alpn_ok ps" and "ps \<noteq> []" and "alpn_size ps \<le> 10000"
  obtains b where "findExtension (alpn_exts ps) ExtensionTypeALPN = b" "b \<noteq> []" "parseALPNExtension b = Inr ps"
proof -
  obtain b where b: "marshalALPNExtension ps = Inr b" "length b = 2 + alpn_size ps"
    using marshalALPN_total [OF assms(1)] .
  then have "b \<noteq> []" by auto
  then show thesis
    using parse_marshal_alpn [OF b(1) assms(2)] b assms by (intro that) (auto simp: alpn_exts_def)
qed

lemma find_overlap:
  assumes "alpn_compatible cps sps" and "cps \<noteq> []"
  obtains p where "List.find (\<lambda>cp. list_ex (\<lambda>sp. cp = sp) sps) cps = Some p" "p \<in> set cps" "p \<in> set sps"
proof (cases "List.find (\<lambda>cp. list_ex (\<lambda>sp. cp = sp) sps) cps")
  case None
  then show thesis using assms by (auto simp: find_None_iff alpn_compatible_def list_ex_iff)
next
  case (Some p)
  then show thesis using that [of p] by (fastforce simp: find_Some_iff list_ex_iff)
qed

lemma selectALPN_agreed:
  assumes "alpn_ok (c_nextProtos c)" and "alpn_size (c_nextProtos c) \<le> 10000"
    and "alpn_compatible (c_nextProtos c) (s_nextProtos s)" and "s_negotiatedProto s = []"
  shows "selectALPN s (helloMsg g c random d) = Inr (agreedProto (c_nextProtos c) (s_nextProtos s))"
proof (cases "c_nextProtos c = []")
  case True
  then show ?thesis using assms(4) by (simp add: selectALPN_def helloMsg_find alpn_exts_def agreedProto_def)
next
  case False
  obtain b where b: "findExtension (alpn_exts (c_nextProtos c)) ExtensionTypeALPN = b" "b \<noteq> []"
    "parseALPNExtension b = Inr (c_nextProtos c)"
    using alpn_ext_parses [OF assms(1) False assms(2)] .
  obtain p where p: "List.find (\<lambda>cp. list_ex (\<lambda>sp. cp = sp) (s_nextProtos s)) (c_nextProtos c) = Some p"
    "p \<in> set (c_nextProtos c)" "p \<in> set (s_nextProtos s)"
    using find_overlap [OF assms(3) False] .
  then have "p \<noteq> []" "s_nextProtos s \<noteq> []" using assms(1) by (auto simp: alpn_ok_def)
  then show ?thesis
    using b p False unfolding selectALPN_def helloMsg_find Let_def b(1) by (simp add: agreedProto_def)
qed

definition given_params :: "bytes option \<Rightarrow> bytes \<Rightarrow> bytes" where
  "given_params tp old = (case tp of None \<Rightarrow> old | Some b \<Rightarrow> if b \<noteq> [] then b else old)"

lemma HandleClientHello_sent:
  assumes "sm2_ok g" and "sm2_KeyPair g (c_ephemeral c)" and "client_sizes_ok c" and "length random = 32"
    and "MarshalHandshakeMessage HandshakeTypeClientHello (ClientHello_marshalBody (helloMsg g c random d)) = Inr full"
    and "s_phase s = serverPhaseNone" and "s_negotiatedProto s = []"
    and "alpn_compatible (c_nextProtos c) (s_nextProtos s)"
  shows "HandleClientHello g s env full = handleOfferedPSK g
    (s\<lparr>s_negotiatedProto := agreedProto (c_nextProtos c) (s_nextProtos s),
       s_transcript := AddMessage (s_transcript s) HandshakeTypeClientHello (drop 4 full),
       clientPub := Some (Public (c_ephemeral c)),
       s_peerTransportParams := given_params (c_localTransportParams c) (s_peerTransportParams s),
       s_phase := serverAfterClientHello\<rparr>) env (helloMsg g c random d)"
proof -
  note rd = clientHello.readBody_marshalled [OF helloMsg_wf [OF assms(4)] assms(5),
    of "\<lambda>ty. ty = HandshakeTypeClientHello", simplified]
  note al = selectALPN_agreed [of c s g random d, OF _ _ assms(8,7)]
  let ?k = "MarshalUncompressed g (Some (Public (c_ephemeral c)))"
  have len: "length ?k = 65" and un: "UnmarshalUncompressed g ?k = Inr (Public (c_ephemeral c))"
    using sm2_key_facts(3,4) [OF assms(1,2)] by auto
  have ks: "parseClientKeyShare (marshalClientKeyShare CurveSM2 ?k) CurveSM2 = Inr ?k"
    "marshalClientKeyShare CurveSM2 ?k \<noteq> []"
    using parse_marshal_client_keyshare [of ?k CurveSM2] length_keyshare(1) [OF len, of CurveSM2] len by auto
  have cs: "containsCipherSuite (CipherSuites (helloMsg g c random d)) TLS_SM4_GCM_SM3"
    by (simp add: containsCipherSuite_def helloMsg_def)
  have u: "s\<lparr>s_peerTransportParams := s_peerTransportParams s\<rparr> = s" by simp
  show ?thesis
    using al assms(3,6) capability_checks(1-3) ks cs un
    unfolding HandleClientHello_def rd tryS_simps prod.case helloMsg_find Let_def
    by (auto simp: client_sizes_ok_def given_params_def split: option.splits)
qed

section \<open>After the ClientHello\<close>

definition hello_rel :: "ClientHandshaker \<Rightarrow> 'e ServerHandshaker \<Rightarrow> bool" where
  "hello_rel c s \<longleftrightarrow>
     c_phase c = clientAfterClientHello \<and> s_phase s = serverAfterClientHello
     \<and> c_transcript c = s_transcript s \<and> transcript_ok (c_transcript c)
     \<and> clientPub s = Some (Public (c_ephemeral c)) \<and> \<not> pskMode c
     \<and> (\<forall>psk. resumptionSelectedPSK s = Some psk \<longrightarrow> resumptionPSK c = Some psk)
     \<and> (\<forall>k. ClientEarlyKeys (s_secrets s) = Some k \<longrightarrow>
          offerEarlyData c \<and> resumptionSelectedPSK s \<noteq> None \<and> ClientEarlyKeys (c_secrets c) = Some k)"

text \<open>The secrets of the handshake level, written to both sides.\<close>

definition hs_secrets ::
  "QUICPacketKeys \<Rightarrow> QUICPacketKeys \<Rightarrow> bytes \<Rightarrow> bytes \<Rightarrow> HandshakeSecrets \<Rightarrow> HandshakeSecrets" where
  "hs_secrets ck sk cht sht h =
    h\<lparr>ClientHandshakeKeys := Some ck, ServerHandshakeKeys := Some sk,
      ClientHandshakeTrafficSecret := cht, ServerHandshakeTrafficSecret := sht\<rparr>"

lemma serverHelloMsg_find:
  "findExtension (sh_Extensions (serverHelloMsg g s random)) ExtensionTypeSupportedVersions = [0x03, 0x04]"
  "findExtension (sh_Extensions (serverHelloMsg g s random)) ExtensionTypeKeyShare
    = marshalServerKeyShare CurveSM2 (MarshalUncompressed g (Some (Public (s_ephemeral s))))"
  "findExtension (sh_Extensions (serverHelloMsg g s random)) ExtensionTypePreSharedKey
    = (if resumptionSelectedPSK s \<noteq> None then [0x00, 0x00] else [])"
  by (simp_all add: serverHelloMsg_def extension_types)

lemma serverHelloMsg_wf: "length random = 32 \<Longrightarrow> ServerHello_wf (serverHelloMsg g s random)"
  by (simp add: ServerHello_wf_def serverHelloMsg_def legacy_version_ok_def VersionTLS12_def)

lemma server_hello_step:
  fixes s :: "'e ServerHandshaker"
  assumes "sm3_ok g" and "sm2_ok g" and "sm2_KeyPair g (c_ephemeral c)" and "sm2_KeyPair g (s_ephemeral s)"
    and "hello_rel c s" and "length random = 32" and "random \<noteq> helloRetryRequestRandom"
  obtains sh hs cht sht ck sk where
    "sendServerHello g s (Some random) =
      (s\<lparr>s_transcript := AddMessage (s_transcript s) HandshakeTypeServerHello (drop 4 sh),
         s_handshakeSecret := hs, s_clientHSTraffic := cht, s_serverHSTraffic := sht,
         s_secrets := hs_secrets ck sk cht sht (s_secrets s)\<rparr>, Inr sh)"
    "HandleServerHello g c sh =
      (c\<lparr>pskMode := (resumptionSelectedPSK s \<noteq> None),
         c_transcript := AddMessage (s_transcript s) HandshakeTypeServerHello (drop 4 sh),
         c_handshakeSecret := hs, c_clientHSTraffic := cht, c_serverHSTraffic := sht,
         c_secrets := hs_secrets ck sk cht sht (c_secrets c),
         c_phase := clientAfterServerHello\<rparr>, Inr ())"
proof -
  let ?k = "MarshalUncompressed g (Some (Public (s_ephemeral s)))"
  have len: "length ?k = 65" and un: "UnmarshalUncompressed g ?k = Inr (Public (s_ephemeral s))"
    using sm2_key_facts(3,4) [OF assms(2,4)] by auto
  have ks: "parseServerKeyShare (marshalServerKeyShare CurveSM2 ?k) CurveSM2 = Inr ?k"
    "marshalServerKeyShare CurveSM2 ?k \<noteq> []"
    using parse_marshal_server_keyshare [of ?k CurveSM2] length_keyshare(2) [OF len, of CurveSM2] len by auto
  have "ext_size (sh_Extensions (serverHelloMsg g s random)) \<le> 0xFFFF"
    using length_keyshare(2) [OF len, of CurveSM2] by (simp add: serverHelloMsg_def)
  then obtain sh where sh: "MarshalHandshakeMessage HandshakeTypeServerHello
      (ServerHello_marshalBody (serverHelloMsg g s random)) = Inr sh"
    using Marshal_ServerHello_total [of "serverHelloMsg g s random"] assms(6) by (auto simp: serverHelloMsg_def)
  note rd = serverHello.readBody_marshalled [OF serverHelloMsg_wf [OF assms(6)] sh,
    of "\<lambda>ty. ty = HandshakeTypeServerHello", simplified]
  define t where "t = AddMessage (s_transcript s) HandshakeTypeServerHello (drop 4 sh)"
  obtain ss where ss: "CurveSM2ECDHE g (Some (s_ephemeral s)) (Some (Public (c_ephemeral c))) = Inr ss"
    "CurveSM2ECDHE g (Some (c_ephemeral c)) (Some (Public (s_ephemeral s))) = Inr ss"
    using ecdhe_agree [OF assms(2,4,3)] .
  obtain es where es: "DeriveEarlySecret g (case resumptionSelectedPSK s of None \<Rightarrow> [] | Some p \<Rightarrow> p) = Inr es"
    using DeriveEarlySecret_Inr by blast
  obtain hs where hs: "DeriveHandshakeSecret g es ss = Inr hs" using DeriveHandshakeSecret_total [OF assms(1)] .
  obtain cht ck where c: "DeriveSecret g hs LabelClientHSTraffic (Transcript_Sum g t) = Inr cht"
    "DeriveQUICPacketKeys g cht = Inr ck"
    using traffic_total [OF assms(1) schedule_labels(1)] by metis
  obtain sht sk where sv: "DeriveSecret g hs LabelServerHSTraffic (Transcript_Sum g t) = Inr sht"
    "DeriveQUICPacketKeys g sht = Inr sk"
    using traffic_total [OF assms(1) schedule_labels(2)] by metis
  have rel: "c_phase c = clientAfterClientHello" "c_transcript c = s_transcript s" "\<not> pskMode c"
    "clientPub s = Some (Public (c_ephemeral c))"
    "\<And>psk. resumptionSelectedPSK s = Some psk \<Longrightarrow> resumptionPSK c = Some psk"
    using assms(5) by (simp_all add: hello_rel_def)
  have "sendServerHello g s (Some random) =
      (s\<lparr>s_transcript := t, s_handshakeSecret := hs, s_clientHSTraffic := cht, s_serverHSTraffic := sht,
         s_secrets := hs_secrets ck sk cht sht (s_secrets s)\<rparr>, Inr sh)"
    by (simp add: sendServerHello_def sh t_def [symmetric] ss es hs c sv rel Let_def hs_secrets_def)
  moreover have "HandleServerHello g c sh =
      (c\<lparr>pskMode := (resumptionSelectedPSK s \<noteq> None), c_transcript := t, c_handshakeSecret := hs,
         c_clientHSTraffic := cht, c_serverHSTraffic := sht,
         c_secrets := hs_secrets ck sk cht sht (c_secrets c), c_phase := clientAfterServerHello\<rparr>, Inr ())"
  proof -
    have v: "CipherSuite (serverHelloMsg g s random) = TLS_SM4_GCM_SM3"
      "sh_Random (serverHelloMsg g s random) = random" by (simp_all add: serverHelloMsg_def)
    have tls: "(of_nat (unbe [0x03, 0x04]) :: u16) = VersionTLS13" by (simp add: unbe_two VersionTLS13_def)
    show ?thesis
    proof (cases "resumptionSelectedPSK s")
      case None
      then show ?thesis
        using es unfolding HandleServerHello_def rd tryS_simps prod.case v serverHelloMsg_find Let_def
        by (simp add: rel ks un ss tls deriveClientHandshakeKeys_def Let_def hs c sv t_def [symmetric]
            hs_secrets_def assms(7) VersionTLS13_def del: unbe_Cons)
    next
      case (Some psk)
      then show ?thesis
        using es unfolding HandleServerHello_def rd tryS_simps prod.case v serverHelloMsg_find Let_def
        by (simp add: rel ks un ss tls deriveClientHandshakeKeys_def Let_def hs c sv t_def [symmetric]
            hs_secrets_def assms(7) VersionTLS13_def del: unbe_Cons)
    qed
  qed
  ultimately show thesis using that t_def by blast
qed

end
