(* ===== verification/Flight.thy ===== *)
theory Flight
  imports Agreement
begin

text \<open>
  The rest of the run of two handshakers, from the pre-shared key of the ClientHello to
  the Finished messages and the session ticket: each lemma takes one message from the
  side that sends it to the side that reads it.
\<close>

section \<open>ClientHello\<close>

text \<open>
  The pre-shared key the server selects: the one in the client's ticket, if the server
  can open the ticket. \<open>ticket_consistent\<close> says that the ticket carries the client's key.
\<close>

definition opened_ticket ::
  "'x x509_scheme \<Rightarrow> 'e ServerHandshaker \<Rightarrow> 'e \<Rightarrow> ClientHandshaker \<Rightarrow> ticket_error + (bytes \<times> u32 \<times> bytes)" where
  "opened_ticket g s env c =
    (case ticketKeys s of
       None \<Rightarrow> Inl TicketNoKey
     | Some getKeys \<Rightarrow> DecryptSessionTicketWithData g (fst (getKeys env)) (resumptionIdentity c))"

definition ticket_consistent :: "'x x509_scheme \<Rightarrow> 'e ServerHandshaker \<Rightarrow> 'e \<Rightarrow> ClientHandshaker \<Rightarrow> bool" where
  "ticket_consistent g s env c \<longleftrightarrow>
    (\<forall>psk. resumptionPSK c = Some psk \<longrightarrow> ticketKeys s \<noteq> None
       \<and> (\<forall>p a d. opened_ticket g s env c = Inr (p, a, d) \<longrightarrow> p = psk))"

definition selected_psk :: "'x x509_scheme \<Rightarrow> 'e ServerHandshaker \<Rightarrow> 'e \<Rightarrow> ClientHandshaker \<Rightarrow> bytes option" where
  "selected_psk g s env c =
    (case (resumptionPSK c, opened_ticket g s env c) of
       (Some psk, Inr _) \<Rightarrow> Some psk
     | _ \<Rightarrow> None)"

text \<open>What \<open>HandleClientHello\<close> leaves of the server it was called on.\<close>

definition same_server :: "'e ServerHandshaker \<Rightarrow> 'e ServerHandshaker \<Rightarrow> bool" where
  "same_server s s' \<longleftrightarrow> s_ephemeral s' = s_ephemeral s \<and> serverCert s' = serverCert s
     \<and> serverKey s' = serverKey s \<and> s_localTransportParams s' = s_localTransportParams s
     \<and> ticketKeys s' = ticketKeys s \<and> acceptedEarlyData s' = acceptedEarlyData s"

definition helloed_server ::
  "ClientHandshaker \<Rightarrow> 'e ServerHandshaker \<Rightarrow> bytes \<Rightarrow> 'e ServerHandshaker" where
  "helloed_server c s full =
    s\<lparr>s_negotiatedProto := agreedProto (c_nextProtos c) (s_nextProtos s),
      s_transcript := AddMessage (s_transcript s) HandshakeTypeClientHello (drop 4 full),
      clientPub := Some (Public (c_ephemeral c)),
      s_peerTransportParams := given_params (c_localTransportParams c) (s_peerTransportParams s),
      s_phase := serverAfterClientHello\<rparr>"

text \<open>
  The server after it opened the ticket, the environment after the ticket keys were read,
  and when early data is admitted: it was offered with a ticket the server opened, the
  configuration allows it, and the acceptor agrees to the key and its age.
\<close>

definition real_age :: "ClientHandshaker \<Rightarrow> u32 \<Rightarrow> int" where
  "real_age c ageAdd = int (unat (resumptionObfAge c - ageAdd)) * 1000000"

definition opened_server ::
  "ClientHandshaker \<Rightarrow> 'e ServerHandshaker \<Rightarrow> ticket_error + (bytes \<times> u32 \<times> bytes) \<Rightarrow> 'e ServerHandshaker" where
  "opened_server c s r =
    (case r of
       Inl _ \<Rightarrow> s
     | Inr (p, a, d) \<Rightarrow>
         s\<lparr>resumptionAppData := d, resumptionRealAge := real_age c a, resumptionSelectedPSK := Some p\<rparr>)"

definition after_keys :: "'e ServerHandshaker \<Rightarrow> 'e \<Rightarrow> 'e" where
  "after_keys s env = (case ticketKeys s of None \<Rightarrow> env | Some getKeys \<Rightarrow> snd (getKeys env))"

definition early_admissible :: "'x x509_scheme \<Rightarrow> 'e ServerHandshaker \<Rightarrow> 'e \<Rightarrow> ClientHandshaker \<Rightarrow> bool" where
  "early_admissible g s env c \<longleftrightarrow>
     offerEarlyData c \<and> resumptionPSK c \<noteq> None \<and> allowEarlyData s
     \<and> (\<exists>accept p a d. earlyDataAcceptor s = Some accept \<and> opened_ticket g s env c = Inr (p, a, d)
          \<and> fst (accept (after_keys s env) p (real_age c a)))"

lemma verifyPSKBinder_sent:
  assumes "psk_offer g c random (Some b)" and "resumptionPSK c = Some psk" and "ticket_consistent g s env c"
  shows "verifyPSKBinder g s env (helloMsg g c random (Some b)) b =
    ((opened_server c s (opened_ticket g s env c), after_keys s env), Inr ())"
proof -
  obtain trunc bn where o: "pskBinderTranscript (helloMsg g c random (Some b)) [pskIdentity c] = Inr trunc"
    "computeResumptionBinder g psk trunc = Inr bn" "parsePreSharedKeyExtension b = Inr ([pskIdentity c], [bn])"
    using assms(1,2) by (auto simp: psk_offer_def)
  obtain getKeys where gk: "ticketKeys s = Some getKeys" using assms(2,3) by (auto simp: ticket_consistent_def)
  obtain keys env' where k: "getKeys env = (keys, env')" by (cases "getKeys env")
  show ?thesis
  proof (cases "DecryptSessionTicketWithData g keys (resumptionIdentity c)")
    case (Inl e)
    then show ?thesis
      using o gk k
      by (simp add: verifyPSKBinder_def pskIdentity_def opened_ticket_def opened_server_def after_keys_def)
  next
    case (Inr r)
    obtain p a d where r: "r = (p, a, d)" by (cases r)
    then have "p = psk" using assms(2,3) gk k Inr by (simp add: ticket_consistent_def opened_ticket_def)
    then show ?thesis
      using o gk k Inr r
      by (simp add: verifyPSKBinder_def opened_ticket_def opened_server_def after_keys_def real_age_def
          equalConstantTime_def Let_def pskIdentity_def [of c])
  qed
qed

lemma early_keys_total:
  assumes "sm3_ok g"
  obtains k where "DeriveEarlyTrafficKeys g psk (Transcript_Sum g t) = Inr k"
proof -
  obtain es where es: "DeriveEarlySecret g psk = Inr es" using DeriveEarlySecret_Inr by blast
  obtain ts k where "DeriveSecret g es LabelClientEarlyTraffic (Transcript_Sum g t) = Inr ts"
    "DeriveQUICPacketKeys g ts = Inr k"
    using traffic_total [OF assms schedule_labels(6)] by metis
  then show thesis using es by (intro that) (simp add: DeriveEarlyTrafficKeys_def)
qed

lemma admitEarlyData_total:
  assumes "sm3_ok g" and "ClientEarlyKeys (s_secrets s) = None"
  obtains env' k where "admitEarlyData g s env =
    ((s\<lparr>clientOfferedEarlyData := True, s_secrets := (s_secrets s)\<lparr>ClientEarlyKeys := k\<rparr>\<rparr>, env'), Inr ())"
    "k = None \<or> (\<exists>psk key. resumptionSelectedPSK s = Some psk \<and> k = Some key
       \<and> DeriveEarlyTrafficKeys g psk (Transcript_Sum g (s_transcript s)) = Inr key)"
    "k \<noteq> None \<longleftrightarrow> allowEarlyData s \<and> (\<exists>psk accept. resumptionSelectedPSK s = Some psk
       \<and> earlyDataAcceptor s = Some accept \<and> fst (accept env psk (resumptionRealAge s)))"
proof -
  have same: "s\<lparr>clientOfferedEarlyData := True, s_secrets := (s_secrets s)\<lparr>ClientEarlyKeys := None\<rparr>\<rparr>
      = s\<lparr>clientOfferedEarlyData := True\<rparr>" using assms(2) by simp
  note no = that [of None, unfolded same]
  show thesis
  proof (cases "resumptionSelectedPSK s = None \<or> earlyDataAcceptor s = None \<or> \<not> allowEarlyData s")
    case True
    then have "admitEarlyData g s env = ((s\<lparr>clientOfferedEarlyData := True\<rparr>, env), Inr ())"
      by (auto simp: admitEarlyData_def Let_def split: option.splits)
    then show thesis using True by (intro no) auto
  next
    case False
    then obtain psk accept where a: "resumptionSelectedPSK s = Some psk" "earlyDataAcceptor s = Some accept"
      "allowEarlyData s" by auto
    obtain ok env' where ok: "accept env psk (resumptionRealAge s) = (ok, env')" by fastforce
    obtain k where k: "DeriveEarlyTrafficKeys g psk (Transcript_Sum g (s_transcript s)) = Inr k"
      using early_keys_total [OF assms(1)] .
    show thesis
    proof (cases ok)
      case True
      then show thesis using a ok k by (intro that [of "Some k" env']) (simp_all add: admitEarlyData_def Let_def)
    next
      case False
      then show thesis using a ok by (intro no [of env']) (simp_all add: admitEarlyData_def Let_def)
    qed
  qed
qed

lemma handleOfferedPSK_sent:
  assumes "sm3_ok g" and "psk_offer g c random d" and "ticket_consistent g s env c"
    and "ClientEarlyKeys (s_secrets s) = None" and "resumptionSelectedPSK s = None"
  obtains s' env' where "handleOfferedPSK g s env (helloMsg g c random d) = ((s', env'), Inr ())"
    "resumptionSelectedPSK s' = selected_psk g s env c"
    "same_server s s'" "s_phase s' = s_phase s" "s_transcript s' = s_transcript s" "clientPub s' = clientPub s"
    "s_negotiatedProto s' = s_negotiatedProto s" "s_peerTransportParams s' = s_peerTransportParams s"
    "\<forall>k. ClientEarlyKeys (s_secrets s') = Some k \<longrightarrow> offerEarlyData c \<and>
      (\<exists>psk. selected_psk g s env c = Some psk
        \<and> DeriveEarlyTrafficKeys g psk (Transcript_Sum g (s_transcript s)) = Inr k)"
    "ClientEarlyKeys (s_secrets s') \<noteq> None \<longleftrightarrow> early_admissible g s env c"
proof (cases "resumptionPSK c")
  case None
  then have "d = None" using assms(2) by (auto simp: psk_offer_def split: option.splits)
  then show thesis
    using None assms(4,5)
    by (intro that [of s env])
      (simp_all add: handleOfferedPSK_def helloMsg_find selected_psk_def same_server_def early_admissible_def)
next
  case (Some psk)
  then obtain b where b: "d = Some b" "b \<noteq> []" using assms(2) by (auto simp: psk_offer_def split: option.splits)
  define s1 where "s1 = opened_server c s (opened_ticket g s env c)"
  note v = verifyPSKBinder_sent [OF assms(2) [unfolded b(1)] Some assms(3), folded s1_def]
  have ot: "opened_ticket g s env c = Inr (p, a, e) \<Longrightarrow> p = psk" for p a e
    using assms(3) Some by (simp add: ticket_consistent_def)
  have fr: "resumptionSelectedPSK s1 = selected_psk g s env c" "same_server s s1" "s_phase s1 = s_phase s"
    "s_transcript s1 = s_transcript s" "clientPub s1 = clientPub s" "s_negotiatedProto s1 = s_negotiatedProto s"
    "s_peerTransportParams s1 = s_peerTransportParams s" "ClientEarlyKeys (s_secrets s1) = None"
    "allowEarlyData s1 = allowEarlyData s" "earlyDataAcceptor s1 = earlyDataAcceptor s"
    using assms(4,5) Some ot
    by (auto simp: s1_def opened_server_def selected_psk_def same_server_def split: sum.split prod.split)
  have adm: "(\<exists>p accept. resumptionSelectedPSK s1 = Some p \<and> earlyDataAcceptor s1 = Some accept
        \<and> fst (accept (after_keys s env) p (resumptionRealAge s1)))
      \<longleftrightarrow> (\<exists>accept p a d. earlyDataAcceptor s = Some accept \<and> opened_ticket g s env c = Inr (p, a, d)
          \<and> fst (accept (after_keys s env) p (real_age c a)))"
    using assms(5) by (cases "opened_ticket g s env c") (auto simp: s1_def opened_server_def)
  note hf = helloMsg_find(5,8,9) [of g c random "Some b"]
  show thesis
  proof (cases "offerEarlyData c")
    case False
    then have "handleOfferedPSK g s env (helloMsg g c random d) = ((s1, after_keys s env), Inr ())"
      using b v by (simp add: handleOfferedPSK_def hf capability_checks(4))
    then show thesis using fr False by (intro that [of s1 "after_keys s env"]) (simp_all add: early_admissible_def)
  next
    case True
    obtain env2 k where k: "admitEarlyData g s1 (after_keys s env) =
        ((s1\<lparr>clientOfferedEarlyData := True, s_secrets := (s_secrets s1)\<lparr>ClientEarlyKeys := k\<rparr>\<rparr>, env2), Inr ())"
      "k = None \<or> (\<exists>psk key. resumptionSelectedPSK s1 = Some psk \<and> k = Some key
         \<and> DeriveEarlyTrafficKeys g psk (Transcript_Sum g (s_transcript s1)) = Inr key)"
      "k \<noteq> None \<longleftrightarrow> allowEarlyData s1 \<and> (\<exists>psk accept. resumptionSelectedPSK s1 = Some psk
         \<and> earlyDataAcceptor s1 = Some accept \<and> fst (accept (after_keys s env) psk (resumptionRealAge s1)))"
      using admitEarlyData_total [OF assms(1) fr(8)] .
    let ?s = "s1\<lparr>clientOfferedEarlyData := True, s_secrets := (s_secrets s1)\<lparr>ClientEarlyKeys := k\<rparr>\<rparr>"
    have "handleOfferedPSK g s env (helloMsg g c random d) = ((?s, env2), Inr ())"
      using b v True k(1) by (simp add: handleOfferedPSK_def hf capability_checks(4))
    moreover have "ClientEarlyKeys (s_secrets ?s) \<noteq> None \<longleftrightarrow> early_admissible g s env c"
      using k(3) True Some fr(9) unfolding adm early_admissible_def by simp
    ultimately show thesis
      using fr(1-7) k(2) True by (intro that [of ?s env2]) (auto simp: same_server_def)
  qed
qed

text \<open>The client after its ClientHello.\<close>

definition helloed_client :: "ClientHandshaker \<Rightarrow> bytes \<Rightarrow> QUICPacketKeys option \<Rightarrow> ClientHandshaker" where
  "helloed_client c full k =
    c\<lparr>clientHello1Full := Some full,
      c_transcript := AddMessage (c_transcript c) HandshakeTypeClientHello (drop 4 full),
      c_phase := clientAfterClientHello,
      c_secrets := (c_secrets c)\<lparr>ClientEarlyKeys := k\<rparr>\<rparr>"

lemma ClientHello_total:
  assumes "sm3_ok g" and "c_phase c = clientPhaseNone" and "buildClientHello g c rnd None = Inr full"
    and "ClientEarlyKeys (c_secrets c) = None"
  obtains k where "ClientHello g c rnd = (helloed_client c full k, Inr full)"
    "\<forall>psk. offerEarlyData c \<longrightarrow> resumptionPSK c = Some psk \<longrightarrow> (\<exists>key. k = Some key \<and>
      DeriveEarlyTrafficKeys g psk (Transcript_Sum g (c_transcript (helloed_client c full k))) = Inr key)"
proof (cases "resumptionPSK c")
  case None
  then show thesis
    using assms by (intro that [of None]) (simp_all add: ClientHello_def helloed_client_def Let_def)
next
  case (Some psk)
  let ?t = "AddMessage (c_transcript c) HandshakeTypeClientHello (drop 4 full)"
  obtain k where k: "DeriveEarlyTrafficKeys g psk (Transcript_Sum g ?t) = Inr k"
    using early_keys_total [OF assms(1)] .
  show thesis
  proof (cases "offerEarlyData c")
    case True
    then show thesis
      using Some k assms by (intro that [of "Some k"]) (simp_all add: ClientHello_def helloed_client_def Let_def)
  next
    case False
    then show thesis
      using Some assms by (intro that [of None]) (simp_all add: ClientHello_def helloed_client_def Let_def)
  qed
qed

definition fresh_client :: "ClientHandshaker \<Rightarrow> bool" where
  "fresh_client c \<longleftrightarrow> c_phase c = clientPhaseNone \<and> c_transcript c = NewTranscript
     \<and> ClientEarlyKeys (c_secrets c) = None \<and> \<not> pskMode c \<and> \<not> earlyDataAccepted c
     \<and> c_negotiatedProto c = [] \<and> c_peerTransportParams c = []"

definition fresh_server :: "'e ServerHandshaker \<Rightarrow> bool" where
  "fresh_server s \<longleftrightarrow> s_phase s = serverPhaseNone \<and> s_transcript s = NewTranscript
     \<and> ClientEarlyKeys (s_secrets s) = None \<and> resumptionSelectedPSK s = None
     \<and> \<not> acceptedEarlyData s \<and> s_negotiatedProto s = [] \<and> s_peerTransportParams s = []"

lemma client_hello_step:
  assumes ok: "sm3_ok g" "sm2_ok g" "sm2_KeyPair g (c_ephemeral c)" "client_sizes_ok c" "length random = 32"
    and fresh: "fresh_client c" "fresh_server s"
    and compat: "alpn_compatible (c_nextProtos c) (s_nextProtos s)" "ticket_consistent g s env c"
  obtains full k s1 env1 where
    "ClientHello g c (Some random) = (helloed_client c full k, Inr full)"
    "HandleClientHello g s env full = ((s1, env1), Inr ())"
    "hello_rel (helloed_client c full k) s1" "same_server s s1"
    "resumptionSelectedPSK s1 = selected_psk g s env c"
    "s_negotiatedProto s1 = agreedProto (c_nextProtos c) (s_nextProtos s)"
    "s_peerTransportParams s1 = given_params (c_localTransportParams c) []"
    "ClientEarlyKeys (s_secrets s1) \<noteq> None \<longleftrightarrow> early_admissible g s env c"
proof -
  have "Transcript_Bytes (c_transcript c) = []"
    using fresh(1) by (simp add: fresh_client_def NewTranscript_def Transcript_Bytes_def)
  then obtain full d where f: "buildClientHello g c (Some random) None = Inr full"
    "MarshalHandshakeMessage HandshakeTypeClientHello (ClientHello_marshalBody (helloMsg g c random d)) = Inr full"
    "psk_offer g c random d"
    using buildClientHello_sent [OF ok] by blast
  have fc: "c_phase c = clientPhaseNone" "ClientEarlyKeys (c_secrets c) = None"
    and fs: "s_phase s = serverPhaseNone" "s_negotiatedProto s = []" "s_transcript s = c_transcript c"
      "ClientEarlyKeys (s_secrets s) = None" "resumptionSelectedPSK s = None"
    using fresh by (simp_all add: fresh_client_def fresh_server_def)
  obtain k where k: "ClientHello g c (Some random) = (helloed_client c full k, Inr full)"
    "\<forall>psk. offerEarlyData c \<longrightarrow> resumptionPSK c = Some psk \<longrightarrow> (\<exists>key. k = Some key \<and>
      DeriveEarlyTrafficKeys g psk (Transcript_Sum g (c_transcript (helloed_client c full k))) = Inr key)"
    using ClientHello_total [OF ok(1) fc(1) f(1) fc(2)] .
  let ?s = "helloed_server c s full"
  note h = HandleClientHello_sent [OF ok(2-5) f(2) fs(1,2) compat(1), folded helloed_server_def]
  have tc: "ticket_consistent g ?s env c" and sel: "selected_psk g ?s env c = selected_psk g s env c"
      "early_admissible g ?s env c = early_admissible g s env c"
    using compat(2) by (simp_all add: ticket_consistent_def selected_psk_def opened_ticket_def helloed_server_def
        early_admissible_def after_keys_def)
  have none: "ClientEarlyKeys (s_secrets ?s) = None" "resumptionSelectedPSK ?s = None"
    using fs by (simp_all add: helloed_server_def)
  obtain s1 env1 where
    s1: "handleOfferedPSK g ?s env (helloMsg g c random d) = ((s1, env1), Inr ())"
    "resumptionSelectedPSK s1 = selected_psk g s env c"
    "same_server ?s s1" "s_phase s1 = s_phase ?s" "s_transcript s1 = s_transcript ?s" "clientPub s1 = clientPub ?s"
    "s_negotiatedProto s1 = s_negotiatedProto ?s" "s_peerTransportParams s1 = s_peerTransportParams ?s"
    and early: "\<forall>k. ClientEarlyKeys (s_secrets s1) = Some k \<longrightarrow> offerEarlyData c \<and>
      (\<exists>psk. selected_psk g s env c = Some psk
        \<and> DeriveEarlyTrafficKeys g psk (Transcript_Sum g (s_transcript ?s)) = Inr k)"
    and adm: "ClientEarlyKeys (s_secrets s1) \<noteq> None \<longleftrightarrow> early_admissible g s env c"
    using handleOfferedPSK_sent [OF ok(1) f(3) tc none, unfolded sel] .
  have psk: "resumptionPSK c = Some p" if "selected_psk g s env c = Some p" for p
    using that by (auto simp: selected_psk_def split: option.splits sum.splits)
  have "ClientEarlyKeys (c_secrets (helloed_client c full k)) = Some key \<and> offerEarlyData c \<and> resumptionSelectedPSK s1 \<noteq> None"
    if "ClientEarlyKeys (s_secrets s1) = Some key" for key
    using early [rule_format, OF that] k(2) psk fs(3) s1(2) by (auto simp: helloed_client_def helloed_server_def)
  then have "hello_rel (helloed_client c full k) s1"
    using s1 psk fs(3) fresh(1)
    by (auto simp: hello_rel_def helloed_client_def helloed_server_def fresh_client_def)
  then show thesis
    using that [of full k s1 env1] k(1) h s1 fresh(2) adm
    by (simp add: helloed_server_def same_server_def fresh_server_def)
qed

section \<open>EncryptedExtensions\<close>

definition ee_exts :: "'e ServerHandshaker \<Rightarrow> Extension list" where
  "ee_exts s = param_exts (s_localTransportParams s)
     @ alpn_exts (if s_negotiatedProto s = [] then [] else [s_negotiatedProto s])
     @ early_exts (ClientEarlyKeys (s_secrets s) \<noteq> None)"

definition ee_client :: "ClientHandshaker \<Rightarrow> 'e ServerHandshaker \<Rightarrow> bytes \<Rightarrow> ClientHandshaker" where
  "ee_client c s ee =
    (if offerEarlyData c \<and> pskMode c \<and> ClientEarlyKeys (s_secrets s) \<noteq> None
     then c\<lparr>earlyDataAccepted := True\<rparr> else c)
    \<lparr>c_peerTransportParams := given_params (s_localTransportParams s) (c_peerTransportParams c),
     c_negotiatedProto := (if c_nextProtos c \<noteq> [] then s_negotiatedProto s else c_negotiatedProto c),
     c_transcript := AddMessage (c_transcript c) HandshakeTypeEncryptedExtensions (drop 4 ee),
     c_phase := (if pskMode c then clientAfterCertificateVerify else clientAfterEncryptedExtensions)\<rparr>"

definition ee_server :: "'e ServerHandshaker \<Rightarrow> bytes \<Rightarrow> 'e ServerHandshaker" where
  "ee_server s ee =
    s\<lparr>acceptedEarlyData := (acceptedEarlyData s \<or> ClientEarlyKeys (s_secrets s) \<noteq> None),
      s_transcript := AddMessage (s_transcript s) HandshakeTypeEncryptedExtensions (drop 4 ee)\<rparr>"

lemma ee_exts_find:
  "findExtension (ee_exts s) ExtensionTypeQUICTransportParams
    = (case s_localTransportParams s of None \<Rightarrow> [] | Some b \<Rightarrow> b)"
  "findExtension (ee_exts s) ExtensionTypeALPN
    = findExtension (alpn_exts (if s_negotiatedProto s = [] then [] else [s_negotiatedProto s])) ExtensionTypeALPN"
  "hasExtension (ee_exts s) ExtensionTypeEarlyData = (ClientEarlyKeys (s_secrets s) \<noteq> None)"
  by (auto simp: ee_exts_def extension_types split: option.splits)

lemma encrypted_extensions_step:
  assumes "params_size (s_localTransportParams s) \<le> 10000" and "length (s_negotiatedProto s) \<le> 255"
    and "c_nextProtos c \<noteq> [] \<Longrightarrow> s_negotiatedProto s \<noteq> [] \<and> s_negotiatedProto s \<in> set (c_nextProtos c)"
    and "c_phase c = clientAfterServerHello"
  obtains ee where "sendEncryptedExtensions s = (ee_server s ee, Inr ee)"
    "HandleEncryptedExtensions c ee = (ee_client c s ee, Inr ())"
proof -
  let ?ps = "if s_negotiatedProto s = [] then [] else [s_negotiatedProto s]"
  have aok: "alpn_ok ?ps" "alpn_size ?ps \<le> 256"
    using assms(2) by (auto simp: alpn_ok_def alpn_size_def Suc_le_eq)
  have "ext_size (ee_exts s) \<le> 0xFFFF"
    using ext_size_alpn [OF aok(1)] aok(2) ext_size_optional(1) [of "s_localTransportParams s"]
      ext_size_optional(2) [of "ClientEarlyKeys (s_secrets s) \<noteq> None"] assms(1)
    by (simp add: ee_exts_def)
  then obtain ee where ee: "MarshalHandshakeMessage HandshakeTypeEncryptedExtensions
      (EncryptedExtensions_marshalBody \<lparr>ee_Extensions = ee_exts s\<rparr>) = Inr ee"
    using Marshal_EncryptedExtensions_total by metis
  have al: "(if s_negotiatedProto s \<noteq> []
       then bindE (mapE HsAlpn (marshalALPNExtension [s_negotiatedProto s])) (\<lambda>alpnExt.
            Inr [\<lparr>etype = ExtensionTypeALPN, edata = alpnExt\<rparr>])
       else Inr []) = Inr (alpn_exts ?ps)"
    using alpn_exts_built [OF aok(1)] by (auto split: if_splits)
  have "sendEncryptedExtensions s = (ee_server s ee, Inr ee)"
    unfolding sendEncryptedExtensions_def al tryS_simps
    using ee by (auto simp: ee_server_def ee_exts_def param_exts_def early_exts_def Let_def)
  moreover have "HandleEncryptedExtensions c ee = (ee_client c s ee, Inr ())"
  proof -
    note rd = encryptedExtensions.readBody_marshalled [OF _ ee,
      of "\<lambda>ty. ty = HandshakeTypeEncryptedExtensions", simplified]
    have proto: "(if length (c_nextProtos c) > 0 then
            (let alpn = findExtension (ee_exts s) ExtensionTypeALPN in
             if alpn = [] then Inl (HsClient AlpnMissing)
             else
               bindE (mapE HsAlpn (parseALPNExtension alpn)) (\<lambda>selected.
               if length selected \<noteq> 1 then Inl (HsClient AlpnCount)
               else if \<not> list_ex (\<lambda>p. p = selected ! 0) (c_nextProtos c)
               then Inl (HsClient AlpnNotOffered)
               else Inr (selected ! 0)))
          else Inr (c_negotiatedProto c))
        = Inr (if c_nextProtos c \<noteq> [] then s_negotiatedProto s else c_negotiatedProto c)"
    proof (cases "c_nextProtos c = []")
      case False
      with assms(3) have np: "s_negotiatedProto s \<noteq> []" "s_negotiatedProto s \<in> set (c_nextProtos c)" by auto
      obtain b where "findExtension (alpn_exts ?ps) ExtensionTypeALPN = b" "b \<noteq> []" "parseALPNExtension b = Inr ?ps"
        using alpn_ext_parses [OF aok(1)] np(1) aok(2) by auto
      then show ?thesis using np False unfolding ee_exts_find Let_def by (auto simp: list_ex_iff)
    qed simp
    let ?c = "c\<lparr>c_peerTransportParams := given_params (s_localTransportParams s) (c_peerTransportParams c)\<rparr>"
    have tp: "(if findExtension (ee_exts s) ExtensionTypeQUICTransportParams \<noteq> []
        then c\<lparr>c_peerTransportParams := findExtension (ee_exts s) ExtensionTypeQUICTransportParams\<rparr> else c) = ?c"
      by (simp add: ee_exts_find given_params_def split: option.splits)
    have np: "c_nextProtos ?c = c_nextProtos c" "c_negotiatedProto ?c = c_negotiatedProto c" by simp_all
    have eq: "HandleEncryptedExtensions c ee =
        (let c = ?c\<lparr>c_negotiatedProto := (if c_nextProtos c \<noteq> [] then s_negotiatedProto s else c_negotiatedProto c)\<rparr>;
           c = (if offerEarlyData c \<and> pskMode c \<and> hasExtension (ee_exts s) ExtensionTypeEarlyData
                then c\<lparr>earlyDataAccepted := True\<rparr> else c);
           c = c\<lparr>c_transcript := AddMessage (c_transcript c) HandshakeTypeEncryptedExtensions (drop 4 ee)\<rparr> in
       (c\<lparr>c_phase := (if pskMode c then clientAfterCertificateVerify
                      else clientAfterEncryptedExtensions)\<rparr>, Inr ()))"
      unfolding HandleEncryptedExtensions_def rd tryS_simps prod.case Let_def EncryptedExtensionsMsg.select_convs tp np
        proto [unfolded Let_def] using assms(4) by simp
    define e where "e = (offerEarlyData c \<and> pskMode c \<and> ClientEarlyKeys (s_secrets s) \<noteq> None)"
    have cond: "(offerEarlyData (?c\<lparr>c_negotiatedProto := p\<rparr>) \<and> pskMode (?c\<lparr>c_negotiatedProto := p\<rparr>)
        \<and> ClientEarlyKeys (s_secrets s) \<noteq> None) = e" for p
      by (simp add: e_def)
    show ?thesis
      unfolding eq ee_client_def ee_exts_find(3) Let_def cond e_def [symmetric]
      by (cases e) (simp_all split del: if_split)
  qed
  ultimately show thesis using that by blast
qed

section \<open>Certificate and CertificateVerify\<close>

text \<open>The client accepts the server's certificate, under its own configuration.\<close>

definition trusts :: "'x x509_scheme \<Rightarrow> ClientHandshaker \<Rightarrow> 'e ServerHandshaker \<Rightarrow> bool" where
  "trusts g c s \<longleftrightarrow>
    (\<exists>leaf. ParseCertificate g (Raw (serverCert s)) = Some leaf
       \<and> CertKey leaf = EcdsaKey (Some (Public (serverKey s)))
       \<and> (\<not> insecureSkipVerify c \<and> \<not> (rootPool c = None \<and> verifyPeerCert c \<noteq> None) \<longrightarrow>
            Verify g (Some leaf)
              (chainOptions g c [\<lparr>Certificate = Raw (serverCert s), ce_Extensions = []\<rparr>]) = Inr ())
       \<and> (\<forall>f. verifyPeerCert c = Some f \<longrightarrow> f [Raw (serverCert s)]))"

definition can_sign :: "'x x509_scheme \<Rightarrow> bytes \<Rightarrow> 'e ServerHandshaker \<Rightarrow> bool" where
  "can_sign g rnd s \<longleftrightarrow> sm2_KeyPair g (serverKey s)
     \<and> (\<forall>m. sm2_SignASN1 g rnd (serverKey s) SM2IDTLS13KeyExchange m \<noteq> None)"

lemma certificate_step:
  assumes "sm2_ok g" and "can_sign g rnd s" and "trusts g c s"
    and "0 < length (Raw (serverCert s))" "length (Raw (serverCert s)) \<le> 8388608"
    and "resumptionSelectedPSK s = None" and "c_phase c = clientAfterEncryptedExtensions"
    and "c_transcript c = s_transcript s"
  obtains ce cv t leaf where
    "sendCertificate g s rnd = (s\<lparr>s_transcript := t\<rparr>, Inr (ce, cv))"
    "HandleCertificate g c ce = (c\<lparr>c_transcript := AddMessage (c_transcript c) HandshakeTypeCertificate (drop 4 ce),
       leafCert := Some leaf, c_phase := clientAfterCertificate\<rparr>, Inr ())"
    "HandleCertificateVerify g (c\<lparr>c_transcript := AddMessage (c_transcript c) HandshakeTypeCertificate (drop 4 ce),
       leafCert := Some leaf, c_phase := clientAfterCertificate\<rparr>) cv
     = (c\<lparr>c_transcript := t, leafCert := Some leaf, c_phase := clientAfterCertificateVerify\<rparr>, Inr ())"
    "transcript_ok t = transcript_ok (s_transcript s)"
proof -
  let ?list = "[\<lparr>Certificate = Raw (serverCert s), ce_Extensions = []\<rparr>]"
  obtain ce where ce: "MarshalHandshakeMessage HandshakeTypeCertificate (Certificate_marshalBody
      \<lparr>CertificateRequestContext = [], CertificateList = ?list\<rparr>) = Inr ce"
    using Marshal_Certificate_total [OF assms(4,5)] .
  define t1 where "t1 = AddMessage (s_transcript s) HandshakeTypeCertificate (drop 4 ce)"
  obtain sig where sig: "SignCertificateVerify g rnd (Some (serverKey s)) ServerCertificateVerifyContext
      (Transcript_Sum g t1) = Inr sig"
  proof -
    obtain sig where "sm2_SignASN1 g rnd (serverKey s) SM2IDTLS13KeyExchange
        (BuildCertificateVerifyInput ServerCertificateVerifyContext (Transcript_Sum g t1)) = Some sig"
      using assms(2) unfolding can_sign_def by blast
    then show thesis by (intro that [of sig]) (simp add: SignCertificateVerify_def Let_def)
  qed
  have v: "VerifyCertificateVerify g (Some (Public (serverKey s))) ServerCertificateVerifyContext (Transcript_Sum g t1) sig"
    and len: "length sig \<le> 72"
    using certificate_verify_ok [OF assms(1) _ sig] assms(2) by (simp_all add: can_sign_def)
  obtain cv where cv: "MarshalHandshakeMessage HandshakeTypeCertificateVerify
      (CertificateVerify_marshalBody \<lparr>SignatureScheme = SM2SigSM3, Signature = sig\<rparr>) = Inr cv"
    using Marshal_CertificateVerify_total [OF len] .
  define t where "t = AddMessage t1 HandshakeTypeCertificateVerify (drop 4 cv)"
  obtain leaf where leaf: "ParseCertificate g (Raw (serverCert s)) = Some leaf"
    "CertKey leaf = EcdsaKey (Some (Public (serverKey s)))"
    "\<not> insecureSkipVerify c \<and> \<not> (rootPool c = None \<and> verifyPeerCert c \<noteq> None) \<longrightarrow>
       Verify g (Some leaf) (chainOptions g c ?list) = Inr ()"
    "\<forall>f. verifyPeerCert c = Some f \<longrightarrow> f [Raw (serverCert s)]"
    using assms(3) unfolding trusts_def by blast
  have "sendCertificate g s rnd = (s\<lparr>s_transcript := t\<rparr>, Inr (ce, cv))"
    by (simp add: sendCertificate_def assms(6) ce sig cv t1_def [symmetric] t_def Let_def)
  moreover have "HandleCertificate g c ce = (c\<lparr>c_transcript := t1,
       leafCert := Some leaf, c_phase := clientAfterCertificate\<rparr>, Inr ())"
  proof -
    note rd = certificate.readBody_marshalled [OF TrueI ce, of "\<lambda>ty. True"]
    show ?thesis
      unfolding HandleCertificate_def rd [OF TrueI]
      using leaf assms(7,8) by (auto simp: t1_def split: option.splits)
  qed
  moreover have "HandleCertificateVerify g (c\<lparr>c_transcript := t1, leafCert := Some leaf, c_phase := clientAfterCertificate\<rparr>) cv
     = (c\<lparr>c_transcript := t, leafCert := Some leaf, c_phase := clientAfterCertificateVerify\<rparr>, Inr ())"
    using certificateVerify.readBody_marshalled [OF _ cv, of "\<lambda>ty. ty = HandshakeTypeCertificateVerify"] leaf(2) v
    by (simp add: HandleCertificateVerify_def t_def)
  moreover have "transcript_ok t = transcript_ok (s_transcript s)" by (simp add: t_def t1_def)
  ultimately show thesis using that [of t ce cv leaf] assms(8) by (simp add: t1_def)
qed

section \<open>Finished\<close>

definition ap_secrets ::
  "QUICPacketKeys \<Rightarrow> QUICPacketKeys \<Rightarrow> bytes \<Rightarrow> bytes \<Rightarrow> HandshakeSecrets \<Rightarrow> HandshakeSecrets" where
  "ap_secrets ck sk cAP sAP h =
    h\<lparr>ClientApplicationTrafficSecret := cAP, ServerApplicationTrafficSecret := sAP,
      ClientApplicationKeys := Some ck, ServerApplicationKeys := Some sk\<rparr>"

lemma server_finished_step:
  assumes "sm3_ok g" and "c_phase c = clientAfterCertificateVerify" and "c_transcript c = s_transcript s"
    and "c_handshakeSecret c = s_handshakeSecret s" and "c_serverHSTraffic c = s_serverHSTraffic s"
  obtains fin t ms ck sk cAP sAP where
    "sendFinished g s = (s\<lparr>s_transcript := t, s_masterSecret := ms,
       s_secrets := ap_secrets ck sk cAP sAP (s_secrets s), s_phase := serverAfterFlight\<rparr>, Inr fin)"
    "HandleServerFinished g c fin = (c\<lparr>c_transcript := t, c_masterSecret := ms,
       c_secrets := ap_secrets ck sk cAP sAP (c_secrets c), c_phase := clientAfterServerFinished\<rparr>, Inr ())"
    "transcript_ok t = transcript_ok (s_transcript s)"
proof -
  obtain fk vd where fk: "DeriveFinishedKey g (s_serverHSTraffic s) = Inr fk"
    "\<And>h. ComputeFinishedVerifyData g fk h = Inr (vd h)" "\<And>h. length (vd h) = 32"
    using finished_total [OF assms(1)] by blast
  let ?vd = "vd (Transcript_Sum g (s_transcript s))"
  obtain fin where fin: "MarshalHandshakeMessage HandshakeTypeFinished (Finished_marshalBody \<lparr>VerifyData = ?vd\<rparr>) = Inr fin"
    using Marshal_Finished_total [OF fk(3)] .
  define t where "t = AddMessage (s_transcript s) HandshakeTypeFinished (drop 4 fin)"
  obtain ms where ms: "DeriveMasterSecret g (s_handshakeSecret s) = Inr ms" using DeriveMasterSecret_total [OF assms(1)] .
  obtain cAP ck where c: "DeriveSecret g ms LabelClientAPTraffic (Transcript_Sum g t) = Inr cAP"
    "DeriveQUICPacketKeys g cAP = Inr ck"
    using traffic_total [OF assms(1) schedule_labels(3)] by metis
  obtain sAP sk where sv: "DeriveSecret g ms LabelServerAPTraffic (Transcript_Sum g t) = Inr sAP"
    "DeriveQUICPacketKeys g sAP = Inr sk"
    using traffic_total [OF assms(1) schedule_labels(4)] by metis
  have "sendFinished g s = (s\<lparr>s_transcript := t, s_masterSecret := ms,
       s_secrets := ap_secrets ck sk cAP sAP (s_secrets s), s_phase := serverAfterFlight\<rparr>, Inr fin)"
    by (simp add: sendFinished_def fk fin t_def [symmetric] ms c sv ap_secrets_def Let_def)
  moreover have "HandleServerFinished g c fin = (c\<lparr>c_transcript := t, c_masterSecret := ms,
       c_secrets := ap_secrets ck sk cAP sAP (c_secrets c), c_phase := clientAfterServerFinished\<rparr>, Inr ())"
    using finished.readBody_marshalled [OF _ fin, of "\<lambda>ty. ty = HandshakeTypeFinished"] fk(3) assms(2-5)
    by (simp add: HandleServerFinished_def fk equalConstantTime_def t_def [symmetric] ms c sv
        deriveClientApplicationKeys_def ap_secrets_def Let_def)
  moreover have "transcript_ok t = transcript_ok (s_transcript s)" by (simp add: t_def)
  ultimately show thesis using that by blast
qed

lemma client_finished_step:
  assumes "sm3_ok g" and "c_phase c = clientAfterServerFinished" and "s_phase s = serverAfterFlight"
    and "c_transcript c = s_transcript s" and "c_clientHSTraffic c = s_clientHSTraffic s"
  obtains cf t rms where
    "ClientFinished g c = (c\<lparr>c_transcript := t, clientFinishedSent := True\<rparr>, Inr cf)"
    "HandleClientFinished g s cf =
      (s\<lparr>s_transcript := t, s_resumptionMasterSecret := rms, s_phase := serverAfterClientFinished\<rparr>, Inr ())"
    "DeriveResumptionMasterSecret g (s_masterSecret s) (Transcript_Sum g t) = Inr rms"
    "transcript_ok t = transcript_ok (s_transcript s)"
proof -
  obtain fk vd where fk: "DeriveFinishedKey g (s_clientHSTraffic s) = Inr fk"
    "\<And>h. ComputeFinishedVerifyData g fk h = Inr (vd h)" "\<And>h. length (vd h) = 32"
    using finished_total [OF assms(1)] by blast
  let ?vd = "vd (Transcript_Sum g (s_transcript s))"
  obtain cf where cf: "MarshalHandshakeMessage HandshakeTypeFinished (Finished_marshalBody \<lparr>VerifyData = ?vd\<rparr>) = Inr cf"
    using Marshal_Finished_total [OF fk(3)] .
  define t where "t = AddMessage (s_transcript s) HandshakeTypeFinished (drop 4 cf)"
  obtain rms where rms: "DeriveResumptionMasterSecret g (s_masterSecret s) (Transcript_Sum g t) = Inr rms"
    using traffic_total [OF assms(1) schedule_labels(5)] unfolding DeriveResumptionMasterSecret_def by metis
  have "ClientFinished g c = (c\<lparr>c_transcript := t, clientFinishedSent := True\<rparr>, Inr cf)"
    using assms(2,4,5) by (simp add: ClientFinished_def fk cf t_def)
  moreover have "HandleClientFinished g s cf =
      (s\<lparr>s_transcript := t, s_resumptionMasterSecret := rms, s_phase := serverAfterClientFinished\<rparr>, Inr ())"
    using finished.readBody_marshalled [OF _ cf, of "\<lambda>ty. ty = HandshakeTypeFinished"] fk(3) assms(3) rms
    by (simp add: HandleClientFinished_def fk equalConstantTime_def t_def [symmetric] Let_def)
  moreover have "transcript_ok t = transcript_ok (s_transcript s)" by (simp add: t_def)
  ultimately show thesis using that rms by blast
qed

section \<open>The whole handshake\<close>

text \<open>Both handshakers over a network that delivers every message; an error of either side ends the run.\<close>

definition runHandshake ::
  "'x x509_scheme \<Rightarrow> ClientHandshaker \<Rightarrow> 'e ServerHandshaker \<Rightarrow> 'e \<Rightarrow> bytes option \<Rightarrow> bytes option \<Rightarrow> bytes
    \<Rightarrow> hs_error + (ClientHandshaker \<times> 'e ServerHandshaker \<times> 'e)" where
  "runHandshake g c s env clientRnd serverRnd sigRnd =
    (case ClientHello g c clientRnd of
       (_, Inl e) \<Rightarrow> Inl e
     | (c, Inr ch) \<Rightarrow>
         (case HandleClientHello g s env ch of
            (_, Inl e) \<Rightarrow> Inl e
          | ((s, env), Inr _) \<Rightarrow>
              (case ServerFlight g s serverRnd sigRnd of
                 (_, Inl e) \<Rightarrow> Inl e
               | (s, Inr (sh, ee, ce, cv, fin)) \<Rightarrow>
                   (case HandleServerFlight g c sh ee ce cv fin of
                      (_, Inl e) \<Rightarrow> Inl e
                    | (c, Inr _) \<Rightarrow>
                        (case ClientFinished g c of
                           (_, Inl e) \<Rightarrow> Inl e
                         | (c, Inr cf) \<Rightarrow>
                             (case HandleClientFinished g s cf of
                                (_, Inl e) \<Rightarrow> Inl e
                              | (s, Inr _) \<Rightarrow> Inr (c, s, env)))))))"

definition keys_agree :: "HandshakeSecrets \<Rightarrow> HandshakeSecrets \<Rightarrow> bool" where
  "keys_agree a b \<longleftrightarrow>
     ClientHandshakeKeys a \<noteq> None \<and> ClientHandshakeKeys a = ClientHandshakeKeys b
     \<and> ServerHandshakeKeys a \<noteq> None \<and> ServerHandshakeKeys a = ServerHandshakeKeys b
     \<and> ClientApplicationKeys a \<noteq> None \<and> ClientApplicationKeys a = ClientApplicationKeys b
     \<and> ServerApplicationKeys a \<noteq> None \<and> ServerApplicationKeys a = ServerApplicationKeys b
     \<and> ClientApplicationTrafficSecret a = ClientApplicationTrafficSecret b
     \<and> ServerApplicationTrafficSecret a = ServerApplicationTrafficSecret b"

definition agreed :: "'x x509_scheme \<Rightarrow> ClientHandshaker \<Rightarrow> 'e ServerHandshaker \<Rightarrow> bool" where
  "agreed g c s \<longleftrightarrow>
     c_phase c = clientAfterServerFinished \<and> clientFinishedSent c \<and> s_phase s = serverAfterClientFinished
     \<and> c_transcript c = s_transcript s \<and> keys_agree (c_secrets c) (s_secrets s)
     \<and> c_masterSecret c = s_masterSecret s
     \<and> DeriveResumptionMasterSecret g (c_masterSecret c) (Transcript_Sum g (c_transcript c))
         = Inr (s_resumptionMasterSecret s)
     \<and> c_negotiatedProto c = s_negotiatedProto s
     \<and> pskMode c = (resumptionSelectedPSK s \<noteq> None)
     \<and> earlyDataAccepted c = acceptedEarlyData s
     \<and> (acceptedEarlyData s \<longrightarrow>
          ClientEarlyKeys (s_secrets s) \<noteq> None \<and> ClientEarlyKeys (c_secrets c) = ClientEarlyKeys (s_secrets s))"

lemma ee_client_sel [simp]:
  "c_phase (ee_client c s ee) = (if pskMode c then clientAfterCertificateVerify else clientAfterEncryptedExtensions)"
  "c_transcript (ee_client c s ee) = AddMessage (c_transcript c) HandshakeTypeEncryptedExtensions (drop 4 ee)"
  "c_negotiatedProto (ee_client c s ee) = (if c_nextProtos c \<noteq> [] then s_negotiatedProto s else c_negotiatedProto c)"
  "c_peerTransportParams (ee_client c s ee) = given_params (s_localTransportParams s) (c_peerTransportParams c)"
  "earlyDataAccepted (ee_client c s ee) = (earlyDataAccepted c
     \<or> offerEarlyData c \<and> pskMode c \<and> ClientEarlyKeys (s_secrets s) \<noteq> None)"
  "pskMode (ee_client c s ee) = pskMode c" "c_secrets (ee_client c s ee) = c_secrets c"
  "c_handshakeSecret (ee_client c s ee) = c_handshakeSecret c" "c_serverHSTraffic (ee_client c s ee) = c_serverHSTraffic c"
  "c_clientHSTraffic (ee_client c s ee) = c_clientHSTraffic c" "insecureSkipVerify (ee_client c s ee) = insecureSkipVerify c"
  "rootPool (ee_client c s ee) = rootPool c" "intermediates (ee_client c s ee) = intermediates c"
  "serverName (ee_client c s ee) = serverName c" "verifyPeerCert (ee_client c s ee) = verifyPeerCert c"
  by (auto simp: ee_client_def)

lemma trusts_cong:
  assumes "trusts g c s" and "serverCert s' = serverCert s" and "serverKey s' = serverKey s"
    and "insecureSkipVerify c' = insecureSkipVerify c" and "rootPool c' = rootPool c"
    and "intermediates c' = intermediates c" and "serverName c' = serverName c"
    and "verifyPeerCert c' = verifyPeerCert c"
  shows "trusts g c' s'"
  using assms by (simp add: trusts_def chainOptions_def)

definition flight_done :: "ClientHandshaker \<Rightarrow> 'e ServerHandshaker \<Rightarrow> bool" where
  "flight_done c s \<longleftrightarrow>
     c_phase c = clientAfterServerFinished \<and> s_phase s = serverAfterFlight
     \<and> c_transcript c = s_transcript s \<and> keys_agree (c_secrets c) (s_secrets s)
     \<and> c_masterSecret c = s_masterSecret s \<and> c_clientHSTraffic c = s_clientHSTraffic s"

text \<open>The flight from EncryptedExtensions on, in both modes.\<close>

lemma after_server_hello:
  fixes s :: "'e ServerHandshaker"
  assumes ok: "sm3_ok g" "sm2_ok g"
    and c: "c_phase c = clientAfterServerHello" "c_transcript c = s_transcript s"
      "c_handshakeSecret c = s_handshakeSecret s" "c_serverHSTraffic c = s_serverHSTraffic s"
      "c_clientHSTraffic c = s_clientHSTraffic s" "pskMode c = (resumptionSelectedPSK s \<noteq> None)"
      "ClientHandshakeKeys (c_secrets c) \<noteq> None" "ServerHandshakeKeys (c_secrets c) \<noteq> None"
      "ClientHandshakeKeys (c_secrets c) = ClientHandshakeKeys (s_secrets s)"
      "ServerHandshakeKeys (c_secrets c) = ServerHandshakeKeys (s_secrets s)"
    and ee: "sendEncryptedExtensions s = (ee_server s ee, Inr ee)"
      "HandleEncryptedExtensions c ee = (ee_client c s ee, Inr ())"
    and cert: "resumptionSelectedPSK s = None \<Longrightarrow> can_sign g rnd s \<and> trusts g c s
      \<and> 0 < length (Raw (serverCert s)) \<and> length (Raw (serverCert s)) \<le> 8388608"
  obtains ce cv fin s1 s2 c2 where
    "sendCertificate g (ee_server s ee) rnd = (s1, Inr (ce, cv))" "sendFinished g s1 = (s2, Inr fin)"
    "(if \<not> pskMode (ee_client c s ee) then
        (case HandleCertificate g (ee_client c s ee) ce of
           (c, Inl e) \<Rightarrow> (c, Inl e)
         | (c, Inr _) \<Rightarrow>
             (case HandleCertificateVerify g c cv of
                (c, Inl e) \<Rightarrow> (c, Inl e)
              | (c, Inr _) \<Rightarrow> HandleServerFinished g c fin))
      else HandleServerFinished g (ee_client c s ee) fin) = (c2, Inr ())"
    "flight_done c2 s2" "same_server (ee_server s ee) s2"
    "resumptionSelectedPSK s2 = resumptionSelectedPSK s" "pskMode c2 = pskMode c"
    "s_negotiatedProto s2 = s_negotiatedProto s" "c_negotiatedProto c2 = c_negotiatedProto (ee_client c s ee)"
    "s_peerTransportParams s2 = s_peerTransportParams s"
    "c_peerTransportParams c2 = c_peerTransportParams (ee_client c s ee)"
    "earlyDataAccepted c2 = earlyDataAccepted (ee_client c s ee)"
    "ClientEarlyKeys (c_secrets c2) = ClientEarlyKeys (c_secrets c)"
    "ClientEarlyKeys (s_secrets s2) = ClientEarlyKeys (s_secrets s)"
proof (cases "resumptionSelectedPSK s")
  case None
  let ?c = "ee_client c s ee" and ?s = "ee_server s ee"
  have sg: "can_sign g rnd ?s" using cert [OF None] by (simp add: can_sign_def ee_server_def)
  have tr: "trusts g ?c ?s"
    by (rule trusts_cong [of g c s]) (use cert [OF None] in \<open>simp_all add: ee_server_def\<close>)
  have len: "0 < length (Raw (serverCert ?s))" "length (Raw (serverCert ?s)) \<le> 8388608"
    and cs: "resumptionSelectedPSK ?s = None" "c_phase ?c = clientAfterEncryptedExtensions"
      "c_transcript ?c = s_transcript ?s"
    using cert [OF None] None c by (simp_all add: ee_server_def)
  obtain ce cv t leaf where st:
    "sendCertificate g ?s rnd = (?s\<lparr>s_transcript := t\<rparr>, Inr (ce, cv))"
    "HandleCertificate g ?c ce = (?c\<lparr>c_transcript := AddMessage (c_transcript ?c) HandshakeTypeCertificate (drop 4 ce),
       leafCert := Some leaf, c_phase := clientAfterCertificate\<rparr>, Inr ())"
    "HandleCertificateVerify g (?c\<lparr>c_transcript := AddMessage (c_transcript ?c) HandshakeTypeCertificate (drop 4 ce),
       leafCert := Some leaf, c_phase := clientAfterCertificate\<rparr>) cv
     = (?c\<lparr>c_transcript := t, leafCert := Some leaf, c_phase := clientAfterCertificateVerify\<rparr>, Inr ())"
    using certificate_step [OF ok(2) sg tr len cs] .
  let ?c1 = "?c\<lparr>c_transcript := t, leafCert := Some leaf, c_phase := clientAfterCertificateVerify\<rparr>"
    and ?s1 = "?s\<lparr>s_transcript := t\<rparr>"
  have fr: "c_phase ?c1 = clientAfterCertificateVerify" "c_transcript ?c1 = s_transcript ?s1"
    "c_handshakeSecret ?c1 = s_handshakeSecret ?s1" "c_serverHSTraffic ?c1 = s_serverHSTraffic ?s1"
    using c by (simp_all add: ee_server_def)
  obtain fin t' ms ck sk cAP sAP where fin:
    "sendFinished g ?s1 = (?s1\<lparr>s_transcript := t', s_masterSecret := ms,
       s_secrets := ap_secrets ck sk cAP sAP (s_secrets ?s1), s_phase := serverAfterFlight\<rparr>, Inr fin)"
    "HandleServerFinished g ?c1 fin = (?c1\<lparr>c_transcript := t', c_masterSecret := ms,
       c_secrets := ap_secrets ck sk cAP sAP (c_secrets ?c1), c_phase := clientAfterServerFinished\<rparr>, Inr ())"
    using server_finished_step [OF ok(1) fr] .
  show thesis
    by (rule that [OF st(1) fin(1), of "?c1\<lparr>c_transcript := t', c_masterSecret := ms,
       c_secrets := ap_secrets ck sk cAP sAP (c_secrets ?c1), c_phase := clientAfterServerFinished\<rparr>"])
      (use st(2,3) fin(2) c None in \<open>simp_all add: flight_done_def keys_agree_def ap_secrets_def
        same_server_def ee_server_def\<close>)
next
  case (Some psk)
  let ?c = "ee_client c s ee" and ?s = "ee_server s ee"
  have fr: "c_phase ?c = clientAfterCertificateVerify" "c_transcript ?c = s_transcript ?s"
    "c_handshakeSecret ?c = s_handshakeSecret ?s" "c_serverHSTraffic ?c = s_serverHSTraffic ?s"
    using c Some by (simp_all add: ee_server_def)
  obtain fin t' ms ck sk cAP sAP where fin:
    "sendFinished g ?s = (?s\<lparr>s_transcript := t', s_masterSecret := ms,
       s_secrets := ap_secrets ck sk cAP sAP (s_secrets ?s), s_phase := serverAfterFlight\<rparr>, Inr fin)"
    "HandleServerFinished g ?c fin = (?c\<lparr>c_transcript := t', c_masterSecret := ms,
       c_secrets := ap_secrets ck sk cAP sAP (c_secrets ?c), c_phase := clientAfterServerFinished\<rparr>, Inr ())"
    using server_finished_step [OF ok(1) fr] .
  have "sendCertificate g ?s rnd = (?s, Inr ([], []))" using Some by (simp add: sendCertificate_def ee_server_def)
  then show thesis
    by (rule that [OF _ fin(1), of _ _ "?c\<lparr>c_transcript := t', c_masterSecret := ms,
       c_secrets := ap_secrets ck sk cAP sAP (c_secrets ?c), c_phase := clientAfterServerFinished\<rparr>"])
      (use fin(2) c Some in \<open>simp_all add: flight_done_def keys_agree_def ap_secrets_def
        same_server_def ee_server_def\<close>)
qed

end
