(* ===== verification/HandshakeRun.thy ===== *)
theory HandshakeRun
  imports Flight
begin

text \<open>
  Complete handshakes: a client and a server that can connect end with the same
  transcript, keys and negotiated parameters, by certificate or by pre-shared key, and
  the ticket the server then issues lets the next connection resume without a
  certificate.
\<close>

section \<open>Agreement\<close>

text \<open>
  What both sides need for a handshake to go through. The bounds on names, parameters
  and certificate keep every message within its length fields; a certificate is needed
  only if no pre-shared key is selected.
\<close>

definition can_connect ::
  "'x x509_scheme \<Rightarrow> ClientHandshaker \<Rightarrow> 'e ServerHandshaker \<Rightarrow> 'e \<Rightarrow> bytes \<Rightarrow> bytes \<Rightarrow> bytes \<Rightarrow> bool" where
  "can_connect g c s env clientRandom serverRandom sigRnd \<longleftrightarrow>
     sm2_KeyPair g (c_ephemeral c) \<and> sm2_KeyPair g (s_ephemeral s)
     \<and> length clientRandom = 32 \<and> length serverRandom = 32 \<and> serverRandom \<noteq> helloRetryRequestRandom
     \<and> client_sizes_ok c \<and> params_size (s_localTransportParams s) \<le> 10000
     \<and> alpn_compatible (c_nextProtos c) (s_nextProtos s)
     \<and> ticket_consistent g s env c
     \<and> (selected_psk g s env c = None \<longrightarrow>
          can_sign g sigRnd s \<and> trusts g c s
          \<and> 0 < length (Raw (serverCert s)) \<and> length (Raw (serverCert s)) \<le> 8388608)"

lemma agreedProto_facts:
  assumes "alpn_ok cps" and "alpn_compatible cps sps"
  shows "length (agreedProto cps sps) \<le> 255"
    and "cps \<noteq> [] \<Longrightarrow> agreedProto cps sps \<noteq> [] \<and> agreedProto cps sps \<in> set cps"
    and "cps = [] \<Longrightarrow> agreedProto cps sps = []"
proof -
  have *: "agreedProto cps sps \<noteq> [] \<and> agreedProto cps sps \<in> set cps" if ne: "cps \<noteq> []"
  proof -
    obtain p where p: "List.find (\<lambda>cp. list_ex (\<lambda>sp. cp = sp) sps) cps = Some p" "p \<in> set cps" "p \<in> set sps"
      using find_overlap [OF assms(2) ne] .
    then show ?thesis using assms(1) ne by (auto simp: agreedProto_def alpn_ok_def)
  qed
  then show "cps \<noteq> [] \<Longrightarrow> agreedProto cps sps \<noteq> [] \<and> agreedProto cps sps \<in> set cps" by blast
  show "cps = [] \<Longrightarrow> agreedProto cps sps = []" by (simp add: agreedProto_def)
  then show "length (agreedProto cps sps) \<le> 255" using * assms(1) by (cases "cps = []") (auto simp: alpn_ok_def)
qed

lemma run_agrees:
  assumes ok: "sm3_ok g" "sm2_ok g" and fresh: "fresh_client c" "fresh_server s"
    and conn: "can_connect g c s env cr sr sigRnd"
  obtains c' s' env' where "runHandshake g c s env (Some cr) (Some sr) sigRnd = Inr (c', s', env')"
    "agreed g c' s'" "resumptionSelectedPSK s' = selected_psk g s env c"
    "c_negotiatedProto c' = agreedProto (c_nextProtos c) (s_nextProtos s)"
    "s_peerTransportParams s' = given_params (c_localTransportParams c) []"
    "c_peerTransportParams c' = given_params (s_localTransportParams s) []"
    "ticketKeys s' = ticketKeys s" "earlyDataAccepted c' \<longleftrightarrow> early_admissible g s env c"
proof -
  have k: "sm2_KeyPair g (c_ephemeral c)" "sm2_KeyPair g (s_ephemeral s)" "client_sizes_ok c" "length cr = 32"
    "length sr = 32" "sr \<noteq> helloRetryRequestRandom" "alpn_compatible (c_nextProtos c) (s_nextProtos s)"
    "ticket_consistent g s env c" "params_size (s_localTransportParams s) \<le> 10000"
    using conn by (simp_all add: can_connect_def)
  have aok: "alpn_ok (c_nextProtos c)" using k(3) by (simp add: client_sizes_ok_def)
  obtain ch ek s1 env1 where h: "ClientHello g c (Some cr) = (helloed_client c ch ek, Inr ch)"
    "HandleClientHello g s env ch = ((s1, env1), Inr ())"
    "hello_rel (helloed_client c ch ek) s1" "same_server s s1"
    "resumptionSelectedPSK s1 = selected_psk g s env c"
    "s_negotiatedProto s1 = agreedProto (c_nextProtos c) (s_nextProtos s)"
    "s_peerTransportParams s1 = given_params (c_localTransportParams c) []"
    "ClientEarlyKeys (s_secrets s1) \<noteq> None \<longleftrightarrow> early_admissible g s env c"
    using client_hello_step [OF ok k(1,3,4) fresh k(7,8)] .
  let ?c1 = "helloed_client c ch ek"
  have kp: "sm2_KeyPair g (c_ephemeral ?c1)" "sm2_KeyPair g (s_ephemeral s1)"
    using k(1,2) h(4) by (simp_all add: helloed_client_def same_server_def)
  obtain sh hs cht sht ck sk where sh: "sendServerHello g s1 (Some sr) =
      (s1\<lparr>s_transcript := AddMessage (s_transcript s1) HandshakeTypeServerHello (drop 4 sh),
         s_handshakeSecret := hs, s_clientHSTraffic := cht, s_serverHSTraffic := sht,
         s_secrets := hs_secrets ck sk cht sht (s_secrets s1)\<rparr>, Inr sh)"
    "HandleServerHello g ?c1 sh =
      (?c1\<lparr>pskMode := (resumptionSelectedPSK s1 \<noteq> None),
         c_transcript := AddMessage (s_transcript s1) HandshakeTypeServerHello (drop 4 sh),
         c_handshakeSecret := hs, c_clientHSTraffic := cht, c_serverHSTraffic := sht,
         c_secrets := hs_secrets ck sk cht sht (c_secrets ?c1),
         c_phase := clientAfterServerHello\<rparr>, Inr ())"
    using server_hello_step [OF ok kp h(3) k(5,6)] .
  define s2 where "s2 = s1\<lparr>s_transcript := AddMessage (s_transcript s1) HandshakeTypeServerHello (drop 4 sh),
         s_handshakeSecret := hs, s_clientHSTraffic := cht, s_serverHSTraffic := sht,
         s_secrets := hs_secrets ck sk cht sht (s_secrets s1)\<rparr>"
  define c2 where "c2 = ?c1\<lparr>pskMode := (resumptionSelectedPSK s1 \<noteq> None),
         c_transcript := AddMessage (s_transcript s1) HandshakeTypeServerHello (drop 4 sh),
         c_handshakeSecret := hs, c_clientHSTraffic := cht, c_serverHSTraffic := sht,
         c_secrets := hs_secrets ck sk cht sht (c_secrets ?c1), c_phase := clientAfterServerHello\<rparr>"
  have np: "c_nextProtos c2 = c_nextProtos c" "s_negotiatedProto s2 = agreedProto (c_nextProtos c) (s_nextProtos s)"
    "s_localTransportParams s2 = s_localTransportParams s" "c_phase c2 = clientAfterServerHello"
    using h(4,6) by (simp_all add: c2_def s2_def helloed_client_def same_server_def)
  obtain ee where ee: "sendEncryptedExtensions s2 = (ee_server s2 ee, Inr ee)"
    "HandleEncryptedExtensions c2 ee = (ee_client c2 s2 ee, Inr ())"
    using encrypted_extensions_step [of s2 c2] agreedProto_facts [OF aok k(7)] k(9) np by metis
  have rel: "c_transcript c2 = s_transcript s2"
      "c_handshakeSecret c2 = s_handshakeSecret s2" "c_serverHSTraffic c2 = s_serverHSTraffic s2"
      "c_clientHSTraffic c2 = s_clientHSTraffic s2" "pskMode c2 = (resumptionSelectedPSK s2 \<noteq> None)"
      "ClientHandshakeKeys (c_secrets c2) \<noteq> None" "ServerHandshakeKeys (c_secrets c2) \<noteq> None"
      "ClientHandshakeKeys (c_secrets c2) = ClientHandshakeKeys (s_secrets s2)"
      "ServerHandshakeKeys (c_secrets c2) = ServerHandshakeKeys (s_secrets s2)"
    by (simp_all add: c2_def s2_def hs_secrets_def)
  have cert: "can_sign g sigRnd s2 \<and> trusts g c2 s2
      \<and> 0 < length (Raw (serverCert s2)) \<and> length (Raw (serverCert s2)) \<le> 8388608"
    if "resumptionSelectedPSK s2 = None"
  proof -
    have "selected_psk g s env c = None" using that h(5) by (simp add: s2_def)
    then have "can_sign g sigRnd s" "trusts g c s" "0 < length (Raw (serverCert s))" "length (Raw (serverCert s)) \<le> 8388608"
      using conn by (simp_all add: can_connect_def)
    moreover have "serverCert s2 = serverCert s" "serverKey s2 = serverKey s"
      using h(4) by (simp_all add: s2_def same_server_def)
    ultimately show ?thesis
      using trusts_cong [of g c s s2 c2] by (simp add: can_sign_def c2_def helloed_client_def)
  qed
  obtain ce cv fin s3 s4 c4 where fl:
    "sendCertificate g (ee_server s2 ee) sigRnd = (s3, Inr (ce, cv))" "sendFinished g s3 = (s4, Inr fin)"
    "(if \<not> pskMode (ee_client c2 s2 ee) then
        (case HandleCertificate g (ee_client c2 s2 ee) ce of
           (c, Inl e) \<Rightarrow> (c, Inl e)
         | (c, Inr _) \<Rightarrow>
             (case HandleCertificateVerify g c cv of
                (c, Inl e) \<Rightarrow> (c, Inl e)
              | (c, Inr _) \<Rightarrow> HandleServerFinished g c fin))
      else HandleServerFinished g (ee_client c2 s2 ee) fin) = (c4, Inr ())"
    "flight_done c4 s4" "same_server (ee_server s2 ee) s4"
    "resumptionSelectedPSK s4 = resumptionSelectedPSK s2" "pskMode c4 = pskMode c2"
    "s_negotiatedProto s4 = s_negotiatedProto s2" "c_negotiatedProto c4 = c_negotiatedProto (ee_client c2 s2 ee)"
    "s_peerTransportParams s4 = s_peerTransportParams s2"
    "c_peerTransportParams c4 = c_peerTransportParams (ee_client c2 s2 ee)"
    "earlyDataAccepted c4 = earlyDataAccepted (ee_client c2 s2 ee)"
    "ClientEarlyKeys (c_secrets c4) = ClientEarlyKeys (c_secrets c2)"
    "ClientEarlyKeys (s_secrets s4) = ClientEarlyKeys (s_secrets s2)"
    using after_server_hello [OF ok np(4) rel ee cert] .
  have fd: "c_phase c4 = clientAfterServerFinished" "s_phase s4 = serverAfterFlight"
    "c_transcript c4 = s_transcript s4" "c_clientHSTraffic c4 = s_clientHSTraffic s4"
    using fl(4) by (simp_all add: flight_done_def)
  obtain cf t rms where cf: "ClientFinished g c4 = (c4\<lparr>c_transcript := t, clientFinishedSent := True\<rparr>, Inr cf)"
    "HandleClientFinished g s4 cf =
      (s4\<lparr>s_transcript := t, s_resumptionMasterSecret := rms, s_phase := serverAfterClientFinished\<rparr>, Inr ())"
    "DeriveResumptionMasterSecret g (s_masterSecret s4) (Transcript_Sum g t) = Inr rms"
    using client_finished_step [OF ok(1) fd] .
  let ?c = "c4\<lparr>c_transcript := t, clientFinishedSent := True\<rparr>"
    and ?s = "s4\<lparr>s_transcript := t, s_resumptionMasterSecret := rms, s_phase := serverAfterClientFinished\<rparr>"
  have "ServerFlight g s1 (Some sr) sigRnd = (s4, Inr (sh, ee, ce, cv, fin))"
    using h(3) sh(1) ee(1) fl(1,2) by (simp add: ServerFlight_def hello_rel_def s2_def [symmetric])
  moreover have "HandleServerFlight g ?c1 sh ee ce cv fin = (c4, Inr ())"
    using fl(3) by (simp add: HandleServerFlight_def sh(2) [folded c2_def] ee(2) del: ee_client_sel)
  ultimately have run: "runHandshake g c s env (Some cr) (Some sr) sigRnd = Inr (?c, ?s, env1)"
    using h(1,2) cf(1,2) by (simp add: runHandshake_def)
  have fc: "c_negotiatedProto c2 = []" "c_peerTransportParams c2 = []" "\<not> earlyDataAccepted c2"
      "\<not> acceptedEarlyData s2"
    using fresh h(4) by (simp_all add: c2_def s2_def helloed_client_def fresh_client_def fresh_server_def same_server_def)
  have proto: "c_negotiatedProto c4 = agreedProto (c_nextProtos c) (s_nextProtos s)"
    using fl(9) np fc agreedProto_facts(3) [OF aok k(7)] by simp
  have early: "ClientEarlyKeys (s_secrets s2) = ClientEarlyKeys (s_secrets s1)"
    "ClientEarlyKeys (c_secrets c2) = ClientEarlyKeys (c_secrets ?c1)" "offerEarlyData c2 = offerEarlyData ?c1"
    "resumptionSelectedPSK s2 = resumptionSelectedPSK s1"
    by (simp_all add: c2_def s2_def hs_secrets_def)
  have acc: "acceptedEarlyData s4 \<longleftrightarrow> early_admissible g s env c"
    using fl(5) fc(4) h(8) early(1) by (simp add: same_server_def ee_server_def)
  have ag: "agreed g ?c ?s"
  proof -
    from early have ek: "ClientEarlyKeys (s_secrets s2) = Some key \<Longrightarrow> offerEarlyData c2 \<and> pskMode c2
        \<and> ClientEarlyKeys (c_secrets c2) = Some key" for key
      using h(3) rel(5) by (simp add: hello_rel_def)
    then have "earlyDataAccepted c4 = acceptedEarlyData s4"
      "acceptedEarlyData s4 \<longrightarrow> ClientEarlyKeys (s_secrets s4) \<noteq> None
         \<and> ClientEarlyKeys (c_secrets c4) = ClientEarlyKeys (s_secrets s4)"
      using fl(5,12-14) fc(3,4) by (auto simp: same_server_def ee_server_def)
    then show ?thesis
      using fl(4,6,7,8) cf(3) rel(5) proto np(2) fd(1) by (simp add: agreed_def flight_done_def)
  qed
  have "earlyDataAccepted c4 = acceptedEarlyData s4" using ag by (simp add: agreed_def)
  moreover have "ticketKeys s4 = ticketKeys s" "resumptionSelectedPSK s4 = selected_psk g s env c"
    "s_peerTransportParams s4 = given_params (c_localTransportParams c) []"
    "c_peerTransportParams c4 = given_params (s_localTransportParams s) []"
    using fl(5,6,10,11) h(4,5,7) fc(2) np(3) by (simp_all add: s2_def same_server_def ee_server_def)
  ultimately show thesis using that [OF run ag] proto acc by simp
qed

lemma NewClient_fields:
  assumes "NewClientHandshakerWithConfig g k cfg = Inr c"
  shows "fresh_client c" "k = Some (c_ephemeral c)" "c_nextProtos c = cc_NextProtos cfg"
    "c_localTransportParams c = cc_TransportParameters cfg" "resumptionPSK c = cc_ResumptionPSK cfg"
    "resumptionIdentity c = cc_ResumptionIdentity cfg"
  using assms
  by (auto simp: NewClientHandshakerWithConfig_def deriveInitial_def fresh_client_def initialSecrets_def
      bindE_Inr_iff split: if_splits option.splits)

lemma NewServer_fields:
  assumes "NewServerHandshakerWithConfig g k cfg = Inr s"
  shows "fresh_server s" "k = Some (s_ephemeral s)" "s_nextProtos s = sc_NextProtos cfg"
    "s_localTransportParams s = sc_TransportParameters cfg" "ticketKeys s = sc_SessionTicketKeys cfg"
    "sc_Certificate cfg = Some (serverCert s)" "sc_PrivateKey cfg = Some (serverKey s)"
  using assms
  by (auto simp: NewServerHandshakerWithConfig_def deriveInitial_def fresh_server_def initialSecrets_def
      bindE_Inr_iff split: if_splits option.splits)

section \<open>A concrete connection\<close>

text \<open>
  A client that trusts the root of \<open>toy_cert 1 1\<close> and a server with a certificate under
  it and one ticket key.
\<close>

definition toy_ccfg :: ClientConfig where
  "toy_ccfg =
    \<lparr>cc_DCID = [1], cc_ServerName = [9], cc_Roots = Some (AddCert NewCertPool (Some (toy_cert 1 1))),
     cc_Intermediates = None, cc_InsecureSkipVerify = False, cc_VerifyPeerCertificate = None,
     cc_NextProtos = [[104, 51]], cc_TransportParameters = Some [7], cc_ResumptionPSK = None,
     cc_ResumptionIdentity = [], cc_ResumptionObfuscatedTicketAge = 0, cc_ResumptionAppData = [],
     cc_EarlyData = False\<rparr>"

definition toy_scfg :: "unit ServerConfig" where
  "toy_scfg =
    \<lparr>sc_DCID = [1], sc_Certificate = Some (toy_cert 2 1), sc_PrivateKey = Some (toy_key 2),
     sc_TransportParameters = Some [8], sc_NextProtos = [[1], [104, 51]],
     sc_SessionTicketKeys = Some (\<lambda>e. ([replicate 16 5], e)), sc_AllowEarlyData = False,
     sc_EarlyDataAcceptor = None\<rparr>"

lemma toy_client_new:
  obtains c where "NewClientHandshakerWithConfig toy_x509 (Some k) toy_ccfg = Inr c"
    "rootPool c = Some (AddCert NewCertPool (Some (toy_cert 1 1)))" "insecureSkipVerify c = False"
    "verifyPeerCert c = None" "intermediates c = None" "serverName c = [9]" "offerEarlyData c = False"
proof -
  obtain ci si where "deriveInitial toy_x509 [1] = Inr (initialSecrets ci si)"
    by (rule deriveInitial_total [OF toy_x509_ok(1), of "[1]"]) auto
  then show thesis by (intro that) (auto simp: NewClientHandshakerWithConfig_def toy_ccfg_def)
qed

lemma toy_server_new:
  obtains s where "NewServerHandshakerWithConfig toy_x509 (Some k) toy_scfg = Inr s"
proof -
  obtain ci si where "deriveInitial toy_x509 [1] = Inr (initialSecrets ci si)"
    by (rule deriveInitial_total [OF toy_x509_ok(1), of "[1]"]) auto
  then show thesis by (intro that) (auto simp: NewServerHandshakerWithConfig_def toy_scfg_def)
qed

lemma toy_key_pair: "d < 256 \<Longrightarrow> sm2_KeyPair toy_x509 (toy_key d)"
  by auto

lemma toy_random: "replicate 32 (2 :: byte) \<noteq> helloRetryRequestRandom"
proof -
  have "hd (replicate 32 (2 :: byte)) \<noteq> hd helloRetryRequestRandom" by (simp add: helloRetryRequestRandom_def)
  then show ?thesis by metis
qed

lemma toy_connects:
  assumes "NewClientHandshakerWithConfig toy_x509 (Some (toy_key 3)) toy_ccfg = Inr c"
    and "rootPool c = Some (AddCert NewCertPool (Some (toy_cert 1 1)))" and "insecureSkipVerify c = False"
    and "verifyPeerCert c = None" and "intermediates c = None" and "serverName c = [9]"
    and "NewServerHandshakerWithConfig toy_x509 (Some (toy_key 4)) toy_scfg = Inr s"
  shows "can_connect toy_x509 c s () (replicate 32 1) (replicate 32 2) []"
proof -
  note f = NewClient_fields [OF assms(1)] NewServer_fields [OF assms(7)]
  have sc: "serverCert s = toy_cert 2 1" "serverKey s = toy_key 2" using f by (auto simp: toy_scfg_def)
  have "trusts toy_x509 c s"
    using assms(2-6)
    by (simp add: trusts_def sc chainOptions_def ParseCertificate_def Verify_def verifySM2_def toy_cert_def
        toy_key_def toy_parse_def toy_chains_def IsSM2PublicKey_def AddCert_def NewCertPool_def
        pool_contains_def RawDER_def CertPool_Len_def reparse_def List.map_filter_def Let_def)
  moreover have "can_sign toy_x509 [] s" using toy_key_pair [of 2] by (simp add: can_sign_def sc)
  moreover have "c_ephemeral c = toy_key 3" "s_ephemeral s = toy_key 4" "resumptionPSK c = None"
    "c_nextProtos c = [[104, 51]]" "c_localTransportParams c = Some [7]" "s_nextProtos s = [[1], [104, 51]]"
    "s_localTransportParams s = Some [8]" "resumptionIdentity c = []"
    using f by (auto simp: toy_ccfg_def toy_scfg_def)
  moreover have "sm2_KeyPair toy_x509 (toy_key 3)" "sm2_KeyPair toy_x509 (toy_key 4)"
    by (rule toy_key_pair, simp)+
  ultimately show ?thesis
    using toy_random
    by (simp add: can_connect_def client_sizes_ok_def alpn_ok_def alpn_size_def params_size_def
        alpn_compatible_def ticket_consistent_def selected_psk_def sc toy_cert_def del: toy_x509_gm)
qed

lemma toy_run:
  obtains c s c1 s1 where "NewClientHandshakerWithConfig toy_x509 (Some (toy_key 3)) toy_ccfg = Inr c"
    "NewServerHandshakerWithConfig toy_x509 (Some (toy_key 4)) toy_scfg = Inr s"
    "can_connect toy_x509 c s () (replicate 32 1) (replicate 32 2) []"
    "runHandshake toy_x509 c s () (Some (replicate 32 1)) (Some (replicate 32 2)) [] = Inr (c1, s1, ())"
    "agreed toy_x509 c1 s1" "\<not> pskMode c1" "selected_psk toy_x509 s () c = None"
proof -
  obtain c where c: "NewClientHandshakerWithConfig toy_x509 (Some (toy_key 3)) toy_ccfg = Inr c"
    "rootPool c = Some (AddCert NewCertPool (Some (toy_cert 1 1)))" "insecureSkipVerify c = False"
    "verifyPeerCert c = None" "intermediates c = None" "serverName c = [9]"
    using toy_client_new by blast
  obtain s where s: "NewServerHandshakerWithConfig toy_x509 (Some (toy_key 4)) toy_scfg = Inr s"
    using toy_server_new by blast
  have sel: "selected_psk toy_x509 s () c = None"
    using NewClient_fields(5) [OF c(1)] by (simp add: selected_psk_def toy_ccfg_def)
  obtain c1 s1 env1 where "runHandshake toy_x509 c s () (Some (replicate 32 1)) (Some (replicate 32 2)) []
      = Inr (c1, s1, env1)" "agreed toy_x509 c1 s1" "resumptionSelectedPSK s1 = selected_psk toy_x509 s () c"
    using run_agrees [OF toy_x509_ok(1,3) NewClient_fields(1) [OF c(1)] NewServer_fields(1) [OF s] toy_connects [OF c s]]
    by blast
  moreover from this have "\<not> pskMode c1" using sel by (simp add: agreed_def)
  ultimately show thesis using that [OF c(1) s toy_connects [OF c s]] sel by simp
qed

text \<open>
  C1. Two handshakers built from their configurations that can connect complete the
  handshake: no step of either side reports an error, and at the end both have the same
  transcript, the same handshake and application keys, the same protocol and each
  other's transport parameters. The handshake ran on the pre-shared key exactly if the
  server could open the client's ticket, early data was accepted exactly if it was
  admissible, and both sides agree on whether it was and under which keys.
\<close>

theorem handshake_agrees:
  assumes "sm3_ok g" and "sm2_ok g"
    and "NewClientHandshakerWithConfig g (Some clientKey) ccfg = Inr c"
    and "NewServerHandshakerWithConfig g (Some serverEphemeral) scfg = Inr s"
    and "can_connect g c s env clientRandom serverRandom sigRnd"
  shows "\<exists>c' s' env'. runHandshake g c s env (Some clientRandom) (Some serverRandom) sigRnd = Inr (c', s', env')
    \<and> agreed g c' s'
    \<and> pskMode c' = (selected_psk g s env c \<noteq> None)
    \<and> earlyDataAccepted c' = early_admissible g s env c
    \<and> c_negotiatedProto c' = agreedProto (cc_NextProtos ccfg) (sc_NextProtos scfg)
    \<and> s_peerTransportParams s' = given_params (cc_TransportParameters ccfg) []
    \<and> c_peerTransportParams c' = given_params (sc_TransportParameters scfg) []"
  by (rule run_agrees [OF assms(1,2) NewClient_fields(1) [OF assms(3)] NewServer_fields(1) [OF assms(4)] assms(5)])
     (use NewClient_fields(3,4) [OF assms(3)] NewServer_fields(3,4) [OF assms(4)] in \<open>auto simp: agreed_def\<close>)

theorem handshake_agrees_witness:
  "\<exists>c s c' s' env'.
     NewClientHandshakerWithConfig toy_x509 (Some (toy_key 3)) toy_ccfg = Inr c
     \<and> NewServerHandshakerWithConfig toy_x509 (Some (toy_key 4)) toy_scfg = Inr s
     \<and> runHandshake toy_x509 c s () (Some (replicate 32 1)) (Some (replicate 32 2)) [] = Inr (c', s', env')
     \<and> agreed toy_x509 c' s' \<and> \<not> pskMode c' \<and> c_negotiatedProto c' = [104, 51]
     \<and> s_peerTransportParams s' = [7] \<and> c_peerTransportParams c' = [8]"
proof -
  obtain c s where c: "NewClientHandshakerWithConfig toy_x509 (Some (toy_key 3)) toy_ccfg = Inr c"
    and s: "NewServerHandshakerWithConfig toy_x509 (Some (toy_key 4)) toy_scfg = Inr s"
    and conn: "can_connect toy_x509 c s () (replicate 32 1) (replicate 32 2) []"
    and sel: "selected_psk toy_x509 s () c = None"
    by (rule toy_run)
  from handshake_agrees [OF toy_x509_ok(1,3) c s conn] c s sel show ?thesis
    by (auto simp: agreedProto_def given_params_def toy_ccfg_def toy_scfg_def)
qed

section \<open>Session tickets\<close>

lemma ticket_length:
  assumes "sm4_ok g" and "EncryptSessionTicketWithData g rnd tek psk age appData = Inr ticket"
  shows "length ticket = 37 + length psk + length appData"
proof -
  from assms(2) obtain nonce a ct where a: "NewAEAD tek nonce = Inr a"
    "AEAD_Seal g a 0 (psk @ be 4 (unat age) @ appData @ be 4 (length appData)) [sessionTicketVersion] = Inr ct"
    "ticket = sessionTicketVersion # nonce @ ct"
    by (auto simp: EncryptSessionTicketWithData_def bindE_Inr_iff Let_def split: if_splits option.splits)
  moreover have "length nonce = 12" using a(1) by (simp add: NewAEAD_iff)
  ultimately show ?thesis using AEAD_seal_length [OF assms(1) NewAEAD_wf [OF a(1)] a(2)] by simp
qed

lemma ticket_step:
  assumes ok: "sm3_ok g" "sm4_ok g" and "agreed g c s"
    and keys: "ticketKeys s = Some getKeys" "getKeys env = (keys, env')" "keys \<noteq> []" "length (keys ! 0) = 16"
    and len: "length nonce \<le> 255" "length sealNonce = 12" "length appData \<le> 9000"
  obtains nst ticket psk where
    "NewSessionTicketWithData g s env lifetime appData (Some nonce) (Some ageRnd) (Some sealNonce) = (env', Inr nst)"
    "snd (HandleNewSessionTicket g c (drop 4 nst)) = Inr (ticket, psk, of_nat (unbe ageRnd))"
    "EncryptSessionTicketWithData g (Some sealNonce) (keys ! 0) psk (of_nat (unbe ageRnd)) appData = Inr ticket"
    "length ticket \<le> 10000"
proof -
  let ?age = "of_nat (unbe ageRnd) :: u32"
  let ?life = "if lifetime > maxSessionTicketLifetime then maxSessionTicketLifetime else lifetime"
  obtain psk where psk: "DeriveResumptionPSK g (s_resumptionMasterSecret s) nonce = Inr psk" "length psk = 32"
    using HKDFExpandLabel_total [OF ok(1) label_lengths len(1), of LabelResumption 32]
    by (auto simp: DeriveResumptionPSK_def all_labels_def)
  obtain ticket where t: "EncryptSessionTicketWithData g (Some sealNonce) (keys ! 0) psk ?age appData = Inr ticket"
    using Encrypt_total [OF ok(2) keys(4) len(2), of appData psk ?age] len(3) psk(2) by auto
  then have tl: "length ticket = 69 + length appData" using ticket_length [OF ok(2)] psk(2) by auto
  let ?m = "\<lparr>TicketLifetime = ?life, TicketAgeAdd = ?age, nst_TicketNonce = nonce, Ticket = ticket, nst_Extensions = []\<rparr>"
  obtain b where b: "marshalExtensions [] = Inr b" "length b = 2" using marshalExtensions_total [of "[]"] by auto
  obtain nst where nst: "MarshalHandshakeMessage HandshakeTypeNewSessionTicket (NewSessionTicket_marshalBody ?m) = Inr nst"
    using b tl len
    by (auto simp: NewSessionTicket_marshalBody_def MarshalHandshakeMessage_def MaxHandshakeMessageLen_def not_less)
  have "NewSessionTicketWithData g s env lifetime appData (Some nonce) (Some ageRnd) (Some sealNonce) = (env', Inr nst)"
    (is ?new) using assms(3) keys nst by (simp add: NewSessionTicketWithData_def agreed_def psk t Let_def)
  have "NewSessionTicket_unmarshalBody (drop 4 nst) = Inr ?m"
    using newSessionTicket.readBody_marshalled [OF TrueI nst, of "\<lambda>_. True"] by (simp add: readBody_Inr_iff)
  moreover have "clientFinishedSent c" "DeriveResumptionMasterSecret g (c_masterSecret c)
      (Transcript_Sum g (c_transcript c)) = Inr (s_resumptionMasterSecret s)"
    using assms(3) unfolding agreed_def by blast+
  ultimately have "snd (HandleNewSessionTicket g c (drop 4 nst)) = Inr (ticket, psk, ?age)"
    using psk(1) by (simp add: HandleNewSessionTicket_def Let_def)
  then show thesis using that \<open>?new\<close> t tl len(3) by simp
qed

text \<open>The client that reconnects with a ticket.\<close>

definition resuming :: "ClientConfig \<Rightarrow> bytes \<Rightarrow> bytes \<Rightarrow> u32 \<Rightarrow> ClientConfig" where
  "resuming cfg ticket psk obfAge =
    cfg\<lparr>cc_ResumptionPSK := Some psk, cc_ResumptionIdentity := ticket,
        cc_ResumptionObfuscatedTicketAge := obfAge\<rparr>"

lemma NewClient_resuming:
  assumes "NewClientHandshakerWithConfig g k cfg = Inr c"
  shows "NewClientHandshakerWithConfig g k (resuming cfg ticket psk obfAge)
    = Inr (c\<lparr>resumptionPSK := Some psk, resumptionIdentity := ticket, resumptionObfAge := obfAge\<rparr>)"
  using assms by (auto simp: NewClientHandshakerWithConfig_def resuming_def bindE_Inr_iff split: if_splits option.splits)

text \<open>
  C4. The ticket of one connection resumes the next. After a completed handshake the
  server issues a ticket under its current key; the client reads from it the key the
  server sealed in it. A second handshake of the same client, now with that ticket and
  key, against a server whose key list contains the sealing key (and no other key that
  authenticates the ticket), completes on the pre-shared key: both sides agree, the server
  selects the client's key, and no certificate is needed.
\<close>

theorem ticket_resumes:
  assumes ok: "sm3_ok g" "sm4_ok g" "sm2_ok g"
    and first: "NewClientHandshakerWithConfig g (Some k1) ccfg = Inr c"
      "NewServerHandshakerWithConfig g (Some k2) scfg = Inr s" "can_connect g c s env cr sr sigRnd"
      "runHandshake g c s env (Some cr) (Some sr) sigRnd = Inr (c1, s1, env1)"
    and issue: "sc_SessionTicketKeys scfg = Some getKeys" "getKeys env1 = (keys, env2)" "keys \<noteq> []"
      "length (keys ! 0) = 16" "length nonce \<le> 255" "length sealNonce = 12" "length appData \<le> 9000"
    and second: "NewClientHandshakerWithConfig g (Some k3) ccfg = Inr d"
      "NewServerHandshakerWithConfig g (Some k4) scfg2 = Inr t" "sm2_KeyPair g k3" "sm2_KeyPair g k4"
      "sc_SessionTicketKeys scfg2 = Some getKeys2" "keys ! 0 \<in> set (fst (getKeys2 env3))"
      "params_size (sc_TransportParameters scfg2) \<le> 10000"
      "alpn_compatible (cc_NextProtos ccfg) (sc_NextProtos scfg2)"
      "length cr2 = 32" "length sr2 = 32" "sr2 \<noteq> helloRetryRequestRandom"
  shows "\<exists>nst ticket psk.
    NewSessionTicketWithData g s1 env1 lifetime appData (Some nonce) (Some ageRnd) (Some sealNonce) = (env2, Inr nst)
    \<and> snd (HandleNewSessionTicket g c1 (drop 4 nst)) = Inr (ticket, psk, of_nat (unbe ageRnd))
    \<and> ((\<forall>k \<in> set (fst (getKeys2 env3)). k \<noteq> keys ! 0 \<longrightarrow> \<not> opens g sealNonce (drop 13 ticket) k) \<longrightarrow>
       (\<exists>d' c3 s3 env4. NewClientHandshakerWithConfig g (Some k3) (resuming ccfg ticket psk obfAge) = Inr d'
       \<and> runHandshake g d' t env3 (Some cr2) (Some sr2) [] = Inr (c3, s3, env4)
       \<and> agreed g c3 s3 \<and> pskMode c3 \<and> resumptionSelectedPSK s3 = Some psk))"
proof -
  obtain c' s' env' where "runHandshake g c s env (Some cr) (Some sr) sigRnd = Inr (c', s', env')"
    "agreed g c' s'" "ticketKeys s' = ticketKeys s"
    using run_agrees [OF ok(1,3) NewClient_fields(1) [OF first(1)] NewServer_fields(1) [OF first(2)] first(3)] .
  then have ag: "agreed g c1 s1" and tk: "ticketKeys s1 = Some getKeys"
    using first(4) NewServer_fields(5) [OF first(2)] issue(1) by simp_all
  obtain nst ticket psk where t:
    "NewSessionTicketWithData g s1 env1 lifetime appData (Some nonce) (Some ageRnd) (Some sealNonce) = (env2, Inr nst)"
    "snd (HandleNewSessionTicket g c1 (drop 4 nst)) = Inr (ticket, psk, of_nat (unbe ageRnd))"
    "EncryptSessionTicketWithData g (Some sealNonce) (keys ! 0) psk (of_nat (unbe ageRnd)) appData = Inr ticket"
    "length ticket \<le> 10000"
    using ticket_step [OF ok(1,2) ag tk issue(2-7)] .
  have nonce: "take 12 (drop 1 ticket) = sealNonce"
    using t(3) issue(6) by (auto simp: EncryptSessionTicketWithData_def bindE_Inr_iff Let_def split: if_splits)
  have "\<exists>d' c3 s3 env4. NewClientHandshakerWithConfig g (Some k3) (resuming ccfg ticket psk obfAge) = Inr d'
       \<and> runHandshake g d' t env3 (Some cr2) (Some sr2) [] = Inr (c3, s3, env4)
       \<and> agreed g c3 s3 \<and> pskMode c3 \<and> resumptionSelectedPSK s3 = Some psk"
    if excl: "\<forall>k \<in> set (fst (getKeys2 env3)). k \<noteq> keys ! 0 \<longrightarrow> \<not> opens g sealNonce (drop 13 ticket) k"
  proof -
    have dec: "DecryptSessionTicketWithData g (fst (getKeys2 env3)) ticket = Inr (psk, of_nat (unbe ageRnd), appData)"
      by (rule ticket_roundtrip_aux [OF ok(2) t(3) second(6)]) (use excl nonce in simp)
    let ?d = "d\<lparr>resumptionPSK := Some psk, resumptionIdentity := ticket, resumptionObfAge := obfAge\<rparr>"
    note d = NewClient_resuming [OF second(1), of ticket psk obfAge]
    have op: "opened_ticket g t env3 ?d = Inr (psk, of_nat (unbe ageRnd), appData)"
      using dec NewServer_fields(5) [OF second(2)] second(5) by (simp add: opened_ticket_def)
    have sel: "selected_psk g t env3 ?d = Some psk" by (simp add: selected_psk_def op)
    have "client_sizes_ok c" using first(3) by (simp add: can_connect_def)
    then have "client_sizes_ok ?d"
      using NewClient_fields(3,4) [OF first(1)] NewClient_fields(3,4) [OF second(1)] t(4)
      by (simp add: client_sizes_ok_def)
    then have "can_connect g ?d t env3 cr2 sr2 []"
      using second NewClient_fields(2-4) [OF second(1)] NewServer_fields(2-5) [OF second(2)] sel op
      by (simp add: can_connect_def ticket_consistent_def)
    from run_agrees [OF ok(1,3) NewClient_fields(1) [OF d] NewServer_fields(1) [OF second(2)] this]
    obtain c3 s3 env4 where "runHandshake g ?d t env3 (Some cr2) (Some sr2) [] = Inr (c3, s3, env4)"
      "agreed g c3 s3" "resumptionSelectedPSK s3 = Some psk" unfolding sel by metis
    then show ?thesis using d by (auto simp: agreed_def)
  qed
  then show ?thesis using t(1,2) by blast
qed

theorem ticket_resumes_witness:
  "\<exists>c s c1 s1 env1 nst ticket psk d t c3 s3 env4.
     NewClientHandshakerWithConfig toy_x509 (Some (toy_key 3)) toy_ccfg = Inr c
     \<and> NewServerHandshakerWithConfig toy_x509 (Some (toy_key 4)) toy_scfg = Inr s
     \<and> runHandshake toy_x509 c s () (Some (replicate 32 1)) (Some (replicate 32 2)) [] = Inr (c1, s1, env1)
     \<and> NewSessionTicketWithData toy_x509 s1 env1 3600 [1, 2] (Some (replicate 8 3)) (Some [0, 0, 0, 9])
         (Some (replicate 12 4)) = ((), Inr nst)
     \<and> NewClientHandshakerWithConfig toy_x509 (Some (toy_key 5)) (resuming toy_ccfg ticket psk 77) = Inr d
     \<and> NewServerHandshakerWithConfig toy_x509 (Some (toy_key 6)) toy_scfg = Inr t
     \<and> runHandshake toy_x509 d t () (Some (replicate 32 1)) (Some (replicate 32 2)) [] = Inr (c3, s3, env4)
     \<and> agreed toy_x509 c3 s3 \<and> pskMode c3 \<and> resumptionSelectedPSK s3 = Some psk"
proof -
  obtain c s c1 s1 where c: "NewClientHandshakerWithConfig toy_x509 (Some (toy_key 3)) toy_ccfg = Inr c"
    and s: "NewServerHandshakerWithConfig toy_x509 (Some (toy_key 4)) toy_scfg = Inr s"
    and conn: "can_connect toy_x509 c s () (replicate 32 1) (replicate 32 2) []"
    and run: "runHandshake toy_x509 c s () (Some (replicate 32 1)) (Some (replicate 32 2)) [] = Inr (c1, s1, ())"
    by (rule toy_run)
  obtain d where d: "NewClientHandshakerWithConfig toy_x509 (Some (toy_key 5)) toy_ccfg = Inr d"
    using toy_client_new by blast
  obtain t where t: "NewServerHandshakerWithConfig toy_x509 (Some (toy_key 6)) toy_scfg = Inr t"
    using toy_server_new by blast
  have k: "sm2_KeyPair toy_x509 (toy_key 5)" "sm2_KeyPair toy_x509 (toy_key 6)"
    by (rule toy_key_pair, simp)+
  have "\<exists>nst ticket psk.
    NewSessionTicketWithData toy_x509 s1 () 3600 [1, 2] (Some (replicate 8 3)) (Some [0, 0, 0, 9])
      (Some (replicate 12 4)) = ((), Inr nst)
    \<and> snd (HandleNewSessionTicket toy_x509 c1 (drop 4 nst)) = Inr (ticket, psk, of_nat (unbe [0, 0, 0, 9]))
    \<and> ((\<forall>k \<in> set (fst ((\<lambda>e. ([replicate 16 5], e)) ())). k \<noteq> [replicate 16 5] ! 0 \<longrightarrow>
          \<not> opens toy_x509 (replicate 12 4) (drop 13 ticket) k) \<longrightarrow>
       (\<exists>d' c3 s3 env4. NewClientHandshakerWithConfig toy_x509 (Some (toy_key 5)) (resuming toy_ccfg ticket psk 77) = Inr d'
       \<and> runHandshake toy_x509 d' t () (Some (replicate 32 1)) (Some (replicate 32 2)) [] = Inr (c3, s3, env4)
       \<and> agreed toy_x509 c3 s3 \<and> pskMode c3 \<and> resumptionSelectedPSK s3 = Some psk))"
    by (rule ticket_resumes [OF toy_x509_ok c s conn run _ _ _ _ _ _ _ d t k])
      (use toy_random in \<open>simp_all add: toy_scfg_def toy_ccfg_def params_size_def alpn_compatible_def\<close>)
  then show ?thesis using c s run t by fastforce
qed

end
