(* ===== verification/ClientProperties.thy ===== *)
theory ClientProperties
  imports ClientSafety HandshakeRun
begin

text \<open>
  The client's guarantees over every sequence of calls, and the places where a method
  accepts more, or less, than the protocol does.
\<close>

section \<open>The configuration is fixed\<close>

lemma same_config_refl [simp]: "same_config c c"
  by (simp add: same_config_def)

lemma same_config_trans: "same_config a b \<Longrightarrow> same_config b c \<Longrightarrow> same_config a c"
  by (simp add: same_config_def)

lemma same_config_update [simp]:
  "same_config c (d\<lparr>c_transcript := t\<rparr>) = same_config c d" "same_config c (d\<lparr>c_phase := p\<rparr>) = same_config c d"
  "same_config c (d\<lparr>c_secrets := h\<rparr>) = same_config c d" "same_config c (d\<lparr>c_handshakeSecret := b\<rparr>) = same_config c d"
  "same_config c (d\<lparr>c_masterSecret := b\<rparr>) = same_config c d" "same_config c (d\<lparr>c_clientHSTraffic := b\<rparr>) = same_config c d"
  "same_config c (d\<lparr>c_serverHSTraffic := b\<rparr>) = same_config c d" "same_config c (d\<lparr>pskMode := x\<rparr>) = same_config c d"
  "same_config c (d\<lparr>c_resumptionMasterSecret := b\<rparr>) = same_config c d" "same_config c (d\<lparr>leafCert := l\<rparr>) = same_config c d"
  "same_config c (d\<lparr>c_peerTransportParams := b\<rparr>) = same_config c d" "same_config c (d\<lparr>clientHello1Full := o1\<rparr>) = same_config c d"
  "same_config c (d\<lparr>offerEarlyData := x\<rparr>) = same_config c d" "same_config c (d\<lparr>earlyDataAccepted := x\<rparr>) = same_config c d"
  "same_config c (d\<lparr>c_negotiatedProto := b\<rparr>) = same_config c d" "same_config c (d\<lparr>clientFinishedSent := x\<rparr>) = same_config c d"
  "same_config c (ClientHandshaker_fail d) = same_config c d"
  by (simp_all add: same_config_def ClientHandshaker_fail_def)

lemma same_config_tryS:
  "same_config c s \<Longrightarrow> (\<And>a. same_config c (fst (k a))) \<Longrightarrow> same_config c (fst (tryS s r k))"
  by (cases r) simp_all

lemma config_ClientHello: "same_config c (fst (ClientHello g c rnd))"
  unfolding ClientHello_def Let_def
  by (auto split: option.splits public_key.splits intro!: same_config_tryS)

lemma config_HandleServerHello: "same_config c (fst (HandleServerHello g c m))"
  unfolding HandleServerHello_def deriveClientHandshakeKeys_def Let_def
  by (auto split: option.splits public_key.splits intro!: same_config_tryS)

lemma config_HandleHelloRetryRequest: "same_config c (fst (HandleHelloRetryRequest g c rnd m))"
  unfolding HandleHelloRetryRequest_def Let_def
  by (auto split: option.splits public_key.splits intro!: same_config_tryS)

lemma config_HandleEncryptedExtensions: "same_config c (fst (HandleEncryptedExtensions c m))"
  unfolding HandleEncryptedExtensions_def Let_def
  by (auto split: option.splits public_key.splits intro!: same_config_tryS)

lemma config_HandleCertificate: "same_config c (fst (HandleCertificate g c m))"
  unfolding HandleCertificate_def Let_def
  by (auto split: option.splits public_key.splits intro!: same_config_tryS)

lemma config_HandleCertificateVerify: "same_config c (fst (HandleCertificateVerify g c m))"
  unfolding HandleCertificateVerify_def Let_def
  by (auto split: option.splits public_key.splits intro!: same_config_tryS)

lemma config_HandleServerFinished: "same_config c (fst (HandleServerFinished g c m))"
  unfolding HandleServerFinished_def deriveClientApplicationKeys_def Let_def
  by (auto split: option.splits public_key.splits intro!: same_config_tryS)

lemma config_ClientFinished: "same_config c (fst (ClientFinished g c))"
  unfolding ClientFinished_def Let_def
  by (auto split: option.splits public_key.splits intro!: same_config_tryS)

lemma config_HandleNewSessionTicket: "same_config c (fst (HandleNewSessionTicket g c m))"
  unfolding HandleNewSessionTicket_def Let_def
  by (auto split: option.splits public_key.splits intro!: same_config_tryS)

lemma config_DiscardEarlyKeys: "same_config c (ClientHandshaker_DiscardEarlyKeys c)"
  by (simp add: ClientHandshaker_DiscardEarlyKeys_def)

lemmas same_config_calls =
  config_ClientHello config_HandleServerHello config_HandleHelloRetryRequest config_HandleEncryptedExtensions config_HandleCertificate config_HandleCertificateVerify config_HandleServerFinished config_ClientFinished config_HandleNewSessionTicket config_DiscardEarlyKeys

lemma client_steps_config: "client_steps g c c' \<Longrightarrow> same_config c c'"
proof (induction rule: rtranclp_induct)
  case (step b c')
  from step.hyps(2) have "same_config b c'" by cases (simp_all add: same_config_calls)
  then show ?case using step.IH same_config_trans by blast
qed simp

section \<open>A run is a sequence of calls\<close>

lemma flight_client_steps:
  assumes "HandleServerFlight g c sh ee ce cv fin = (c', r)"
  shows "client_steps g c c'"
proof -
  note one = r_into_rtranclp [of "client_step g"]
  have sh: "client_steps g c (fst (HandleServerHello g c sh))" by (rule one [OF step_ServerHello])
  have ee: "client_steps g d (fst (HandleEncryptedExtensions d ee))" for d by (rule one [OF step_EncryptedExtensions])
  have ce: "client_steps g d (fst (HandleCertificate g d ce))" for d by (rule one [OF step_Certificate])
  have cv: "client_steps g d (fst (HandleCertificateVerify g d cv))" for d by (rule one [OF step_CertificateVerify])
  have fin: "client_steps g d (fst (HandleServerFinished g d fin))" for d by (rule one [OF step_ServerFinished])
  have "client_steps g c (fst (HandleServerFlight g c sh ee ce cv fin))"
    using sh ee ce cv fin unfolding HandleServerFlight_def
    by (auto split: prod.splits sum.splits intro: rtranclp_trans)
       (metis fst_conv rtranclp_trans)+
  then show ?thesis using assms by simp
qed

lemma run_client_steps:
  assumes "runHandshake g c s env cr sr sigRnd = Inr (c', s', env')"
  shows "client_steps g c c'"
proof -
  obtain c1 ch c2 sh ee ce cv fin cf where "ClientHello g c cr = (c1, Inr ch)"
    and fl: "HandleServerFlight g c1 sh ee ce cv fin = (c2, Inr ())" and "ClientFinished g c2 = (c', Inr cf)"
    using assms by (auto simp: runHandshake_def split: prod.splits sum.splits)
  then have "c1 = fst (ClientHello g c cr)" "c' = fst (ClientFinished g c2)" by simp_all
  then show ?thesis
    using flight_client_steps [OF fl] step_ClientHello [of g c cr] step_ClientFinished [of g c2]
    by (meson converse_rtranclp_into_rtranclp rtranclp.rtrancl_into_rtrancl)
qed

section \<open>Authentication\<close>

text \<open>
  C2. The client never has application keys for a server it has not authenticated.
  Whatever messages a new client is given and in whatever order its methods are called,
  if it holds application keys then the server's Finished in its transcript is the MAC
  of the transcript before it, under the server's handshake traffic secret; and either
  the handshake secret comes from the pre-shared key of the client's own configuration,
  or the transcript contains a Certificate followed by a CertificateVerify whose
  signature verifies under the leaf's key over the transcript up to it. In the second
  case, unless verification is disabled or left to the callback, the leaf passed
  \<open>Verify\<close> for the configured server name and root pool, and if a callback is
  configured it accepted the chain.
\<close>

theorem client_authenticates_server:
  assumes "NewClientHandshakerWithConfig g k cfg = Inr c" and "client_steps g c c'" and "has_app_keys c'"
  shows "finished_auth g c' \<and>
    (if pskMode c'
     then \<exists>psk es ss. cc_ResumptionPSK cfg = Some psk \<and> DeriveEarlySecret g psk = Inr es
       \<and> DeriveHandshakeSecret g es ss = Inr (c_handshakeSecret c')
     else \<exists>t body m leaf pub cvBody cv opts.
       prefix (t @ msg_bytes HandshakeTypeCertificate body @ msg_bytes HandshakeTypeCertificateVerify cvBody)
         (Transcript_Bytes (c_transcript c'))
       \<and> Certificate_unmarshalBody body = Inr m \<and> CertificateVerify_unmarshalBody cvBody = Inr cv
       \<and> CertificateList m \<noteq> [] \<and> ParseCertificate g (Certificate (CertificateList m ! 0)) = Some leaf
       \<and> CertKey leaf = EcdsaKey pub
       \<and> VerifyCertificateVerify g pub ServerCertificateVerifyContext
            (sm3_Sum g (t @ msg_bytes HandshakeTypeCertificate body)) (Signature cv)
       \<and> (\<not> cc_InsecureSkipVerify cfg \<longrightarrow> cc_Roots cfg \<noteq> None \<longrightarrow>
            Verify g (Some leaf) opts = Inr () \<and> DNSName opts = cc_ServerName cfg \<and> Roots opts = cc_Roots cfg)
       \<and> (\<forall>f. cc_VerifyPeerCertificate cfg = Some f \<longrightarrow> f (map Certificate (CertificateList m))))"
proof -
  have inv: "client_inv g c'" by (rule client_steps_inv [OF assms(2) NewClient_inv [OF assms(1)]])
  have "same_config c c'" by (rule client_steps_config [OF assms(2)])
  then have cfg: "insecureSkipVerify c' = cc_InsecureSkipVerify cfg" "rootPool c' = cc_Roots cfg"
    "serverName c' = cc_ServerName cfg" "verifyPeerCert c' = cc_VerifyPeerCertificate cfg"
    "resumptionPSK c' = cc_ResumptionPSK cfg"
    using assms(1) by (auto simp: same_config_def NewClientHandshakerWithConfig_def bindE_Inr_iff split: if_splits option.splits)
  have fin: "finished_auth g c'" and auth: "server_auth g c'" using inv assms(3) by (simp_all add: client_inv_def)
  show ?thesis
  proof (cases "pskMode c'")
    case True
    then show ?thesis using fin auth cfg(5) by (simp add: server_auth_def psk_keyed_def)
  next
    case False
    then have "cert_auth g c'" using auth by (simp add: server_auth_def)
    then obtain t body m leaf pub cvBody cv where ca:
      "prefix (t @ msg_bytes HandshakeTypeCertificate body @ msg_bytes HandshakeTypeCertificateVerify cvBody)
         (Transcript_Bytes (c_transcript c'))"
      "Certificate_unmarshalBody body = Inr m" "trusted_chain g c' (CertificateList m) leaf"
      "CertKey leaf = EcdsaKey pub" "CertificateVerify_unmarshalBody cvBody = Inr cv"
      "VerifyCertificateVerify g pub ServerCertificateVerifyContext
            (sm3_Sum g (t @ msg_bytes HandshakeTypeCertificate body)) (Signature cv)"
      by (auto simp: cert_auth_def)
    let ?opts = "chainOptions g c' (CertificateList m)"
    have "DNSName ?opts = cc_ServerName cfg" "Roots ?opts = cc_Roots cfg"
      by (simp_all add: chainOptions_def cfg Let_def)
    moreover have "\<not> cc_InsecureSkipVerify cfg \<longrightarrow> cc_Roots cfg \<noteq> None \<longrightarrow> Verify g (Some leaf) ?opts = Inr ()"
      "CertificateList m \<noteq> []" "ParseCertificate g (Certificate (CertificateList m ! 0)) = Some leaf"
      "\<forall>f. cc_VerifyPeerCertificate cfg = Some f \<longrightarrow> f (map Certificate (CertificateList m))"
      using ca(3) unfolding trusted_chain_def cfg by (force, metis, metis, metis)
    ultimately show ?thesis using fin False ca(1,2,4-6) by (simp only: if_False) blast
  qed
qed

theorem client_authenticates_server_witness:
  "\<exists>c c' leaf opts. NewClientHandshakerWithConfig toy_x509 (Some (toy_key 3)) toy_ccfg = Inr c
     \<and> client_steps toy_x509 c c' \<and> has_app_keys c' \<and> \<not> pskMode c' \<and> finished_auth toy_x509 c'
     \<and> Verify toy_x509 (Some leaf) opts = Inr () \<and> DNSName opts = [9]"
proof -
  obtain c s c1 s1 where c: "NewClientHandshakerWithConfig toy_x509 (Some (toy_key 3)) toy_ccfg = Inr c"
    and run: "runHandshake toy_x509 c s () (Some (replicate 32 1)) (Some (replicate 32 2)) [] = Inr (c1, s1, ())"
    and ag: "agreed toy_x509 c1 s1" "\<not> pskMode c1"
    by (rule toy_run)
  have app: "has_app_keys c1" using ag(1) by (simp add: agreed_def has_app_keys_def)
  from client_authenticates_server [OF c run_client_steps [OF run] app]
  show ?thesis using c run_client_steps [OF run] app ag(2) by (auto simp: toy_ccfg_def)
qed

section \<open>Order of the calls\<close>

lemma ClientFinished_total:
  assumes "sm3_ok g" and "c_phase c = clientAfterServerFinished"
  obtains cf where "ClientFinished g c = (c\<lparr>c_transcript := AddMessage (c_transcript c) HandshakeTypeFinished (drop 4 cf),
      clientFinishedSent := True\<rparr>, Inr cf)"
    "Transcript_Bytes (AddMessage (c_transcript c) HandshakeTypeFinished (drop 4 cf)) = Transcript_Bytes (c_transcript c) @ cf"
    "cf \<noteq> []"
proof -
  obtain fk vd where fk: "DeriveFinishedKey g (c_clientHSTraffic c) = Inr fk"
    "\<And>h. ComputeFinishedVerifyData g fk h = Inr (vd h)" "\<And>h. length (vd h) = 32"
    using finished_total [OF assms(1)] by blast
  obtain cf where cf: "MarshalHandshakeMessage HandshakeTypeFinished
      (Finished_marshalBody \<lparr>VerifyData = vd (Transcript_Sum g (c_transcript c))\<rparr>) = Inr cf"
    using Marshal_Finished_total [OF fk(3)] .
  have "ClientFinished g c = (c\<lparr>c_transcript := AddMessage (c_transcript c) HandshakeTypeFinished (drop 4 cf),
      clientFinishedSent := True\<rparr>, Inr cf)"
    using assms(2) fk cf by (simp add: ClientFinished_def)
  moreover have "cf \<noteq> []" using AddMessage_marshal(3) [OF cf] by auto
  ultimately show thesis using that AddMessage_marshal(1) [OF cf] by blast
qed

text \<open>The position of a phase in the flight; a failed handshaker is past all of them.\<close>

fun phase_rank :: "clientHandshakePhase \<Rightarrow> nat" where
  "phase_rank clientPhaseNone = 0"
| "phase_rank clientAfterClientHello = 1"
| "phase_rank clientAfterServerHello = 2"
| "phase_rank clientAfterEncryptedExtensions = 3"
| "phase_rank clientAfterCertificate = 4"
| "phase_rank clientAfterCertificateVerify = 5"
| "phase_rank clientAfterServerFinished = 6"
| "phase_rank clientFailed = 7"

definition onward :: "ClientHandshaker \<Rightarrow> ClientHandshaker \<Rightarrow> bool" where
  "onward c c' \<longleftrightarrow> phase_rank (c_phase c) \<le> phase_rank (c_phase c')
     \<and> (2 \<le> phase_rank (c_phase c) \<longrightarrow>
          prefix (Transcript_Bytes (c_transcript c)) (Transcript_Bytes (c_transcript c')))"

lemma phase_rank_le: "phase_rank p \<le> 7"
  by (cases p) simp_all

lemma onward_refl [simp]: "onward c c"
  by (simp add: onward_def)

lemma onward_tryS: "onward c s \<Longrightarrow> (\<And>a. onward c (fst (k a))) \<Longrightarrow> onward c (fst (tryS s r k))"
  by (cases r) simp_all

lemma onward_ClientHello: "onward c (fst (ClientHello g c rnd))"
  unfolding ClientHello_def Let_def
  by (auto split: option.splits intro!: onward_tryS; auto simp: onward_def ClientHandshaker_fail_def phase_rank_le)

lemma onward_ServerHello: "onward c (fst (HandleServerHello g c m))"
  unfolding HandleServerHello_def deriveClientHandshakeKeys_def Let_def
  by (auto intro!: onward_tryS; auto simp: onward_def ClientHandshaker_fail_def phase_rank_le)

lemma onward_HelloRetry: "onward c (fst (HandleHelloRetryRequest g c rnd m))"
  unfolding HandleHelloRetryRequest_def Let_def
  by (auto split: option.splits intro!: onward_tryS; auto simp: onward_def ClientHandshaker_fail_def phase_rank_le)

lemma onward_EncryptedExtensions: "onward c (fst (HandleEncryptedExtensions c m))"
  unfolding HandleEncryptedExtensions_def Let_def
  by (auto intro!: onward_tryS; auto simp: onward_def ClientHandshaker_fail_def phase_rank_le)

lemma onward_Certificate: "onward c (fst (HandleCertificate g c m))"
  unfolding HandleCertificate_def Let_def
  by (auto split: option.splits intro!: onward_tryS; auto simp: onward_def ClientHandshaker_fail_def phase_rank_le)

lemma onward_CertificateVerify: "onward c (fst (HandleCertificateVerify g c m))"
  unfolding HandleCertificateVerify_def Let_def
  by (auto split: option.splits public_key.splits intro!: onward_tryS; auto simp: onward_def ClientHandshaker_fail_def phase_rank_le)

lemma onward_ServerFinished: "onward c (fst (HandleServerFinished g c m))"
  unfolding HandleServerFinished_def deriveClientApplicationKeys_def Let_def
  by (auto intro!: onward_tryS; auto simp: onward_def ClientHandshaker_fail_def phase_rank_le)

lemma onward_ClientFinished: "onward c (fst (ClientFinished g c))"
  unfolding ClientFinished_def Let_def
  by (auto intro!: onward_tryS; auto simp: onward_def)

lemma onward_NewSessionTicket: "onward c (fst (HandleNewSessionTicket g c m))"
  unfolding HandleNewSessionTicket_def Let_def
  by (auto intro!: onward_tryS; auto simp: onward_def)

lemma onward_DiscardEarlyKeys: "onward c (ClientHandshaker_DiscardEarlyKeys c)"
  by (simp add: ClientHandshaker_DiscardEarlyKeys_def onward_def)

lemmas onward_calls = onward_ClientHello onward_ServerHello onward_HelloRetry onward_EncryptedExtensions
  onward_Certificate onward_CertificateVerify onward_ServerFinished onward_ClientFinished
  onward_NewSessionTicket onward_DiscardEarlyKeys

text \<open>
  C29. A client handshake only moves forward: over any sequence of calls the phase never
  returns to an earlier one (a failed handshaker stays failed), and from the ServerHello
  on the transcript is append-only.
\<close>

theorem client_moves_forward:
  assumes "client_steps g c c'"
  shows "phase_rank (c_phase c) \<le> phase_rank (c_phase c')
    \<and> (c_phase c = clientFailed \<longrightarrow> c_phase c' = clientFailed)
    \<and> (2 \<le> phase_rank (c_phase c) \<longrightarrow>
         prefix (Transcript_Bytes (c_transcript c)) (Transcript_Bytes (c_transcript c')))"
proof -
  have "onward c c'"
    using assms
  proof (induction rule: rtranclp_induct)
    case (step b c')
    from step.hyps(2) have "onward b c'" by cases (simp_all only: onward_calls)
    then show ?case using step.IH by (auto simp: onward_def intro: prefix_order.trans)
  qed (simp add: onward_def)
  moreover have "c_phase c' = clientFailed" if "7 \<le> phase_rank (c_phase c')"
    using that by (cases "c_phase c'") simp_all
  ultimately show ?thesis by (auto simp: onward_def)
qed

theorem client_moves_forward_witness:
  "\<exists>c c' c2. client_steps toy_x509 c c' \<and> phase_rank (c_phase c') = 6 \<and> client_step toy_x509 c' c2 \<and> c2 \<noteq> c'
     \<and> phase_rank (c_phase c') \<le> phase_rank (c_phase c2)
     \<and> prefix (Transcript_Bytes (c_transcript c')) (Transcript_Bytes (c_transcript c2))"
proof -
  obtain c s c1 s1 where run: "runHandshake toy_x509 c s () (Some (replicate 32 1)) (Some (replicate 32 2)) [] = Inr (c1, s1, ())"
    and ag: "agreed toy_x509 c1 s1"
    by (rule toy_run)
  have ph: "phase_rank (c_phase c1) = 6" "c_phase c1 = clientAfterServerFinished" using ag by (simp_all add: agreed_def)
  obtain cf where cf: "ClientFinished toy_x509 c1
      = (c1\<lparr>c_transcript := AddMessage (c_transcript c1) HandshakeTypeFinished (drop 4 cf), clientFinishedSent := True\<rparr>, Inr cf)"
    "Transcript_Bytes (AddMessage (c_transcript c1) HandshakeTypeFinished (drop 4 cf)) = Transcript_Bytes (c_transcript c1) @ cf"
    "cf \<noteq> []"
    using ClientFinished_total [OF toy_x509_ok(1) ph(2)] .
  have "Transcript_Bytes (c_transcript (fst (ClientFinished toy_x509 c1))) = Transcript_Bytes (c_transcript c1) @ cf"
    using cf(2) by (simp add: cf(1))
  then have ne: "fst (ClientFinished toy_x509 c1) \<noteq> c1" using cf(3) by auto
  have step: "client_step toy_x509 c1 (fst (ClientFinished toy_x509 c1))" by (rule step_ClientFinished)
  from client_moves_forward [OF r_into_rtranclp [of "client_step toy_x509", OF step]]
  show ?thesis
    using run_client_steps [OF run] ph(1) step ne
    by (intro exI [of _ c] exI [of _ c1] exI [of _ "fst (ClientFinished toy_x509 c1)"]) simp
qed

section \<open>Calls the phase does not guard\<close>

text \<open>
  C32. The phase guard does not cover \<open>ClientFinished\<close>: where it can be called once it can
  be called again, and the second call appends a second Finished to the transcript, which
  the server does not have.
\<close>

theorem ClientFinished_repeats:
  assumes "sm3_ok g" and "c_phase c = clientAfterServerFinished"
  shows "\<exists>c1 m1 c2 m2. ClientFinished g c = (c1, Inr m1) \<and> ClientFinished g c1 = (c2, Inr m2)
    \<and> m1 \<noteq> [] \<and> m2 \<noteq> []
    \<and> Transcript_Bytes (c_transcript c2) = Transcript_Bytes (c_transcript c) @ m1 @ m2"
proof -
  obtain m1 where m1: "ClientFinished g c
      = (c\<lparr>c_transcript := AddMessage (c_transcript c) HandshakeTypeFinished (drop 4 m1), clientFinishedSent := True\<rparr>, Inr m1)"
    "Transcript_Bytes (AddMessage (c_transcript c) HandshakeTypeFinished (drop 4 m1)) = Transcript_Bytes (c_transcript c) @ m1"
    "m1 \<noteq> []"
    using ClientFinished_total [OF assms] .
  let ?c1 = "c\<lparr>c_transcript := AddMessage (c_transcript c) HandshakeTypeFinished (drop 4 m1), clientFinishedSent := True\<rparr>"
  have "c_phase ?c1 = clientAfterServerFinished" using assms(2) by simp
  from ClientFinished_total [OF assms(1) this] obtain m2 where m2: "ClientFinished g ?c1
      = (?c1\<lparr>c_transcript := AddMessage (c_transcript ?c1) HandshakeTypeFinished (drop 4 m2), clientFinishedSent := True\<rparr>, Inr m2)"
    "Transcript_Bytes (AddMessage (c_transcript ?c1) HandshakeTypeFinished (drop 4 m2)) = Transcript_Bytes (c_transcript ?c1) @ m2"
    "m2 \<noteq> []" by blast
  show ?thesis using m1 m2 by (simp del: Bytes_AddMessage)
qed

theorem ClientFinished_repeats_witness:
  "\<exists>c c1 m1 c2 m2. c_phase c = clientAfterServerFinished \<and> ClientFinished toy_x509 c = (c1, Inr m1)
     \<and> ClientFinished toy_x509 c1 = (c2, Inr m2) \<and> m2 \<noteq> []
     \<and> Transcript_Bytes (c_transcript c2) = Transcript_Bytes (c_transcript c) @ m1 @ m2"
proof -
  obtain c1 and s1 :: "unit ServerHandshaker" where "agreed toy_x509 c1 s1" by (rule toy_run)
  then have "c_phase c1 = clientAfterServerFinished" by (simp add: agreed_def)
  with ClientFinished_repeats [OF toy_x509_ok(1) this] show ?thesis by blast
qed

text \<open>
  \<open>HandleCertificate\<close> does not look at the type byte of the message it is given: a
  message of any type whose body parses as a Certificate is taken, and recorded, as one.
\<close>

lemma HandleCertificate_ignores_type:
  "HandleCertificate g c (ty # rest) = HandleCertificate g c (HandshakeTypeCertificate # rest)"
  by (simp add: HandleCertificate_def readBody_def ReadHandshakeMessage_def Let_def bindE_def split: sum.splits)

section \<open>HelloRetryRequest\<close>

lemma ClientHello_state:
  assumes "ClientHello g c rnd = (c', Inr full)"
  shows "\<exists>k. c' = helloed_client c full k"
proof -
  have same: "c\<lparr>clientHello1Full := Some full,
      c_transcript := AddMessage (c_transcript c) HandshakeTypeClientHello (drop 4 full),
      c_phase := clientAfterClientHello\<rparr> = helloed_client c full (ClientEarlyKeys (c_secrets c))"
    by (simp add: helloed_client_def)
  show ?thesis
  proof (cases "resumptionPSK c")
    case None
    then have "c' = helloed_client c full (ClientEarlyKeys (c_secrets c))"
      using assms same by (auto simp: ClientHello_def tryS_Inr_iff Let_def split: if_splits)
    then show ?thesis by blast
  next
    case (Some psk)
    show ?thesis
    proof (cases "offerEarlyData c")
      case True
      then obtain k where "c' = helloed_client c full (Some k)"
        using assms Some by (auto simp: ClientHello_def helloed_client_def tryS_Inr_iff Let_def split: if_splits)
      then show ?thesis by blast
    next
      case False
      then have "c' = helloed_client c full (ClientEarlyKeys (c_secrets c))"
        using assms same Some by (auto simp: ClientHello_def tryS_Inr_iff Let_def split: if_splits)
      then show ?thesis by blast
    qed
  qed
qed

lemma ClientHello_Inr:
  assumes "ClientHello g c rnd = (c', Inr full)"
  shows "c_phase c' = clientAfterClientHello" "clientHello1Full c' = Some full" "c_ephemeral c' = c_ephemeral c"
    "c_nextProtos c' = c_nextProtos c" "c_localTransportParams c' = c_localTransportParams c"
    "resumptionPSK c' = resumptionPSK c" "resumptionIdentity c' = resumptionIdentity c"
  using ClientHello_state [OF assms] by (auto simp: helloed_client_def)

lemma buildClientHello_marshals:
  assumes "buildClientHello g c rnd cookie = Inr full"
  shows "\<exists>m. MarshalHandshakeMessage HandshakeTypeClientHello m = Inr full"
  using assms
  by (auto simp: buildClientHello_def appendPreSharedKey_def bindE_Inr_iff Let_def split: option.splits)

text \<open>
  C30. A HelloRetryRequest is answered at most once. When \<open>HandleHelloRetryRequest\<close> succeeds
  the transcript is the message hash of the first ClientHello, the retry request and the
  second ClientHello, as RFC 8446, section 4.4.1 prescribes; early data is withdrawn and its
  keys are gone; and a second retry request is refused and changes nothing.
\<close>

theorem hello_retry_once:
  assumes "HandleHelloRetryRequest g c rnd hrr = (c', Inr ch2)"
  shows "\<exists>ch1. clientHello1Full c = Some ch1
    \<and> Transcript_Bytes (c_transcript c')
        = msg_bytes HandshakeTypeMessageHash (sm3_Sum g ch1) @ msg_bytes HandshakeTypeServerHello (drop 4 hrr) @ ch2
    \<and> \<not> offerEarlyData c' \<and> ClientEarlyKeys (c_secrets c') = None
    \<and> c_phase c' = clientAfterClientHello
    \<and> HandleHelloRetryRequest g c' rnd2 hrr2 = (c', Inl (HsClient SecondHelloRetry))"
proof -
  from assms obtain ch1 ty body m cookie where h: "c_phase c = clientAfterClientHello" "clientHello1Full c = Some ch1"
    "readBody (\<lambda>ty. ty = HandshakeTypeServerHello) ServerHello_unmarshalBody hrr = Inr (ty, body, m)"
    and b: "buildClientHello g (c\<lparr>c_transcript := ResetForHelloRetry g (c_transcript c) ch1 hrr,
       offerEarlyData := False, c_secrets := DiscardEarlyKeys (c_secrets c)\<rparr>) rnd cookie = Inr ch2"
    and c': "c' = c\<lparr>c_transcript := AddMessage (ResetForHelloRetry g (c_transcript c) ch1 hrr)
                      HandshakeTypeClientHello (drop 4 ch2),
                   offerEarlyData := False, c_secrets := DiscardEarlyKeys (c_secrets c),
                   clientHello1Full := None, c_phase := clientAfterClientHello\<rparr>"
    by (auto simp: HandleHelloRetryRequest_def tryS_Inr_iff Let_def split: if_splits option.splits)
  from h(3) have "4 \<le> length hrr"
    by (auto simp: readBody_Inr_iff ReadHandshakeMessage_def Let_def split: if_splits)
  then have "Transcript_Bytes (ResetForHelloRetry g (c_transcript c) ch1 hrr)
      = msg_bytes HandshakeTypeMessageHash (sm3_Sum g ch1) @ msg_bytes HandshakeTypeServerHello (drop 4 hrr)"
    by (simp add: ResetForHelloRetry_def msg_bytes_def Let_def) (simp add: Transcript_Bytes_def)
  moreover obtain m2 where "MarshalHandshakeMessage HandshakeTypeClientHello m2 = Inr ch2"
    using buildClientHello_marshals [OF b] by blast
  ultimately show ?thesis
    using h(2) AddMessage_marshal(1) [of HandshakeTypeClientHello m2 ch2]
    by (simp add: c' DiscardEarlyKeys_def HandleHelloRetryRequest_def del: Bytes_AddMessage)
qed

text \<open>A ServerHello with a given random and no extensions.\<close>

lemma bare_server_hello:
  assumes "length random = 32"
  obtains m where "readBody (\<lambda>ty. ty = HandshakeTypeServerHello) ServerHello_unmarshalBody m
    = Inr (HandshakeTypeServerHello, drop 4 m,
        \<lparr>sh_LegacyVersion = VersionTLS12, sh_Random = random, sh_LegacySessionID = [],
         CipherSuite = TLS_SM4_GCM_SM3, sh_Extensions = []\<rparr>)"
proof -
  let ?sh = "\<lparr>sh_LegacyVersion = VersionTLS12, sh_Random = random, sh_LegacySessionID = [],
    CipherSuite = TLS_SM4_GCM_SM3, sh_Extensions = []\<rparr>"
  obtain m where m: "MarshalHandshakeMessage HandshakeTypeServerHello (ServerHello_marshalBody ?sh) = Inr m"
    using Marshal_ServerHello_total [of ?sh] assms by auto
  have "ServerHello_wf ?sh" using assms by (simp add: ServerHello_wf_def legacy_version_ok_def VersionTLS12_def)
  from serverHello.readBody_marshalled [OF this m, of "\<lambda>ty. ty = HandshakeTypeServerHello"]
  show thesis by (intro that) simp
qed

lemma toy_hello:
  obtains c c1 ch1 where "NewClientHandshakerWithConfig toy_x509 (Some (toy_key 3)) toy_ccfg = Inr c"
    "ClientHello toy_x509 c (Some (replicate 32 1)) = (c1, Inr ch1)"
proof -
  obtain c s c2 s2 where "NewClientHandshakerWithConfig toy_x509 (Some (toy_key 3)) toy_ccfg = Inr c"
    "runHandshake toy_x509 c s () (Some (replicate 32 1)) (Some (replicate 32 2)) [] = Inr (c2, s2, ())"
    by (rule toy_run)
  then show thesis using that by (auto simp: runHandshake_def split: prod.splits sum.splits)
qed

theorem hello_retry_once_witness:
  "\<exists>c1 hrr c2 ch2 ch1. HandleHelloRetryRequest toy_x509 c1 (Some (replicate 32 1)) hrr = (c2, Inr ch2)
     \<and> clientHello1Full c1 = Some ch1
     \<and> Transcript_Bytes (c_transcript c2) = msg_bytes HandshakeTypeMessageHash (sm3_Sum toy_x509 ch1)
         @ msg_bytes HandshakeTypeServerHello (drop 4 hrr) @ ch2
     \<and> HandleHelloRetryRequest toy_x509 c2 None [] = (c2, Inl (HsClient SecondHelloRetry))"
proof -
  obtain c c1 ch1 where c: "NewClientHandshakerWithConfig toy_x509 (Some (toy_key 3)) toy_ccfg = Inr c"
    and ch: "ClientHello toy_x509 c (Some (replicate 32 1)) = (c1, Inr ch1)" by (rule toy_hello)
  obtain hrr where hrr: "readBody (\<lambda>ty. ty = HandshakeTypeServerHello) ServerHello_unmarshalBody hrr
    = Inr (HandshakeTypeServerHello, drop 4 hrr,
        \<lparr>sh_LegacyVersion = VersionTLS12, sh_Random = helloRetryRequestRandom, sh_LegacySessionID = [],
         CipherSuite = TLS_SM4_GCM_SM3, sh_Extensions = []\<rparr>)"
    using bare_server_hello [of helloRetryRequestRandom] by (auto simp: helloRetryRequestRandom_def)
  let ?c = "c1\<lparr>c_transcript := ResetForHelloRetry toy_x509 (c_transcript c1) ch1 hrr,
       offerEarlyData := False, c_secrets := DiscardEarlyKeys (c_secrets c1)\<rparr>"
  note f = ClientHello_Inr [OF ch] NewClient_fields [OF c]
  have "sm2_KeyPair toy_x509 (c_ephemeral ?c)" using f toy_key_pair [of 3] by auto
  moreover have "client_sizes_ok ?c" "resumptionPSK ?c = None"
    using f by (auto simp: client_sizes_ok_def toy_ccfg_def alpn_ok_def alpn_size_def params_size_def)
  ultimately obtain ch2 where "buildClientHello toy_x509 ?c (Some (replicate 32 1)) None = Inr ch2"
    using Marshal_helloMsg [OF toy_x509_ok(3), of ?c "replicate 32 1" None] build_no_psk [of ?c toy_x509 "replicate 32 1"]
    by (auto simp: client_sizes_ok_def)
  then obtain c2 where r: "HandleHelloRetryRequest toy_x509 c1 (Some (replicate 32 1)) hrr = (c2, Inr ch2)"
    using f hrr by (auto simp: HandleHelloRetryRequest_def Let_def)
  from hello_retry_once [OF r, of None "[]"] r show ?thesis by blast
qed

text \<open>The random value of a HelloRetryRequest in RFC 8446, section 4.1.3.\<close>

definition rfc8446_hello_retry :: bytes where
  "rfc8446_hello_retry =
    [0xCF, 0x21, 0xAD, 0x74, 0xE5, 0x9A, 0x61, 0x11,
     0xBE, 0x1D, 0x8C, 0x02, 0x1E, 0x65, 0xB8, 0x91,
     0xC2, 0xA2, 0x11, 0x16, 0x7A, 0xBB, 0x8C, 0x5E,
     0x07, 0x9E, 0x09, 0xE2, 0xC8, 0xA8, 0x33, 0x9C]"

lemma snd_tryS_Inl: "snd (tryS s r k) = Inl x \<longleftrightarrow> r = Inl x \<or> (\<exists>a. r = Inr a \<and> snd (k a) = Inl x)"
  by (cases r) simp_all

lemma mapE_Inl_iff: "mapE f r = Inl x \<longleftrightarrow> (\<exists>e. r = Inl e \<and> f e = x)"
  by (cases r) auto

lemma hello_retry_differs: "rfc8446_hello_retry \<noteq> helloRetryRequestRandom"
proof
  assume "rfc8446_hello_retry = helloRetryRequestRandom"
  then have "rfc8446_hello_retry ! 15 = helloRetryRequestRandom ! 15" by simp
  then show False by (simp add: rfc8446_hello_retry_def helloRetryRequestRandom_def)
qed

text \<open>
  C31. The client does not recognise the HelloRetryRequest of RFC 8446: a ServerHello with
  the random value the RFC assigns to it is refused by \<open>HandleHelloRetryRequest\<close> as not
  being one, and \<open>HandleServerHello\<close> never asks the caller to retry.
\<close>

theorem rfc_hello_retry_unrecognised:
  assumes "readBody (\<lambda>ty. ty = HandshakeTypeServerHello) ServerHello_unmarshalBody m = Inr (ty, body, sh)"
    and "sh_Random sh = rfc8446_hello_retry"
    and "c_phase c = clientAfterClientHello" and "clientHello1Full c = Some ch1"
  shows "HandleHelloRetryRequest g c rnd m = (c, Inl (HsClient NotHelloRetry))
    \<and> snd (HandleServerHello g c m) \<noteq> Inl (HsClient ErrHelloRetryRequest)"
proof -
  have "HandleHelloRetryRequest g c rnd m = (c, Inl (HsClient NotHelloRetry))"
    using assms hello_retry_differs by (simp add: HandleHelloRetryRequest_def)
  moreover have "snd (HandleServerHello g c m) \<noteq> Inl (HsClient ErrHelloRetryRequest)"
    using assms hello_retry_differs unfolding HandleServerHello_def deriveClientHandshakeKeys_def Let_def
    by (auto simp: snd_tryS_Inl mapE_Inl_iff split: if_splits)
  ultimately show ?thesis by simp
qed

theorem rfc_hello_retry_unrecognised_witness:
  "\<exists>c1 m ty body sh. c_phase c1 = clientAfterClientHello \<and> sh_Random sh = rfc8446_hello_retry
     \<and> readBody (\<lambda>ty. ty = HandshakeTypeServerHello) ServerHello_unmarshalBody m = Inr (ty, body, sh)
     \<and> HandleHelloRetryRequest toy_x509 c1 None m = (c1, Inl (HsClient NotHelloRetry))"
proof -
  obtain c c1 ch1 where ch: "ClientHello toy_x509 c (Some (replicate 32 1)) = (c1, Inr ch1)" by (rule toy_hello)
  obtain m where m: "readBody (\<lambda>ty. ty = HandshakeTypeServerHello) ServerHello_unmarshalBody m
    = Inr (HandshakeTypeServerHello, drop 4 m,
        \<lparr>sh_LegacyVersion = VersionTLS12, sh_Random = rfc8446_hello_retry, sh_LegacySessionID = [],
         CipherSuite = TLS_SM4_GCM_SM3, sh_Extensions = []\<rparr>)"
    using bare_server_hello [of rfc8446_hello_retry] by (auto simp: rfc8446_hello_retry_def)
  have "HandleHelloRetryRequest toy_x509 c1 None m = (c1, Inl (HsClient NotHelloRetry))"
    using rfc_hello_retry_unrecognised [OF m _ ClientHello_Inr(1,2) [OF ch], of toy_x509 None] by simp
  then show ?thesis
    using m ClientHello_Inr(1) [OF ch]
    by (intro exI [of _ c1] exI [of _ m] exI [of _ HandshakeTypeServerHello] exI [of _ "drop 4 m"] exI conjI) simp_all
qed

end
