(* ===== verification/ServerSafety.thy ===== *)
theory ServerSafety
  imports HandshakeRun ClientSafety
begin

text \<open>
  What a server knows when it has selected a pre-shared key, holds early-data keys or has
  finished the handshake, over every sequence of calls. Other connections may change the
  shared environment (the ticket keys and the anti-replay cache) between two calls.
\<close>

section \<open>Calls\<close>

inductive server_step :: "'x x509_scheme \<Rightarrow> 'e server_env \<Rightarrow> 'e server_env \<Rightarrow> bool" for g where
  step_HandleClientHello: "server_step g (s, env) (fst (HandleClientHello g s env m))"
| step_ServerFlight: "server_step g (s, env) (fst (ServerFlight g s rnd sigRnd), env)"
| step_HandleClientFinished: "server_step g (s, env) (fst (HandleClientFinished g s m), env)"
| step_IssueTicket: "server_step g (s, env)
    (s, fst (NewSessionTicketWithData g s env lifetime appData nonceRnd ageRnd sealRnd))"
| step_ServerDiscard: "server_step g (s, env) (ServerHandshaker_DiscardEarlyKeys s, env)"
| step_Others: "server_step g (s, env) (s, env')"

abbreviation server_steps :: "'x x509_scheme \<Rightarrow> 'e server_env \<Rightarrow> 'e server_env \<Rightarrow> bool" where
  "server_steps g \<equiv> (server_step g)\<^sup>*\<^sup>*"

section \<open>Evidence\<close>

text \<open>
  The selected key was sealed in the one ticket the client presented, under a key of the
  server's list, and the client proved possession of it over its ClientHello.
\<close>

definition psk_proved :: "'x x509_scheme \<Rightarrow> 'e ServerHandshaker \<Rightarrow> bytes \<Rightarrow> bool" where
  "psk_proved g s psk \<longleftrightarrow>
    (\<exists>getKeys env ext i b age chMsg trunc.
       ticketKeys s = Some getKeys
       \<and> findExtension (ch_Extensions chMsg) ExtensionTypePreSharedKey = ext
       \<and> parsePreSharedKeyExtension ext = Inr ([i], [b])
       \<and> DecryptSessionTicketWithData g (fst (getKeys env)) (Identity i) = Inr (psk, age, resumptionAppData s)
       \<and> resumptionRealAge s = int (unat (ObfuscatedTicketAge i - age)) * 1000000
       \<and> pskBinderTranscript chMsg [i] = Inr trunc \<and> computeResumptionBinder g psk trunc = Inr b)"

definition early_admitted :: "'e ServerHandshaker \<Rightarrow> bool" where
  "early_admitted s \<longleftrightarrow>
    (\<exists>psk accept env env'. resumptionSelectedPSK s = Some psk \<and> allowEarlyData s
       \<and> earlyDataAcceptor s = Some accept \<and> accept env psk (resumptionRealAge s) = (True, env'))"

definition client_finished_auth :: "'x x509_scheme \<Rightarrow> 'e ServerHandshaker \<Rightarrow> bool" where
  "client_finished_auth g s \<longleftrightarrow>
    (\<exists>t fk vd. Transcript_Bytes (s_transcript s) = t @ msg_bytes HandshakeTypeFinished vd
       \<and> DeriveFinishedKey g (s_clientHSTraffic s) = Inr fk
       \<and> ComputeFinishedVerifyData g fk (sm3_Sum g t) = Inr vd)"

definition server_inv :: "'x x509_scheme \<Rightarrow> 'e ServerHandshaker \<Rightarrow> bool" where
  "server_inv g s \<longleftrightarrow>
     transcript_ok (s_transcript s)
     \<and> (s_phase s = serverPhaseNone \<longrightarrow> resumptionSelectedPSK s = None \<and> ClientEarlyKeys (s_secrets s) = None)
     \<and> (\<forall>psk. resumptionSelectedPSK s = Some psk \<longrightarrow> psk_proved g s psk)
     \<and> (ClientEarlyKeys (s_secrets s) \<noteq> None \<longrightarrow> early_admitted s)
     \<and> (s_phase s = serverAfterClientFinished \<longrightarrow> client_finished_auth g s)"

text \<open>What the evidence for the key and the early data depends on.\<close>

definition same_psk :: "'e ServerHandshaker \<Rightarrow> 'e ServerHandshaker \<Rightarrow> bool" where
  "same_psk s s' \<longleftrightarrow> ticketKeys s' = ticketKeys s \<and> resumptionSelectedPSK s' = resumptionSelectedPSK s
     \<and> resumptionAppData s' = resumptionAppData s \<and> resumptionRealAge s' = resumptionRealAge s
     \<and> allowEarlyData s' = allowEarlyData s \<and> earlyDataAcceptor s' = earlyDataAcceptor s"

lemma same_psk_evidence:
  "same_psk s s' \<Longrightarrow> psk_proved g s' psk = psk_proved g s psk"
  "same_psk s s' \<Longrightarrow> early_admitted s' = early_admitted s"
  by (simp_all add: same_psk_def psk_proved_def early_admitted_def)

lemma inv_same_psk:
  assumes "server_inv g s" and "same_psk s s'" and "s_phase s' \<noteq> serverPhaseNone"
    and "ClientEarlyKeys (s_secrets s') \<noteq> None \<Longrightarrow> ClientEarlyKeys (s_secrets s) \<noteq> None"
    and "transcript_ok (s_transcript s')"
    and "s_phase s' = serverAfterClientFinished \<Longrightarrow> client_finished_auth g s'"
  shows "server_inv g s'"
  using assms same_psk_evidence [OF assms(2)] by (auto simp: server_inv_def same_psk_def)

section \<open>ClientHello\<close>

lemma verifyPSKBinder_state:
  assumes "verifyPSKBinder g s env chMsg (findExtension (ch_Extensions chMsg) ExtensionTypePreSharedKey) = ((s', env'), r)"
  shows "s' = s \<or> (\<exists>a d. s' = s\<lparr>resumptionAppData := a, resumptionRealAge := d\<rparr>)
    \<or> (\<exists>psk a d. s' = s\<lparr>resumptionAppData := a, resumptionRealAge := d, resumptionSelectedPSK := Some psk\<rparr> \<and> psk_proved g s' psk)"
proof (cases "ticketKeys s")
  case None
  then show ?thesis using assms by (simp add: verifyPSKBinder_def)
next
  case (Some getKeys)
  let ?ext = "findExtension (ch_Extensions chMsg) ExtensionTypePreSharedKey"
  show ?thesis
  proof (cases "\<exists>i b. parsePreSharedKeyExtension ?ext = Inr ([i], [b])")
    case False
    then have "s' = s"
      using assms Some
      by (cases "parsePreSharedKeyExtension ?ext") (auto simp: verifyPSKBinder_def length_Suc_conv split: if_splits)
    then show ?thesis by simp
  next
    case True
    then obtain i b where p: "parsePreSharedKeyExtension ?ext = Inr ([i], [b])" by blast
    obtain keys env1 where k: "getKeys env = (keys, env1)" by fastforce
    show ?thesis
    proof (cases "DecryptSessionTicketWithData g keys (Identity i)")
      case (Inl e)
      then show ?thesis using assms Some p k by (simp add: verifyPSKBinder_def)
    next
      case (Inr t)
      obtain psk age app where t: "t = (psk, age, app)" by (cases t)
      let ?s = "s\<lparr>resumptionAppData := app, resumptionRealAge := int (unat (ObfuscatedTicketAge i - age)) * 1000000\<rparr>"
      have v: "tryS (?s, env1) (mapE HsBody (pskBinderTranscript chMsg [i])) (\<lambda>transcript.
          tryS (?s, env1) (mapE HsKdf (computeResumptionBinder g psk transcript)) (\<lambda>expected.
          if \<not> equalConstantTime expected b then ((?s, env1), Inl (HsServer BinderMismatch))
          else ((?s\<lparr>resumptionSelectedPSK := Some psk\<rparr>, env1), Inr ()))) = ((s', env'), r)"
        using assms Some p k Inr t by (simp add: verifyPSKBinder_def Let_def cong: if_cong)
      show ?thesis
      proof (cases "\<exists>trunc. pskBinderTranscript chMsg [i] = Inr trunc \<and> computeResumptionBinder g psk trunc = Inr b")
        case True
        then obtain trunc where tr: "pskBinderTranscript chMsg [i] = Inr trunc" "computeResumptionBinder g psk trunc = Inr b"
          by blast
        then have s': "s' = ?s\<lparr>resumptionSelectedPSK := Some psk\<rparr>" using v by (simp add: equalConstantTime_def)
        moreover have "psk_proved g s' psk"
          unfolding psk_proved_def
          by (intro exI [of _ getKeys] exI [of _ env] exI [of _ ?ext] exI [of _ i] exI [of _ b] exI [of _ age]
              exI [of _ chMsg] exI [of _ trunc]) (use Some p k Inr t tr in \<open>simp add: s'\<close>)
        ultimately show ?thesis by blast
      next
        case False
        then have "s' = ?s" using v by (auto simp: tryS_cases equalConstantTime_def split: if_splits)
        then show ?thesis by blast
      qed
    qed
  qed
qed

text \<open>The start of a handshake: the state in which the offered key is examined.\<close>

definition hello_start :: "'x x509_scheme \<Rightarrow> 'e ServerHandshaker \<Rightarrow> bool" where
  "hello_start g s \<longleftrightarrow> s_phase s = serverAfterClientHello \<and> transcript_ok (s_transcript s)
     \<and> resumptionSelectedPSK s = None \<and> ClientEarlyKeys (s_secrets s) = None"

lemma admitEarlyData_inv:
  assumes "server_inv g s" and "s_phase s = serverAfterClientHello" and "ClientEarlyKeys (s_secrets s) = None"
  shows "server_inv g (fst (fst (admitEarlyData g s env)))"
proof -
  let ?s = "s\<lparr>clientOfferedEarlyData := True\<rparr>"
  have inv: "server_inv g ?s"
    by (rule inv_same_psk [OF assms(1)]) (use assms in \<open>auto simp: same_psk_def server_inv_def\<close>)
  have none: "server_inv g (?s\<lparr>s_secrets := (s_secrets ?s)\<lparr>ClientEarlyKeys := None\<rparr>\<rparr>)"
    using inv assms(2) by (auto simp: server_inv_def psk_proved_def)
  have some: "server_inv g (?s\<lparr>s_secrets := (s_secrets ?s)\<lparr>ClientEarlyKeys := Some k\<rparr>\<rparr>)"
    if "resumptionSelectedPSK s = Some psk" "allowEarlyData s" "earlyDataAcceptor s = Some accept"
      "accept env psk (resumptionRealAge s) = (True, env')" for k psk accept env'
    using inv that assms(2) by (auto simp: server_inv_def psk_proved_def early_admitted_def)
  show ?thesis
    using inv none some
    by (auto simp: admitEarlyData_def Let_def tryS_def split: option.splits prod.splits sum.splits)
qed

lemma handleOfferedPSK_inv:
  assumes "hello_start g s"
  shows "server_inv g (fst (fst (handleOfferedPSK g s env chMsg)))"
proof -
  have inv: "server_inv g s" using assms by (simp add: hello_start_def server_inv_def)
  let ?ext = "findExtension (ch_Extensions chMsg) ExtensionTypePreSharedKey"
  obtain s' env' r where v: "verifyPSKBinder g s env chMsg ?ext = ((s', env'), r)" by (metis prod.exhaust)
  have s': "server_inv g s'" "s_phase s' = serverAfterClientHello" "ClientEarlyKeys (s_secrets s') = None"
    using verifyPSKBinder_state [OF v] assms by (auto simp: hello_start_def server_inv_def)
  show ?thesis
    using inv s'(1) admitEarlyData_inv [OF s', of env'] by (simp add: handleOfferedPSK_def Let_def v split: sum.split)
qed

lemma inv_HandleClientHello:
  assumes "server_inv g s"
  shows "server_inv g (fst (fst (HandleClientHello g s env m)))"
proof (cases "s_phase s = serverPhaseNone")
  case False
  then show ?thesis using assms by (simp add: HandleClientHello_def)
next
  case True
  have proto: "server_inv g (s\<lparr>s_negotiatedProto := p\<rparr>)" for p
    using assms by (auto simp: server_inv_def psk_proved_def early_admitted_def client_finished_auth_def)
  have start: "hello_start g (s\<lparr>s_negotiatedProto := p, s_transcript := AddMessage (s_transcript s) ty b,
      clientPub := k, s_peerTransportParams := tp, s_phase := serverAfterClientHello\<rparr>)"
    "hello_start g (s\<lparr>s_negotiatedProto := p, s_transcript := AddMessage (s_transcript s) ty b,
      clientPub := k, s_phase := serverAfterClientHello\<rparr>)" for p ty b k tp
    using assms True by (auto simp: hello_start_def server_inv_def)
  note offered = handleOfferedPSK_inv [OF start(1)] handleOfferedPSK_inv [OF start(2)]
  show ?thesis
    using assms unfolding HandleClientHello_def Let_def tryS_def
    by (auto split: sum.split intro!: proto offered)
qed

section \<open>The other calls\<close>

text \<open>A call that goes on with the flight: key, early data and transcript shape are kept.\<close>

definition flight_keeps :: "'e ServerHandshaker \<Rightarrow> 'e ServerHandshaker \<Rightarrow> bool" where
  "flight_keeps s s' \<longleftrightarrow> same_psk s s' \<and> ClientEarlyKeys (s_secrets s') = ClientEarlyKeys (s_secrets s)
     \<and> transcript_ok (s_transcript s') = transcript_ok (s_transcript s)
     \<and> s_phase s' \<in> {s_phase s, serverFailed, serverAfterFlight}"

lemma flight_keeps_refl [simp]: "flight_keeps s s"
  by (simp add: flight_keeps_def same_psk_def)

lemma flight_keeps_update [simp]:
  "flight_keeps s t \<Longrightarrow> flight_keeps s (ServerHandshaker_fail t)"
  "flight_keeps s t \<Longrightarrow> flight_keeps s (t\<lparr>s_phase := serverAfterFlight\<rparr>)"
  "flight_keeps s (t\<lparr>s_transcript := AddMessage u ty b\<rparr>) = flight_keeps s (t\<lparr>s_transcript := u\<rparr>)"
  "flight_keeps s (t\<lparr>s_transcript := s_transcript t\<rparr>) = flight_keeps s t"
  "flight_keeps s (t\<lparr>s_handshakeSecret := b\<rparr>) = flight_keeps s t"
  "flight_keeps s (t\<lparr>s_masterSecret := b\<rparr>) = flight_keeps s t"
  "flight_keeps s (t\<lparr>s_clientHSTraffic := b\<rparr>) = flight_keeps s t"
  "flight_keeps s (t\<lparr>s_serverHSTraffic := b\<rparr>) = flight_keeps s t"
  "flight_keeps s (t\<lparr>acceptedEarlyData := x\<rparr>) = flight_keeps s t"
  by (auto simp: flight_keeps_def same_psk_def ServerHandshaker_fail_def)

lemma flight_keeps_secrets [simp]:
  "ClientEarlyKeys h = ClientEarlyKeys (s_secrets t) \<Longrightarrow> flight_keeps s (t\<lparr>s_secrets := h\<rparr>) = flight_keeps s t"
  by (simp add: flight_keeps_def same_psk_def)

lemma flight_keeps_tryS:
  "flight_keeps s t \<Longrightarrow> (\<And>a. flight_keeps s (fst (k a))) \<Longrightarrow> flight_keeps s (fst (tryS t r k))"
  by (cases r) simp_all

lemma flight_keeps_trans: "flight_keeps a b \<Longrightarrow> flight_keeps b c \<Longrightarrow> flight_keeps a c"
  by (auto simp: flight_keeps_def same_psk_def)

lemma keeps_sends:
  "flight_keeps s (fst (sendServerHello g s rnd))"
  "flight_keeps s (fst (sendEncryptedExtensions s))"
  "flight_keeps s (fst (sendCertificate g s sigRnd))"
  "flight_keeps s (fst (sendFinished g s))"
  subgoal unfolding sendServerHello_def Let_def by (auto intro!: flight_keeps_tryS)
  subgoal unfolding sendEncryptedExtensions_def Let_def by (auto intro!: flight_keeps_tryS)
  subgoal unfolding sendCertificate_def Let_def by (auto intro!: flight_keeps_tryS)
  subgoal unfolding sendFinished_def Let_def by (auto intro!: flight_keeps_tryS)
  done

lemma keeps_ServerFlight: "flight_keeps s (fst (ServerFlight g s rnd sigRnd))"
proof (cases "s_phase s = serverAfterClientHello")
  case True
  obtain s1 r1 where 1: "sendServerHello g s rnd = (s1, r1)" by fastforce
  obtain s2 r2 where 2: "sendEncryptedExtensions s1 = (s2, r2)" by fastforce
  obtain s3 r3 where 3: "sendCertificate g s2 sigRnd = (s3, r3)" by fastforce
  obtain s4 r4 where 4: "sendFinished g s3 = (s4, r4)" by fastforce
  have "flight_keeps s s1" "flight_keeps s1 s2" "flight_keeps s2 s3" "flight_keeps s3 s4"
    using keeps_sends(1) [of s g rnd] keeps_sends(2) [of s1] keeps_sends(3) [of s2 g sigRnd] keeps_sends(4) [of s3 g] 1 2 3 4
    by simp_all
  then have "flight_keeps s s1" "flight_keeps s s2" "flight_keeps s s3" "flight_keeps s s4"
    using flight_keeps_trans by blast+
  then show ?thesis using True by (simp add: ServerFlight_def 1 2 3 4 split: sum.split prod.split)
qed (simp add: ServerFlight_def)

lemma inv_ServerFlight:
  assumes "server_inv g s"
  shows "server_inv g (fst (ServerFlight g s rnd sigRnd))"
proof (cases "s_phase s = serverAfterClientHello")
  case True
  have k: "flight_keeps s (fst (ServerFlight g s rnd sigRnd))" by (rule keeps_ServerFlight)
  show ?thesis
    by (rule inv_same_psk [OF assms]) (use k True assms in \<open>auto simp: flight_keeps_def server_inv_def\<close>)
qed (use assms in \<open>simp add: ServerFlight_def\<close>)

lemma inv_HandleClientFinished:
  assumes "server_inv g s"
  shows "server_inv g (fst (HandleClientFinished g s m))"
proof (cases "HandleClientFinished g s m")
  case (Pair s' r)
  show ?thesis
  proof (cases "s' = s")
    case True
    then show ?thesis using Pair assms by simp
  next
    case False
    with Pair obtain ty body fin fk where ph: "s_phase s = serverAfterFlight"
      and rd: "readBody (\<lambda>ty. ty = HandshakeTypeFinished) Finished_unmarshalBody m = Inr (ty, body, fin)"
      and fk: "DeriveFinishedKey g (s_clientHSTraffic s) = Inr fk"
        "ComputeFinishedVerifyData g fk (Transcript_Sum g (s_transcript s)) = Inr (VerifyData fin)"
      and s': "(\<exists>e. s' = ServerHandshaker_fail (s\<lparr>s_transcript := AddMessage (s_transcript s) ty body, s_resumptionMasterSecret := []\<rparr>))
        \<or> (\<exists>rms. s' = s\<lparr>s_transcript := AddMessage (s_transcript s) ty body, s_resumptionMasterSecret := rms,
              s_phase := serverAfterClientFinished\<rparr>)"
      by (auto simp: HandleClientFinished_def equalConstantTime_def tryS_cases Let_def split: if_splits)
    have tb: "ty = HandshakeTypeFinished" "body = VerifyData fin"
      using rd by (auto simp: readBody_Inr_iff Finished_unmarshalBody_def split: if_splits)
    have ok: "transcript_ok (s_transcript s)" using assms by (simp add: server_inv_def)
    have "client_finished_auth g s'" if "s_phase s' = serverAfterClientFinished"
      unfolding client_finished_auth_def
      using s' that fk tb Sum_of_Bytes [OF ok, of g]
      by (intro exI [of _ "Transcript_Bytes (s_transcript s)"] exI [of _ fk] exI [of _ body])
        (auto simp: Bytes_AddMessage_msg ServerHandshaker_fail_def simp del: Bytes_AddMessage)
    then have "server_inv g s'"
      by (intro inv_same_psk [OF assms]) (use s' ok ph in \<open>auto simp: same_psk_def ServerHandshaker_fail_def\<close>)
    then show ?thesis using Pair by simp
  qed
qed

lemma inv_ServerDiscard:
  "server_inv g s \<Longrightarrow> server_inv g (ServerHandshaker_DiscardEarlyKeys s)"
  by (auto simp: server_inv_def ServerHandshaker_DiscardEarlyKeys_def DiscardEarlyKeys_def psk_proved_def
      client_finished_auth_def)

lemma server_steps_inv:
  assumes "server_steps g x y" and "server_inv g (fst x)"
  shows "server_inv g (fst y)"
  using assms
proof (induction rule: rtranclp_induct)
  case (step y z)
  from step.hyps(2) step.IH [OF step.prems] show ?case
    by cases (simp_all add: inv_HandleClientHello inv_ServerFlight inv_HandleClientFinished inv_ServerDiscard)
qed

lemma NewServer_inv:
  assumes "NewServerHandshakerWithConfig g k cfg = Inr s"
  shows "server_inv g s"
  using assms
  by (auto simp: NewServerHandshakerWithConfig_def server_inv_def deriveInitial_def initialSecrets_def bindE_Inr_iff
      split: if_splits option.splits)

section \<open>The configuration is fixed\<close>

definition same_policy :: "'e ServerHandshaker \<Rightarrow> 'e ServerHandshaker \<Rightarrow> bool" where
  "same_policy s s' \<longleftrightarrow> ticketKeys s' = ticketKeys s \<and> allowEarlyData s' = allowEarlyData s
     \<and> earlyDataAcceptor s' = earlyDataAcceptor s"

lemma policy_handleOfferedPSK: "same_policy s (fst (fst (handleOfferedPSK g s env chMsg)))"
proof -
  let ?ext = "findExtension (ch_Extensions chMsg) ExtensionTypePreSharedKey"
  obtain s' env' r where v: "verifyPSKBinder g s env chMsg ?ext = ((s', env'), r)" by (metis prod.exhaust)
  have "same_policy s s'" using verifyPSKBinder_state [OF v] by (auto simp: same_policy_def)
  moreover have "same_policy s' (fst (fst (admitEarlyData g s' env')))"
    by (auto simp: admitEarlyData_def Let_def tryS_def same_policy_def split: option.split prod.split sum.split)
  ultimately show ?thesis
    by (simp add: handleOfferedPSK_def Let_def v split: sum.split) (auto simp: same_policy_def)
qed

lemma policy_HandleClientHello: "same_policy s (fst (fst (HandleClientHello g s env m)))"
proof -
  have "same_policy s (fst (fst (handleOfferedPSK g s' env chMsg)))" if "same_policy s s'" for s' chMsg
    using that policy_handleOfferedPSK [of s' g env chMsg] by (simp add: same_policy_def)
  note offered = this
  have proto: "same_policy s s" "same_policy s (s\<lparr>s_negotiatedProto := p\<rparr>)" for p by (simp_all add: same_policy_def)
  have start: "same_policy s (s\<lparr>s_negotiatedProto := p, s_transcript := t, clientPub := k,
      s_peerTransportParams := tp, s_phase := ph\<rparr>)"
    "same_policy s (s\<lparr>s_negotiatedProto := p, s_transcript := t, clientPub := k, s_phase := ph\<rparr>)" for p t k tp ph
    by (simp_all add: same_policy_def)
  show ?thesis
    unfolding HandleClientHello_def Let_def tryS_def
    by (auto split: sum.split intro!: proto offered start)
qed

lemma policy_rest:
  "same_policy s (fst (ServerFlight g s rnd sigRnd))"
  "same_policy s (fst (HandleClientFinished g s m))"
  "same_policy s (ServerHandshaker_DiscardEarlyKeys s)"
  subgoal using keeps_ServerFlight [of s g rnd sigRnd] by (simp add: flight_keeps_def same_psk_def same_policy_def)
  subgoal
    by (auto simp: HandleClientFinished_def Let_def tryS_def same_policy_def ServerHandshaker_fail_def split: sum.split prod.split)
  subgoal by (simp add: same_policy_def ServerHandshaker_DiscardEarlyKeys_def)
  done

lemma server_steps_policy: "server_steps g x y \<Longrightarrow> same_policy (fst x) (fst y)"
proof (induction rule: rtranclp_induct)
  case (step y z)
  from step.hyps(2) have "same_policy (fst y) (fst z)"
    by cases (simp_all add: policy_HandleClientHello policy_rest, simp_all add: same_policy_def)
  then show ?case using step.IH by (simp add: same_policy_def)
qed (simp add: same_policy_def)

section \<open>Properties\<close>


text \<open>
  C5. A server finishes only with a client that knows the handshake keys: if the
  handshake is complete, the last message of the transcript is a Finished, and it is the
  MAC of the transcript before it under the client's handshake traffic secret.
\<close>

theorem server_confirms_client:
  assumes "NewServerHandshakerWithConfig g k cfg = Inr s" and "server_steps g (s, env) (s', env')"
    and "s_phase s' = serverAfterClientFinished"
  shows "\<exists>t fk vd. Transcript_Bytes (s_transcript s') = t @ msg_bytes HandshakeTypeFinished vd
     \<and> DeriveFinishedKey g (s_clientHSTraffic s') = Inr fk
     \<and> ComputeFinishedVerifyData g fk (sm3_Sum g t) = Inr vd"
  using server_steps_inv [OF assms(2)] NewServer_inv [OF assms(1)] assms(3)
  by (simp add: server_inv_def client_finished_auth_def)

lemma run_server_steps:
  assumes "runHandshake g c s env cr sr sigRnd = Inr (c', s', env')"
  shows "server_steps g (s, env) (s', env')"
proof -
  obtain ch s1 e1 s2 msgs cf where h: "HandleClientHello g s env ch = ((s1, e1), Inr ())"
    and f: "ServerFlight g s1 sr sigRnd = (s2, Inr msgs)" and cf: "HandleClientFinished g s2 cf = (s', Inr ())"
    and e: "env' = e1"
    using assms by (auto simp: runHandshake_def split: prod.splits sum.splits)
  have "server_step g (s, env) (s1, e1)" using step_HandleClientHello [of g s env ch] h by simp
  moreover have "server_step g (s1, e1) (s2, e1)" using step_ServerFlight [of g s1 e1 sr sigRnd] f by simp
  moreover have "server_step g (s2, e1) (s', e1)" using step_HandleClientFinished [of g s2 e1 cf] cf by simp
  ultimately show ?thesis unfolding e by (meson r_into_rtranclp rtranclp_trans)
qed

theorem server_confirms_client_witness:
  "\<exists>s s' t vd. NewServerHandshakerWithConfig toy_x509 (Some (toy_key 4)) toy_scfg = Inr s
     \<and> server_steps toy_x509 (s, ()) (s', ()) \<and> s_phase s' = serverAfterClientFinished
     \<and> Transcript_Bytes (s_transcript s') = t @ msg_bytes HandshakeTypeFinished vd"
proof -
  obtain c s c1 s1 where s: "NewServerHandshakerWithConfig toy_x509 (Some (toy_key 4)) toy_scfg = Inr s"
    and run: "runHandshake toy_x509 c s () (Some (replicate 32 1)) (Some (replicate 32 2)) [] = Inr (c1, s1, ())"
    and ag: "agreed toy_x509 c1 s1"
    by (rule toy_run)
  have "s_phase s1 = serverAfterClientFinished" using ag by (simp add: agreed_def)
  from server_confirms_client [OF s run_server_steps [OF run] this] this s run_server_steps [OF run]
  show ?thesis by blast
qed

text \<open>A connection with early data: a ticket under the server's key and an acceptor that agrees.\<close>

definition toy_early_scfg :: "unit ServerConfig" where
  "toy_early_scfg = toy_scfg\<lparr>sc_AllowEarlyData := True, sc_EarlyDataAcceptor := Some (\<lambda>e psk age. (True, e))\<rparr>"

lemma NewClient_early:
  assumes "NewClientHandshakerWithConfig g k cfg = Inr c"
  shows "NewClientHandshakerWithConfig g k (cfg\<lparr>cc_EarlyData := True\<rparr>) = Inr (c\<lparr>offerEarlyData := True\<rparr>)"
  using assms by (auto simp: NewClientHandshakerWithConfig_def bindE_Inr_iff split: if_splits option.splits)

lemma NewServer_early:
  assumes "NewServerHandshakerWithConfig g k cfg = Inr s"
  shows "NewServerHandshakerWithConfig g k (cfg\<lparr>sc_AllowEarlyData := True, sc_EarlyDataAcceptor := f\<rparr>)
    = Inr (s\<lparr>allowEarlyData := True, earlyDataAcceptor := f\<rparr>)"
  using assms by (auto simp: NewServerHandshakerWithConfig_def bindE_Inr_iff split: if_splits option.splits)

lemma toy_early_run:
  obtains c s c1 s1 ticket where "NewServerHandshakerWithConfig toy_x509 (Some (toy_key 4)) toy_early_scfg = Inr s"
    "runHandshake toy_x509 c s () (Some (replicate 32 1)) (Some (replicate 32 2)) [] = Inr (c1, s1, ())"
    "agreed toy_x509 c1 s1" "earlyDataAccepted c1" "resumptionSelectedPSK s1 = Some (replicate 32 6)"
proof -
  let ?psk = "replicate 32 (6 :: byte)"
  obtain ticket where t: "EncryptSessionTicketWithData toy_x509 (Some (replicate 12 4)) (replicate 16 5) ?psk 70 [1] = Inr ticket"
    by (rule Encrypt_total [OF toy_x509_ok(2), of "replicate 16 5" "replicate 12 4" "[1]" ?psk 70]) simp_all
  have dec: "DecryptSessionTicketWithData toy_x509 [replicate 16 5] ticket = Inr (?psk, 70, [1])"
    by (rule ticket_roundtrip_aux [OF toy_x509_ok(2) t]) simp_all
  obtain c0 where c0: "NewClientHandshakerWithConfig toy_x509 (Some (toy_key 3)) toy_ccfg = Inr c0"
    using toy_client_new by blast
  obtain s0 where s0: "NewServerHandshakerWithConfig toy_x509 (Some (toy_key 4)) toy_scfg = Inr s0"
    using toy_server_new by blast
  define c where "c = c0\<lparr>resumptionPSK := Some ?psk, resumptionIdentity := ticket, resumptionObfAge := 77, offerEarlyData := True\<rparr>"
  define s where "s = s0\<lparr>allowEarlyData := True, earlyDataAcceptor := Some (\<lambda>e psk age. (True, e))\<rparr>"
  have c: "NewClientHandshakerWithConfig toy_x509 (Some (toy_key 3))
      ((resuming toy_ccfg ticket ?psk 77)\<lparr>cc_EarlyData := True\<rparr>) = Inr c" "offerEarlyData c"
    using NewClient_early [OF NewClient_resuming [OF c0, of ticket ?psk 77]] by (simp_all add: c_def)
  have s: "NewServerHandshakerWithConfig toy_x509 (Some (toy_key 4)) toy_early_scfg = Inr s"
    "allowEarlyData s" "earlyDataAcceptor s = Some (\<lambda>e psk age. (True, e))"
    using NewServer_early [OF s0, of "Some (\<lambda>e psk age. (True, e))"] by (simp_all add: s_def toy_early_scfg_def)
  note f = NewClient_fields [OF c(1)] NewServer_fields [OF s(1)]
  have f': "resumptionPSK c = Some ?psk" "resumptionIdentity c = ticket" "c_nextProtos c = [[104, 51]]"
    "c_localTransportParams c = Some [7]" "s_nextProtos s = [[1], [104, 51]]" "s_localTransportParams s = Some [8]"
    "ticketKeys s = Some (\<lambda>e. ([replicate 16 5], e))" "c_ephemeral c = toy_key 3" "s_ephemeral s = toy_key 4"
    using f by (auto simp: resuming_def toy_ccfg_def toy_scfg_def toy_early_scfg_def)
  have op: "opened_ticket toy_x509 s () c = Inr (?psk, 70, [1])" using dec by (simp add: opened_ticket_def f')
  have sel: "selected_psk toy_x509 s () c = Some ?psk" by (simp add: selected_psk_def f' op)
  have "length ticket \<le> 10000" using ticket_length [OF toy_x509_ok(2) t] by simp
  moreover have "sm2_KeyPair toy_x509 (toy_key 3)" "sm2_KeyPair toy_x509 (toy_key 4)"
    by (rule toy_key_pair, simp)+
  ultimately have conn: "can_connect toy_x509 c s () (replicate 32 1) (replicate 32 2) []"
    using toy_random
    by (simp add: can_connect_def client_sizes_ok_def alpn_ok_def alpn_size_def params_size_def alpn_compatible_def
        ticket_consistent_def f' op sel del: toy_x509_gm)
  have adm: "early_admissible toy_x509 s () c" by (simp add: early_admissible_def c(2) s(2,3) f' op)
  obtain c1 s1 env1 where "runHandshake toy_x509 c s () (Some (replicate 32 1)) (Some (replicate 32 2)) []
      = Inr (c1, s1, env1)" "agreed toy_x509 c1 s1" "resumptionSelectedPSK s1 = selected_psk toy_x509 s () c"
    "earlyDataAccepted c1 \<longleftrightarrow> early_admissible toy_x509 s () c"
    using run_agrees [OF toy_x509_ok(1,3) f(1) f(7) conn] by blast
  then show thesis using that [OF s(1)] adm sel by simp
qed


end
