(* ===== verification/QuicConfig.thy ===== *)
theory QuicConfig
  imports AntiReplay TicketKeys ServerSafety
begin

text \<open>
  The QUIC server and client of \<open>src/quicgm/config.go\<close> and \<open>src/quicgm/listener.go\<close>: the
  checks of a configuration, the handshaker configurations built from it, and the state a
  listener shares among its connections (the ticket-key rotator and the anti-replay
  cache). The process-wide state also has the clock and the random source: the n-th read
  of each is the value of a function at n. Durations are in nanoseconds.
\<close>

section \<open>The shared state\<close>

record world =
  w_clock :: "nat \<Rightarrow> int"
  w_reads :: nat
  w_rand :: "nat \<Rightarrow> bytes option"
  w_draws :: nat
  w_cache :: AntiReplayCache

record listener_env = world +
  l_rotator :: ticketKeyRotator

definition time_Now :: "'a world_scheme \<Rightarrow> int \<times> 'a world_scheme" where
  "time_Now w = (w_clock w (w_reads w), w\<lparr>w_reads := Suc (w_reads w)\<rparr>)"

definition rand_Read :: "'a world_scheme \<Rightarrow> bytes option \<times> 'a world_scheme" where
  "rand_Read w = (w_rand w (w_draws w), w\<lparr>w_draws := Suc (w_draws w)\<rparr>)"

text \<open>
  The method \<open>keys\<close> of the rotator in this state: it reads the clock, and only if a
  rotation is due it draws a key and, if that succeeds, reads the clock again.
\<close>

definition rotator_keys :: "listener_env \<Rightarrow> bytes list \<times> listener_env" where
  "rotator_keys w =
    (case time_Now w of (now1, w) \<Rightarrow>
       if now1 - rotatedAt (l_rotator w) \<ge> rotationPeriod (l_rotator w) then
         (case rand_Read w of (rnd, w) \<Rightarrow>
            (case (if rnd = None then (now1, w) else time_Now w) of (now2, w) \<Rightarrow>
               (case keys_call (l_rotator w) now1 rnd now2 of (ks, r) \<Rightarrow> (ks, w\<lparr>l_rotator := r\<rparr>))))
       else (case keys_call (l_rotator w) now1 None now1 of (ks, r) \<Rightarrow> (ks, w\<lparr>l_rotator := r\<rparr>)))"

text \<open>The method \<open>Check\<close> of the cache of \<open>antireplay.go\<close> in this state.\<close>

definition cache_Check :: "'a world_scheme \<Rightarrow> bytes \<Rightarrow> int \<Rightarrow> bool \<times> 'a world_scheme" where
  "cache_Check w digest age =
    (case time_Now w of (now, w) \<Rightarrow>
       (case Check (w_cache w) now digest age of (ok, c) \<Rightarrow> (ok, w\<lparr>w_cache := c\<rparr>)))"

section \<open>Configuration\<close>

definition defaultIdleTimeout :: int where "defaultIdleTimeout = 30 * 1000000000"

definition defaultTicketKeyRotation :: int where "defaultTicketKeyRotation = 3600 * 1000000000"

text \<open>The cache is an interface value: nil, or an object with the method \<open>Check\<close>.\<close>

record 'e quicgm_ServerConfig =
  qs_Addr :: bytes
  qs_Certificate :: "X509 option"
  qs_PrivateKey :: "PrivateKey option"
  qs_ClientCAs :: "CertPool option"
  qs_MaxIdleTimeout :: int
  qs_MaxIncomingStreams :: int
  qs_NextProtos :: "bytes list"
  qs_SessionTicketKey :: bytes
  qs_AllowEarlyData :: bool
  qs_AntiReplay :: "('e \<Rightarrow> bytes \<Rightarrow> int \<Rightarrow> bool \<times> 'e) option"

record quicgm_ClientConfig =
  qc_Addr :: bytes
  qc_ServerName :: bytes
  qc_Roots :: "CertPool option"
  qc_InsecureSkipVerify :: bool
  qc_MaxIdleTimeout :: int
  qc_NextProtos :: "bytes list"
  qc_ResumptionPSK :: "bytes option"
  qc_ResumptionIdentity :: bytes
  qc_ResumptionObfuscatedTicketAge :: u32
  qc_ResumptionAppData :: bytes
  qc_EarlyData :: bool

datatype quicgm_error =
    errNoServerCert
  | errNoServerName
  | errEmptyALPN
  | errNegativeConfig
  | EarlyDataNeedsPSK
  | EarlyDataNeedsIdentity
  | EarlyDataNeedsAppData
  | ClientCAsUnsupported
  | RotatorError rotator_error
  | ListenError
  | ContextError
  | ResolveError
  | SocketError
  | DialError

definition ServerConfig_idleTimeout :: "'e quicgm_ServerConfig \<Rightarrow> int" where
  "ServerConfig_idleTimeout c = (if qs_MaxIdleTimeout c > 0 then qs_MaxIdleTimeout c else defaultIdleTimeout)"

definition ClientConfig_idleTimeout :: "quicgm_ClientConfig \<Rightarrow> int" where
  "ClientConfig_idleTimeout c = (if qc_MaxIdleTimeout c > 0 then qc_MaxIdleTimeout c else defaultIdleTimeout)"

definition validateTransportKnobs :: "int \<Rightarrow> int \<Rightarrow> quicgm_error + unit" where
  "validateTransportKnobs idleTimeout maxIncomingStreams =
    (if idleTimeout < 0 \<or> maxIncomingStreams < 0 then Inl errNegativeConfig else Inr ())"

text \<open>
  \<open>ObfuscatedTicketAge\<close>. \<open>Milliseconds\<close> divides towards zero, and the conversion to 32
  bits and the sum wrap around.
\<close>

definition duration_Milliseconds :: "int \<Rightarrow> int" where
  "duration_Milliseconds d = (if d \<ge> 0 then d div 1000000 else - ((- d) div 1000000))"

definition quicgm_ObfuscatedTicketAge :: "u32 \<Rightarrow> int \<Rightarrow> u32" where
  "quicgm_ObfuscatedTicketAge ticketAgeAdd elapsed =
    (let ms = word_of_int (duration_Milliseconds elapsed) in ticketAgeAdd + ms)"

text \<open>
  The handshaker configuration of a server. The handshaker calls the acceptor only with a
  selected key, so that the guard of the acceptor against a nil key is never taken.
\<close>

definition tls13ServerConfig ::
  "'x x509_scheme \<Rightarrow> 'e quicgm_ServerConfig \<Rightarrow> ('e \<Rightarrow> bytes list \<times> 'e) \<Rightarrow> 'e ServerConfig" where
  "tls13ServerConfig g c getKeys =
    (let allowEarly = (qs_AllowEarlyData c \<and> qs_AntiReplay c \<noteq> None) in
     \<lparr>sc_DCID = [],
      sc_Certificate = qs_Certificate c,
      sc_PrivateKey = qs_PrivateKey c,
      sc_TransportParameters = None,
      sc_NextProtos = qs_NextProtos c,
      sc_SessionTicketKeys = Some getKeys,
      sc_AllowEarlyData = allowEarly,
      sc_EarlyDataAcceptor =
        (case qs_AntiReplay c of
           None \<Rightarrow> None
         | Some check \<Rightarrow>
             if allowEarly then Some (\<lambda>e psk realAge. check e (sm3_Sum g psk) realAge) else None)\<rparr>)"

definition tls13ClientConfig :: "quicgm_ClientConfig \<Rightarrow> quicgm_error + ClientConfig" where
  "tls13ClientConfig c =
    (if qc_ServerName c = [] \<and> \<not> qc_InsecureSkipVerify c then Inl errNoServerName
     else
       bindE (validateTransportKnobs (qc_MaxIdleTimeout c) 0) (\<lambda>_.
       if length (qc_NextProtos c) = 0 then Inl errEmptyALPN
       else if qc_EarlyData c \<and> (case qc_ResumptionPSK c of None \<Rightarrow> True | Some p \<Rightarrow> length p = 0)
       then Inl EarlyDataNeedsPSK
       else if qc_EarlyData c \<and> length (qc_ResumptionIdentity c) = 0 then Inl EarlyDataNeedsIdentity
       else if qc_EarlyData c \<and> length (qc_ResumptionAppData c) = 0 then Inl EarlyDataNeedsAppData
       else
         Inr \<lparr>cc_DCID = [],
              cc_ServerName = qc_ServerName c,
              cc_Roots = qc_Roots c,
              cc_Intermediates = None,
              cc_InsecureSkipVerify = qc_InsecureSkipVerify c,
              cc_VerifyPeerCertificate = None,
              cc_NextProtos = qc_NextProtos c,
              cc_TransportParameters = None,
              cc_ResumptionPSK = qc_ResumptionPSK c,
              cc_ResumptionIdentity = qc_ResumptionIdentity c,
              cc_ResumptionObfuscatedTicketAge = qc_ResumptionObfuscatedTicketAge c,
              cc_ResumptionAppData = qc_ResumptionAppData c,
              cc_EarlyData = qc_EarlyData c\<rparr>))"

section \<open>The listener\<close>

text \<open>The part of the QUIC configuration that \<open>Listen\<close> and \<open>dial\<close> set.\<close>

record 'e quic_ServerConfig =
  GMHandshakeConfig_Server :: "'e ServerConfig"
  qsc_MaxIdleTimeout :: int
  Allow0RTT :: bool
  qsc_MaxIncomingStreams :: int

text \<open>What the race between the transport and the cancellation of the context gives.\<close>

datatype listen_outcome = Listening | ListenFailed | Cancelled

definition Listen ::
  "'x x509_scheme \<Rightarrow> listener_env quicgm_ServerConfig \<Rightarrow> world \<Rightarrow> listen_outcome
    \<Rightarrow> quicgm_error + (listener_env quic_ServerConfig \<times> listener_env)" where
  "Listen g cfg w outcome =
    (if qs_Certificate cfg = None \<or> qs_PrivateKey cfg = None then Inl errNoServerCert
     else if length (qs_NextProtos cfg) = 0 then Inl errEmptyALPN
     else
       bindE (validateTransportKnobs (qs_MaxIdleTimeout cfg) (qs_MaxIncomingStreams cfg)) (\<lambda>_.
       if qs_ClientCAs cfg \<noteq> None then Inl ClientCAsUnsupported
       else
         (case (if length (qs_SessionTicketKey cfg) > 0 then (None, w) else rand_Read w) of (rnd, w) \<Rightarrow>
         (case time_Now w of (now, w) \<Rightarrow>
         bindE (mapE RotatorError
           (newTicketKeyRotator (qs_SessionTicketKey cfg) defaultTicketKeyRotation rnd now)) (\<lambda>rotator.
         case outcome of
           ListenFailed \<Rightarrow> Inl ListenError
         | Cancelled \<Rightarrow> Inl ContextError
         | Listening \<Rightarrow>
             Inr (\<lparr>GMHandshakeConfig_Server = tls13ServerConfig g cfg rotator_keys,
                   qsc_MaxIdleTimeout = ServerConfig_idleTimeout cfg,
                   Allow0RTT = (qs_AllowEarlyData cfg \<and> qs_AntiReplay cfg \<noteq> None),
                   qsc_MaxIncomingStreams = qs_MaxIncomingStreams cfg\<rparr>,
                  world.extend w \<lparr>l_rotator = rotator\<rparr>))))))"

section \<open>A client connection\<close>

text \<open>
  The session material of a \<open>Conn\<close> and whether \<open>Close\<close> has run. \<open>udpConn\<close> tells whether the
  connection owns a socket.
\<close>

record Conn =
  udpConn :: bool
  closeOnce :: bool
  sessionIdentity :: bytes
  sessionPSK :: bytes
  sessionParams :: bytes
  conn_ticketAgeAdd :: u32

definition onClientSessionTicket :: "Conn \<Rightarrow> bytes \<Rightarrow> bytes \<Rightarrow> u32 \<Rightarrow> bytes \<Rightarrow> Conn" where
  "onClientSessionTicket conn identity psk ticketAgeAdd serverParams =
    conn\<lparr>sessionIdentity := identity, sessionPSK := psk, sessionParams := serverParams,
         conn_ticketAgeAdd := ticketAgeAdd\<rparr>"

definition SessionTicket :: "Conn \<Rightarrow> bytes \<times> bytes \<times> bytes \<times> u32 \<times> bool" where
  "SessionTicket c = (sessionIdentity c, sessionPSK c, sessionParams c, conn_ticketAgeAdd c, length (sessionPSK c) > 0)"

text \<open>\<open>closeErr\<close> and \<open>udpErr\<close> are what the transport and the socket answer when they are closed.\<close>

definition Conn_Close :: "Conn \<Rightarrow> 'err option \<Rightarrow> 'err option \<Rightarrow> Conn \<times> 'err option" where
  "Conn_Close c closeErr udpErr =
    (if closeOnce c then (c, None)
     else
       (c\<lparr>closeOnce := True, sessionIdentity := [], sessionPSK := []\<rparr>,
        if udpConn c \<and> udpErr \<noteq> None \<and> closeErr = None then udpErr else closeErr))"

record quic_ClientConfig =
  GMHandshakeConfig_Client :: ClientConfig
  qcc_MaxIdleTimeout :: int

text \<open>\<open>resolved\<close>, \<open>socket\<close> and \<open>dialled\<close> tell whether the network calls succeed.\<close>

definition dial :: "quicgm_ClientConfig \<Rightarrow> bool \<Rightarrow> bool \<Rightarrow> bool \<Rightarrow> quicgm_error + (quic_ClientConfig \<times> Conn)" where
  "dial cfg resolved socket dialled =
    bindE (tls13ClientConfig cfg) (\<lambda>clientCfg.
    if \<not> resolved then Inl ResolveError
    else if \<not> socket then Inl SocketError
    else if \<not> dialled then Inl DialError
    else Inr (\<lparr>GMHandshakeConfig_Client = clientCfg, qcc_MaxIdleTimeout = ClientConfig_idleTimeout cfg\<rparr>,
              \<lparr>udpConn = True, closeOnce = False, sessionIdentity = [], sessionPSK = [], sessionParams = [],
               conn_ticketAgeAdd = 0\<rparr>))"

end
