(* ===== verification/ZeroRtt.thy ===== *)
theory ZeroRtt
  imports QuicConfig
begin

text \<open>
  Early data at a listener: the connections share the ticket-key rotator and the
  anti-replay cache, and no early data is accepted twice within the window.
\<close>

section \<open>Calls of the callbacks\<close>

inductive env_call :: "listener_env \<Rightarrow> listener_env \<Rightarrow> bool" where
  call_keys: "env_call w (snd (rotator_keys w))"
| call_check: "env_call w (snd (cache_Check w d age))"

abbreviation env_calls :: "listener_env \<Rightarrow> listener_env \<Rightarrow> bool" where
  "env_calls \<equiv> env_call\<^sup>*\<^sup>*"

lemma rotator_keys_world:
  "w_clock (snd (rotator_keys w)) = w_clock w" "w_reads w \<le> w_reads (snd (rotator_keys w))"
  "w_cache (snd (rotator_keys w)) = w_cache w"
  by (auto simp: rotator_keys_def time_Now_def rand_Read_def split: prod.split)

lemma cache_Check_eq:
  "cache_Check w d age =
    (fst (Check (w_cache w) (w_clock w (w_reads w)) d age),
     w\<lparr>w_reads := Suc (w_reads w), w_cache := snd (Check (w_cache w) (w_clock w (w_reads w)) d age)\<rparr>)"
  by (simp add: cache_Check_def time_Now_def split: prod.split)

lemma env_call_clock:
  assumes "env_call w w'"
  shows "w_clock w' = w_clock w \<and> w_reads w \<le> w_reads w' \<and> cache_span (w_cache w') = cache_span (w_cache w)"
  using assms by cases (simp_all add: rotator_keys_world cache_Check_eq cache.span_check)

lemma env_calls_clock:
  "env_calls w w' \<Longrightarrow> w_clock w' = w_clock w \<and> w_reads w \<le> w_reads w' \<and> cache_span (w_cache w') = cache_span (w_cache w)"
  by (induction rule: rtranclp_induct) (auto dest!: env_call_clock)

text \<open>A digest that has not expired by the next read of the clock is still remembered.\<close>

lemma env_calls_remember:
  assumes "env_calls w w'" and "mono (w_clock w)" and "cache_remembers (w_cache w) d e"
    and "w_clock w (w_reads w') < e"
  shows "cache_remembers (w_cache w') d e"
  using assms
proof (induction rule: rtranclp_induct)
  case (step y z)
  have "w_clock y = w_clock w" "w_clock z = w_clock w" "w_reads y \<le> w_reads z"
    using env_calls_clock [OF step.hyps(1)] env_call_clock [OF step.hyps(2)] by simp_all
  then have "w_clock w (w_reads y) < e" using step.prems(1,3) monoD [of "w_clock w" "w_reads y" "w_reads z"] by simp
  note now = this [folded \<open>w_clock y = w_clock w\<close>]
  have "cache_remembers (w_cache y) d e" using step.IH step.prems \<open>w_clock w (w_reads y) < e\<close> by blast
  note kept = cache.remembered_kept [OF this now]
  from step.hyps(2) show ?case
    by cases (simp_all add: rotator_keys_world cache_Check_eq kept \<open>cache_remembers (w_cache y) d e\<close>)
qed simp

section \<open>ClientHello at a listener\<close>

text \<open>
  What a ClientHello does to the shared state: it only calls the callbacks, and if the
  connection ends up with early-data keys, its last call is the one by which the cache
  accepted the digest of the selected key.
\<close>

definition early_checked :: "'x x509_scheme \<Rightarrow> listener_env \<Rightarrow> listener_env server_env \<Rightarrow> bool" where
  "early_checked g env r \<longleftrightarrow> env_calls env (snd r) \<and>
     (ClientEarlyKeys (s_secrets (fst r)) \<noteq> None \<longrightarrow>
        (\<exists>psk age. resumptionSelectedPSK (fst r) = Some psk
           \<and> cache_Check (snd (rotator_keys env)) (sm3_Sum g psk) age = (True, snd r)))"

definition listener_policy :: "'x x509_scheme \<Rightarrow> listener_env ServerHandshaker \<Rightarrow> bool" where
  "listener_policy g s \<longleftrightarrow> ticketKeys s = Some rotator_keys
     \<and> (earlyDataAcceptor s = None \<or> earlyDataAcceptor s = Some (\<lambda>e psk realAge. cache_Check e (sm3_Sum g psk) realAge))"

lemma early_checked_same [simp]:
  "ClientEarlyKeys (s_secrets s) = None \<Longrightarrow> early_checked g env (s, env)"
  by (simp add: early_checked_def)

lemma verifyPSKBinder_listener:
  assumes "listener_policy g s"
  shows "env_calls env (snd (fst (verifyPSKBinder g s env chMsg pskExt)))"
    "s_secrets (fst (fst (verifyPSKBinder g s env chMsg pskExt))) = s_secrets s"
    "listener_policy g (fst (fst (verifyPSKBinder g s env chMsg pskExt)))"
    "resumptionSelectedPSK (fst (fst (verifyPSKBinder g s env chMsg pskExt))) \<noteq> None
      \<Longrightarrow> resumptionSelectedPSK s = None \<Longrightarrow> snd (fst (verifyPSKBinder g s env chMsg pskExt)) = snd (rotator_keys env)"
proof -
  have k: "env_calls env (snd (rotator_keys env))" using call_keys [of env] by blast
  show "env_calls env (snd (fst (verifyPSKBinder g s env chMsg pskExt)))"
    "s_secrets (fst (fst (verifyPSKBinder g s env chMsg pskExt))) = s_secrets s"
    "listener_policy g (fst (fst (verifyPSKBinder g s env chMsg pskExt)))"
    using assms k
    by (auto simp: verifyPSKBinder_def listener_policy_def tryS_def Let_def split: sum.split prod.split)
  show "snd (fst (verifyPSKBinder g s env chMsg pskExt)) = snd (rotator_keys env)"
    if "resumptionSelectedPSK (fst (fst (verifyPSKBinder g s env chMsg pskExt))) \<noteq> None" "resumptionSelectedPSK s = None"
    using that assms
    by (auto simp: verifyPSKBinder_def listener_policy_def tryS_def Let_def split: sum.splits prod.splits if_splits)
qed

lemma admitEarlyData_listener:
  assumes "listener_policy g s" and "ClientEarlyKeys (s_secrets s) = None" and "env_calls env env1"
    and "resumptionSelectedPSK s \<noteq> None \<Longrightarrow> env1 = snd (rotator_keys env)"
  shows "early_checked g env (fst (admitEarlyData g s env1))"
proof (cases "resumptionSelectedPSK s = None \<or> earlyDataAcceptor s = None \<or> \<not> allowEarlyData s")
  case True
  then show ?thesis
    using assms by (auto simp: admitEarlyData_def early_checked_def Let_def split: option.split prod.split)
next
  case False
  then obtain psk where p: "resumptionSelectedPSK s = Some psk" "allowEarlyData s"
    "earlyDataAcceptor s = Some (\<lambda>e psk realAge. cache_Check e (sm3_Sum g psk) realAge)"
    using assms(1) by (auto simp: listener_policy_def)
  obtain ok env2 where c: "cache_Check env1 (sm3_Sum g psk) (resumptionRealAge s) = (ok, env2)" by fastforce
  have calls: "env_calls env env2"
    using call_check [of env1 "sm3_Sum g psk" "resumptionRealAge s"] assms(3) c by (simp add: rtranclp.rtrancl_into_rtrancl)
  show ?thesis
    using p c calls assms(2-4)
    by (cases ok) (auto simp: admitEarlyData_def early_checked_def Let_def tryS_def split: sum.split)
qed

lemma handleOfferedPSK_listener:
  assumes "listener_policy g s" and "ClientEarlyKeys (s_secrets s) = None" and "resumptionSelectedPSK s = None"
  shows "early_checked g env (fst (handleOfferedPSK g s env chMsg))"
proof -
  let ?ext = "findExtension (ch_Extensions chMsg) ExtensionTypePreSharedKey"
  obtain s' env' r where v: "verifyPSKBinder g s env chMsg ?ext = ((s', env'), r)" by (metis prod.exhaust)
  note l = verifyPSKBinder_listener [OF assms(1), of env chMsg ?ext, unfolded v, simplified]
  have "early_checked g env (fst (admitEarlyData g s' env'))"
    by (rule admitEarlyData_listener) (use l assms(2,3) in auto)
  moreover have "early_checked g env (s', env')" using l assms(2) by (simp add: early_checked_def)
  ultimately show ?thesis
    using assms(2) by (simp add: handleOfferedPSK_def Let_def v split: sum.split)
qed

lemma HandleClientHello_listener:
  assumes "listener_policy g s" and "ClientEarlyKeys (s_secrets s) = None" and "resumptionSelectedPSK s = None"
  shows "early_checked g env (fst (HandleClientHello g s env m))"
proof -
  have start: "listener_policy g s'" "ClientEarlyKeys (s_secrets s') = None" "resumptionSelectedPSK s' = None"
    if "ticketKeys s' = ticketKeys s" "earlyDataAcceptor s' = earlyDataAcceptor s" "s_secrets s' = s_secrets s"
      "resumptionSelectedPSK s' = resumptionSelectedPSK s" for s'
    using that assms by (simp_all add: listener_policy_def)
  note offered = handleOfferedPSK_listener [OF start]
  show ?thesis
    unfolding HandleClientHello_def Let_def tryS_def
    using assms(2) by (auto split: sum.split intro!: offered)
qed

section \<open>Connections of a listener\<close>

text \<open>
  The server configuration of a connection: the one \<open>Listen\<close> builds, with the connection
  identifier and the transport parameters the transport fills in.
\<close>

definition connection_config ::
  "'x x509_scheme \<Rightarrow> listener_env quicgm_ServerConfig \<Rightarrow> bytes \<Rightarrow> bytes option \<Rightarrow> listener_env ServerConfig" where
  "connection_config g q cid params =
    (tls13ServerConfig g q rotator_keys)\<lparr>sc_DCID := cid, sc_TransportParameters := params\<rparr>"

text \<open>A state that a connection of the listener can be in.\<close>

definition connection_state :: "'x x509_scheme \<Rightarrow> listener_env quicgm_ServerConfig \<Rightarrow> listener_env ServerHandshaker \<Rightarrow> bool" where
  "connection_state g q s \<longleftrightarrow>
    (\<exists>k cid params s0 e0 e1. NewServerHandshakerWithConfig g k (connection_config g q cid params) = Inr s0
       \<and> server_steps g (s0, e0) (s, e1))"

text \<open>What the connections of a listener do to the shared state.\<close>

inductive listener_step ::
  "'x x509_scheme \<Rightarrow> listener_env quicgm_ServerConfig \<Rightarrow> listener_env \<Rightarrow> listener_env \<Rightarrow> bool" for g q where
  listener_hello: "connection_state g q s \<Longrightarrow> listener_step g q env (snd (fst (HandleClientHello g s env m)))"
| listener_ticket: "connection_state g q s \<Longrightarrow>
    listener_step g q env (fst (NewSessionTicketWithData g s env lifetime appData nonceRnd ageRnd sealRnd))"

abbreviation listener_steps where "listener_steps g q \<equiv> (listener_step g q)\<^sup>*\<^sup>*"

lemma connection_policy:
  assumes "connection_state g q s" and "qs_AntiReplay q = Some cache_Check"
  shows "listener_policy g s" "server_inv g s"
proof -
  obtain k cid params s0 e0 e1 where n: "NewServerHandshakerWithConfig g k (connection_config g q cid params) = Inr s0"
    "server_steps g (s0, e0) (s, e1)"
    using assms(1) by (auto simp: connection_state_def)
  show "server_inv g s" using server_steps_inv [OF n(2)] NewServer_inv [OF n(1)] by simp
  have "same_policy s0 s" using server_steps_policy [OF n(2)] by simp
  then show "listener_policy g s"
    using n(1) assms(2)
    by (auto simp: same_policy_def listener_policy_def connection_config_def tls13ServerConfig_def
        NewServerHandshakerWithConfig_def bindE_Inr_iff Let_def split: if_splits option.splits)
qed

lemma listener_step_calls:
  assumes "listener_step g q env env'" and "qs_AntiReplay q = Some cache_Check"
  shows "env_calls env env'"
  using assms(1)
proof cases
  case (listener_hello s m)
  note p = connection_policy [OF listener_hello(2) assms(2)]
  show ?thesis
  proof (cases "s_phase s = serverPhaseNone")
    case True
    then have "ClientEarlyKeys (s_secrets s) = None" "resumptionSelectedPSK s = None"
      using p(2) by (simp_all add: server_inv_def)
    then show ?thesis using HandleClientHello_listener [OF p(1), of env m] listener_hello(1) by (simp add: early_checked_def)
  qed (simp add: listener_hello(1) HandleClientHello_def)
next
  case (listener_ticket s lifetime appData nonceRnd ageRnd sealRnd)
  have "ticketKeys s = Some rotator_keys"
    using connection_policy(1) [OF listener_ticket(2) assms(2)] by (simp add: listener_policy_def)
  moreover have "env_calls env (snd (rotator_keys env))" using call_keys [of env] by blast
  ultimately show ?thesis
    unfolding listener_ticket(1)
    by (auto simp: NewSessionTicketWithData_def tryS_def Let_def split: sum.split prod.split option.split)
qed

lemma listener_steps_calls:
  "listener_steps g q env env' \<Longrightarrow> qs_AntiReplay q = Some cache_Check \<Longrightarrow> env_calls env env'"
  by (induction rule: rtranclp_induct) (auto dest: listener_step_calls)

text \<open>The time of the last read of the clock.\<close>

definition last_read :: "'a world_scheme \<Rightarrow> int" where
  "last_read w = w_clock w (w_reads w - 1)"

lemma accepted_remembered:
  assumes "cache_Check w d age = (True, w')"
  shows "cache_remembers (w_cache w') d (last_read w' + cache_span (w_cache w'))"
  using assms cache.accept_remembers [of "w_cache w" "w_clock w (w_reads w)" d age]
  by (auto simp: cache_Check_eq last_read_def cache.span_check)

lemma accepted_again:
  assumes "cache_remembers (w_cache w1) d e" and "env_calls w1 w2" and "mono (w_clock w1)"
    and "cache_Check w2 d age = (True, w3)"
  shows "e \<le> last_read w3"
proof (rule ccontr)
  assume "\<not> e \<le> last_read w3"
  then have l: "w_clock w1 (w_reads w2) < e"
    using assms(4) env_calls_clock [OF assms(2)] by (auto simp: cache_Check_eq last_read_def)
  from env_calls_remember [OF assms(2,3,1) l] have "cache_remembers (w_cache w2) d e" .
  then show False
    using cache.remembered_rejects [of "w_cache w2" d e "w_clock w2 (w_reads w2)" age] l assms(4)
      env_calls_clock [OF assms(2)] by (auto simp: cache_Check_eq)
qed

lemma hello_checked:
  assumes "NewServerHandshakerWithConfig g k (connection_config g q cid params) = Inr s"
    and "qs_AntiReplay q = Some cache_Check"
    and "HandleClientHello g s env m = ((s', env'), r)" and "ClientEarlyKeys (s_secrets s') \<noteq> None"
    and "resumptionSelectedPSK s' = Some psk"
  obtains age where "cache_Check (snd (rotator_keys env)) (sm3_Sum g psk) age = (True, env')"
proof -
  have c: "connection_state g q s" using assms(1) unfolding connection_state_def by blast
  have "ClientEarlyKeys (s_secrets s) = None" "resumptionSelectedPSK s = None"
    using NewServer_fields(1) [OF assms(1)] by (simp_all add: fresh_server_def)
  from HandleClientHello_listener [OF connection_policy(1) [OF c assms(2)] this, of env m] show thesis
    using assms(3-5) that by (auto simp: early_checked_def)
qed

lemma rejecting_stays:
  "env_calls w w' \<Longrightarrow> w_cache w = rejectingAntiReplayCache \<Longrightarrow> w_cache w' = rejectingAntiReplayCache"
proof (induction rule: rtranclp_induct)
  case (step y z)
  from step.hyps(2) show ?case by cases (simp_all add: rotator_keys_world cache_Check_eq step.IH step.prems)
qed

lemma accepting_span:
  assumes "w_cache env0 = NewAntiReplayCacheWithCap win maxTicketAge cap" and "env_calls env0 w"
    and "cache_Check w d age = (True, w')"
  shows "cache_span (w_cache env0) = win"
proof -
  have "w_cache env0 \<noteq> rejectingAntiReplayCache"
    using rejecting_stays [OF assms(2)] assms(3) by (auto simp: cache_Check_eq)
  then show ?thesis using New_span [of win maxTicketAge cap] assms(1) by metis
qed

section \<open>A concrete listener\<close>

text \<open>
  A listener with the certificate of the concrete connection, a seeded ticket key and a
  cache of 50 seconds; its clock jumps by 100 seconds after the third read.
\<close>

definition toy_quic :: "listener_env quicgm_ServerConfig" where
  "toy_quic =
    \<lparr>qs_Addr = [], qs_Certificate = Some (toy_cert 2 1), qs_PrivateKey = Some (toy_key 2), qs_ClientCAs = None,
     qs_MaxIdleTimeout = 0, qs_MaxIncomingStreams = 0, qs_NextProtos = [[1], [104, 51]],
     qs_SessionTicketKey = replicate 16 5, qs_AllowEarlyData = True, qs_AntiReplay = Some cache_Check\<rparr>"

definition toy_memory :: memoryAntiReplayCache where
  "toy_memory = \<lparr>seen = [], byExpiry = [], window = 50000000000, maxAge = 10000000000, maxEntries = 4\<rparr>"

definition toy_world :: world where
  "toy_world =
    \<lparr>w_clock = (\<lambda>n. if n < 3 then 0 else 100000000000), w_reads = 0, w_rand = (\<lambda>n. None), w_draws = 0,
     w_cache = NewAntiReplayCacheWithCap 50000000000 10000000000 4\<rparr>"

definition toy_rotator :: ticketKeyRotator where
  "toy_rotator = \<lparr>current = replicate 16 5, previous = None, rotatedAt = 0, rotationPeriod = 3600000000000\<rparr>"

definition toy_env :: listener_env where
  "toy_env = world.extend (toy_world\<lparr>w_reads := 1\<rparr>) \<lparr>l_rotator = toy_rotator\<rparr>"

lemma toy_Listen:
  "\<exists>qc. Listen toy_x509 toy_quic toy_world Listening = Inr (qc, toy_env)
     \<and> (GMHandshakeConfig_Server qc)\<lparr>sc_DCID := [1], sc_TransportParameters := Some [8]\<rparr>
         = connection_config toy_x509 toy_quic [1] (Some [8])"
  by (simp add: Listen_def toy_quic_def toy_env_def toy_rotator_def time_Now_def newTicketKeyRotator_def
      validateTransportKnobs_def SessionTicketKeyLen_def defaultTicketKeyRotation_def toy_world_def connection_config_def)

lemma toy_env_fields [simp]:
  "w_clock toy_env = (\<lambda>n. if n < 3 then 0 else 100000000000)" "w_reads toy_env = 1" "l_rotator toy_env = toy_rotator"
  "w_cache toy_env = NewAntiReplayCacheWithCap 50000000000 10000000000 4"
  by (simp_all add: toy_env_def toy_world_def world.defs)

lemma toy_mono: "mono (w_clock toy_env)"
  by (auto simp: mono_def)

lemma toy_keys:
  assumes "l_rotator env = toy_rotator" and "w_clock env (w_reads env) < 3600000000000"
  shows "rotator_keys env = ([replicate 16 5], env\<lparr>w_reads := Suc (w_reads env)\<rparr>)"
  using assms by (simp add: rotator_keys_def time_Now_def keys_call_def toy_rotator_def Let_def)

lemma toy_quic_cached: "toy_quic\<lparr>qs_AntiReplay := Some cache_Check\<rparr> = toy_quic"
  by (simp add: toy_quic_def)

lemma toy_listener_with:
  fixes obfAge :: u32
  obtains ccfg c s where "NewClientHandshakerWithConfig toy_x509 (Some (toy_key 3)) ccfg = Inr c"
    "NewServerHandshakerWithConfig toy_x509 (Some (toy_key 4)) (connection_config toy_x509 (toy_quic\<lparr>qs_AntiReplay := if b then Some cache_Check else None\<rparr>) [1] (Some [8])) = Inr s"
    "\<forall>env. l_rotator env = toy_rotator \<longrightarrow> w_clock env (w_reads env) < 3600000000000 \<longrightarrow>
       can_connect toy_x509 c s env (replicate 32 1) (replicate 32 2) []
       \<and> opened_ticket toy_x509 s env c = Inr (replicate 32 6, 70, [1])"
    "cc_ResumptionPSK ccfg \<noteq> None" "cc_ResumptionObfuscatedTicketAge ccfg = obfAge"
    "resumptionObfAge c = obfAge" "offerEarlyData c" "allowEarlyData s = b" "resumptionPSK c = Some (replicate 32 6)"
proof -
  let ?psk = "replicate 32 (6 :: byte)" and ?scfg = "connection_config toy_x509 (toy_quic\<lparr>qs_AntiReplay := if b then Some cache_Check else None\<rparr>) [1] (Some [8])"
  obtain ticket where t: "EncryptSessionTicketWithData toy_x509 (Some (replicate 12 4)) (replicate 16 5) ?psk 70 [1] = Inr ticket"
    by (rule Encrypt_total [OF toy_x509_ok(2), of "replicate 16 5" "replicate 12 4" "[1]" ?psk 70]) simp_all
  have dec: "DecryptSessionTicketWithData toy_x509 [replicate 16 5] ticket = Inr (?psk, 70, [1])"
    by (rule ticket_roundtrip_aux [OF toy_x509_ok(2) t]) simp_all
  obtain c0 where c0: "NewClientHandshakerWithConfig toy_x509 (Some (toy_key 3)) toy_ccfg = Inr c0"
    using toy_client_new by blast
  define ccfg where "ccfg = (resuming toy_ccfg ticket ?psk obfAge)\<lparr>cc_EarlyData := True\<rparr>"
  define c where "c = c0\<lparr>resumptionPSK := Some ?psk, resumptionIdentity := ticket, resumptionObfAge := obfAge, offerEarlyData := True\<rparr>"
  have c: "NewClientHandshakerWithConfig toy_x509 (Some (toy_key 3)) ccfg = Inr c"
    using NewClient_early [OF NewClient_resuming [OF c0, of ticket ?psk obfAge]] by (simp add: c_def ccfg_def)
  obtain ci si where "deriveInitial toy_x509 [1] = Inr (initialSecrets ci si)"
    by (rule deriveInitial_total [OF toy_x509_ok(1), of "[1]"]) auto
  then obtain s where s: "NewServerHandshakerWithConfig toy_x509 (Some (toy_key 4)) ?scfg = Inr s" "allowEarlyData s = b"
    by (auto simp: NewServerHandshakerWithConfig_def connection_config_def tls13ServerConfig_def toy_quic_def Let_def)
  note f = NewClient_fields [OF c] NewServer_fields [OF s(1)]
  have f': "resumptionPSK c = Some ?psk" "resumptionIdentity c = ticket" "c_nextProtos c = [[104, 51]]"
    "c_localTransportParams c = Some [7]" "s_nextProtos s = [[1], [104, 51]]" "s_localTransportParams s = Some [8]"
    "ticketKeys s = Some rotator_keys" "c_ephemeral c = toy_key 3" "s_ephemeral s = toy_key 4"
    using f by (auto simp: ccfg_def resuming_def toy_ccfg_def toy_quic_def connection_config_def tls13ServerConfig_def Let_def)
  have op: "opened_ticket toy_x509 s env c = Inr (?psk, 70, [1])"
    if "l_rotator env = toy_rotator" "w_clock env (w_reads env) < 3600000000000" for env
    using dec by (simp add: opened_ticket_def f' toy_keys [OF that])
  have "length ticket \<le> 10000" using ticket_length [OF toy_x509_ok(2) t] by simp
  moreover have "sm2_KeyPair toy_x509 (toy_key 3)" "sm2_KeyPair toy_x509 (toy_key 4)"
    by (rule toy_key_pair, simp)+
  ultimately have conn: "can_connect toy_x509 c s env (replicate 32 1) (replicate 32 2) []"
    if "l_rotator env = toy_rotator" "w_clock env (w_reads env) < 3600000000000" for env
    using toy_random
    by (simp add: can_connect_def client_sizes_ok_def alpn_ok_def alpn_size_def params_size_def alpn_compatible_def
        ticket_consistent_def selected_psk_def f' op [OF that] del: toy_x509_gm)
  have "offerEarlyData c" "resumptionObfAge c = obfAge" "resumptionPSK c = Some ?psk" by (simp_all add: c_def)
  moreover have "cc_ResumptionPSK ccfg \<noteq> None" "cc_ResumptionObfuscatedTicketAge ccfg = obfAge"
    by (simp_all add: ccfg_def resuming_def)
  ultimately show thesis using that [OF c s(1)] s(2) conn op by blast
qed

lemmas toy_listener = toy_listener_with [where b = True, unfolded if_True eq_True toy_quic_cached]

lemmas toy_listener_uncached = toy_listener_with [where b = False, unfolded if_False]

section \<open>Properties\<close>


lemma toy_first_check:
  assumes "cache_Check (snd (rotator_keys toy_env)) d age = (True, env)"
  shows "env = toy_env\<lparr>w_reads := 3, w_cache := MemoryCache
    (toy_memory\<lparr>seen := [(d, 50000000000)], byExpiry := [(50000000000, [d])]\<rparr>)\<rparr>"
  using assms
  by (auto simp: toy_keys cache_Check_eq NewAntiReplayCacheWithCap_def memoryCheck_def toy_memory_def bucket_def
      eval_nat_numeral split: if_splits)

lemma toy_listener_hello:
  assumes "l_rotator env = toy_rotator" and "w_clock env (w_reads env) < 3600000000000"
    and "\<forall>d. d \<noteq> [] \<longrightarrow> fst (cache_Check (snd (rotator_keys env)) d 7000000)"
    and "NewClientHandshakerWithConfig toy_x509 k ccfg = Inr c"
    and "NewServerHandshakerWithConfig toy_x509 k' (connection_config toy_x509 toy_quic [1] (Some [8])) = Inr s"
    and "can_connect toy_x509 c s env (replicate 32 1) (replicate 32 2) []"
    and "opened_ticket toy_x509 s env c = Inr (replicate 32 6, 70, [1])"
    and "resumptionObfAge c = 77" "offerEarlyData c" "allowEarlyData s" "resumptionPSK c = Some (replicate 32 6)"
  obtains m c1 s1 env1 where "ClientHello toy_x509 c (Some (replicate 32 1)) = (c1, Inr m)"
    "HandleClientHello toy_x509 s env m = ((s1, env1), Inr ())" "ClientEarlyKeys (s_secrets s1) \<noteq> None"
    "resumptionSelectedPSK s1 = Some (replicate 32 6)"
proof -
  have k: "sm2_KeyPair toy_x509 (c_ephemeral c)" "client_sizes_ok c" "length (replicate 32 (1 :: byte)) = 32"
    "alpn_compatible (c_nextProtos c) (s_nextProtos s)" "ticket_consistent toy_x509 s env c"
    using assms(6) by (simp_all add: can_connect_def)
  have "connection_state toy_x509 toy_quic s" using assms(5) unfolding connection_state_def by blast
  then have "listener_policy toy_x509 s" by (rule connection_policy(1)) (simp add: toy_quic_def)
  moreover have "earlyDataAcceptor s \<noteq> None"
    using assms(5) by (auto simp: NewServerHandshakerWithConfig_def connection_config_def tls13ServerConfig_def toy_quic_def
        Let_def bindE_Inr_iff split: if_splits option.splits)
  moreover have "sm3_Sum toy_x509 p \<noteq> []" for p
    using toy_x509_ok(1) by (auto simp: sm3_ok_def dest: spec [of _ p])
  ultimately have adm: "early_admissible toy_x509 s env c"
    using assms(3,7-11) by (auto simp: early_admissible_def listener_policy_def after_keys_def real_age_def)
  have sel: "selected_psk toy_x509 s env c = Some (replicate 32 6)" using assms(7,11) by (simp add: selected_psk_def)
  obtain m ek s1 env1 where
    "ClientHello toy_x509 c (Some (replicate 32 1)) = (helloed_client c m ek, Inr m)"
    "HandleClientHello toy_x509 s env m = ((s1, env1), Inr ())"
    "resumptionSelectedPSK s1 = selected_psk toy_x509 s env c"
    "ClientEarlyKeys (s_secrets s1) \<noteq> None \<longleftrightarrow> early_admissible toy_x509 s env c"
    by (rule client_hello_step [OF toy_x509_ok(1,3) k(1-3) NewClient_fields(1) [OF assms(4)]
          NewServer_fields(1) [OF assms(5)] k(4,5)])
  then show thesis using that adm sel by metis
qed


text \<open>
  C7. Without a cache there is no early data: a connection whose configuration has no
  anti-replay cache, or does not allow early data, never holds early-data keys, whatever
  the client sends and in whatever order the methods are called.
\<close>

theorem no_cache_no_early_data:
  assumes "qs_AntiReplay q = None \<or> \<not> qs_AllowEarlyData q"
    and "NewServerHandshakerWithConfig g k
      ((tls13ServerConfig g q getKeys)\<lparr>sc_DCID := cid, sc_TransportParameters := params\<rparr>) = Inr s"
    and "server_steps g (s, env) (s', env')"
  shows "ClientEarlyKeys (s_secrets s') = None"
proof -
  have "server_inv g s'" using server_steps_inv [OF assms(3)] NewServer_inv [OF assms(2)] by simp
  moreover have "same_policy s s'" using server_steps_policy [OF assms(3)] by simp
  then have "\<not> allowEarlyData s'"
    using assms(1,2) by (auto simp: same_policy_def NewServerHandshakerWithConfig_def tls13ServerConfig_def Let_def
        bindE_Inr_iff split: if_splits option.splits)
  ultimately show ?thesis by (auto simp: server_inv_def early_admitted_def)
qed

theorem no_cache_no_early_data_witness:
  "\<exists>c s c' s' env'. offerEarlyData c \<and> NewServerHandshakerWithConfig toy_x509 (Some (toy_key 4))
       (connection_config toy_x509 (toy_quic\<lparr>qs_AntiReplay := None\<rparr>) [1] (Some [8])) = Inr s
     \<and> runHandshake toy_x509 c s toy_env (Some (replicate 32 1)) (Some (replicate 32 2)) [] = Inr (c', s', env')
     \<and> agreed toy_x509 c' s' \<and> ClientEarlyKeys (s_secrets s') = None"
proof -
  let ?q = "toy_quic\<lparr>qs_AntiReplay := None\<rparr>"
  obtain ccfg c s where t: "NewClientHandshakerWithConfig toy_x509 (Some (toy_key 3)) ccfg = Inr c"
    "NewServerHandshakerWithConfig toy_x509 (Some (toy_key 4)) (connection_config toy_x509 ?q [1] (Some [8])) = Inr s"
    "\<forall>env. l_rotator env = toy_rotator \<longrightarrow> w_clock env (w_reads env) < 3600000000000 \<longrightarrow>
       can_connect toy_x509 c s env (replicate 32 1) (replicate 32 2) []
       \<and> opened_ticket toy_x509 s env c = Inr (replicate 32 6, 70, [1])"
    "offerEarlyData c"
    by (rule toy_listener_uncached)
  then have "can_connect toy_x509 c s toy_env (replicate 32 1) (replicate 32 2) []" by simp
  then obtain c' s' env' where run:
    "runHandshake toy_x509 c s toy_env (Some (replicate 32 1)) (Some (replicate 32 2)) [] = Inr (c', s', env')"
    "agreed toy_x509 c' s'"
    using run_agrees [OF toy_x509_ok(1,3) NewClient_fields(1) [OF t(1)] NewServer_fields(1) [OF t(2)]] by blast
  have "ClientEarlyKeys (s_secrets s') = None"
    by (rule no_cache_no_early_data [OF _ t(2) [unfolded connection_config_def] run_server_steps [OF run(1)]]) simp
  then show ?thesis using t(2,4) run by blast
qed

section \<open>The age of a ticket\<close>

lemma real_age_elapsed:
  assumes "0 \<le> elapsed" and "elapsed < 2 ^ 32 * 1000000"
    and "resumptionObfAge c = quicgm_ObfuscatedTicketAge ageAdd elapsed"
  shows "real_age c ageAdd = elapsed div 1000000 * 1000000"
proof -
  have "0 \<le> elapsed div 1000000" "elapsed div 1000000 < 2 ^ 32" using assms(1,2) by auto
  then have "uint (word_of_int (elapsed div 1000000) :: u32) = elapsed div 1000000"
    by (simp add: uint_word_of_int take_bit_int_eq_self)
  then show ?thesis
    using assms(1,3) by (simp add: real_age_def quicgm_ObfuscatedTicketAge_def duration_Milliseconds_def Let_def)
qed

text \<open>
  C8. Early data under an expired ticket is declined and the handshake still completes.
  A client resumes with the age \<open>ObfuscatedTicketAge\<close> computes for the time elapsed since it
  received its ticket. If that is past the maximum age of the server's cache, in whole
  milliseconds, the two sides resume on the pre-shared key without early data.
\<close>

theorem expired_ticket_no_early_data:
  assumes "sm3_ok g" and "sm2_ok g"
    and "NewClientHandshakerWithConfig g (Some clientKey) ccfg = Inr c"
    and "NewServerHandshakerWithConfig g (Some serverEphemeral) (connection_config g q cid params) = Inr s"
    and "qs_AntiReplay q = Some cache_Check" and "w_cache env = MemoryCache mc"
    and "can_connect g c s env clientRandom serverRandom sigRnd"
    and "cc_ResumptionPSK ccfg \<noteq> None" and "opened_ticket g s env c = Inr (psk, ageAdd, appData)"
    and "cc_ResumptionObfuscatedTicketAge ccfg = quicgm_ObfuscatedTicketAge ageAdd elapsed"
    and "maxAge mc + 1000000 \<le> elapsed" and "0 \<le> maxAge mc" and "elapsed < 2 ^ 32 * 1000000"
  shows "\<exists>c' s' env'. runHandshake g c s env (Some clientRandom) (Some serverRandom) sigRnd = Inr (c', s', env')
    \<and> agreed g c' s' \<and> pskMode c' \<and> \<not> earlyDataAccepted c' \<and> \<not> acceptedEarlyData s'"
proof -
  obtain c' s' env' where r: "runHandshake g c s env (Some clientRandom) (Some serverRandom) sigRnd = Inr (c', s', env')"
    "agreed g c' s'" "resumptionSelectedPSK s' = selected_psk g s env c" "earlyDataAccepted c' \<longleftrightarrow> early_admissible g s env c"
    using run_agrees [OF assms(1,2) NewClient_fields(1) [OF assms(3)] NewServer_fields(1) [OF assms(4)] assms(7)] by metis
  have "connection_state g q s" using assms(4) unfolding connection_state_def by blast
  then have pol: "listener_policy g s" using connection_policy(1) assms(5) by blast
  have obf: "resumptionObfAge c = quicgm_ObfuscatedTicketAge ageAdd elapsed"
    using assms(3,10) by (auto simp: NewClientHandshakerWithConfig_def bindE_Inr_iff split: if_splits option.splits)
  have "real_age c ageAdd = elapsed div 1000000 * 1000000"
    by (rule real_age_elapsed [OF _ assms(13) obf]) (use assms(11,12) in simp)
  then have "maxAge mc \<le> real_age c ageAdd"
    using assms(11) by (simp add: minus_mod_eq_div_mult [symmetric])
  then have "\<not> fst (cache_Check (after_keys s env) d (real_age c ageAdd))" for d
    using pol assms(6) by (simp add: cache_Check_eq after_keys_def listener_policy_def rotator_keys_world memoryCheck_def)
  then have "\<not> early_admissible g s env c"
    using pol assms(9) by (auto simp: early_admissible_def listener_policy_def)
  moreover have "selected_psk g s env c \<noteq> None"
    using assms(9) NewClient_fields(5) [OF assms(3)] assms(8) by (auto simp: selected_psk_def)
  ultimately show ?thesis using r unfolding agreed_def by metis
qed

theorem expired_ticket_no_early_data_witness:
  "\<exists>c s c' s' env'.
     NewServerHandshakerWithConfig toy_x509 (Some (toy_key 4)) (connection_config toy_x509 toy_quic [1] (Some [8])) = Inr s
     \<and> offerEarlyData c \<and> allowEarlyData s
     \<and> runHandshake toy_x509 c s toy_env (Some (replicate 32 1)) (Some (replicate 32 2)) [] = Inr (c', s', env')
     \<and> agreed toy_x509 c' s' \<and> pskMode c' \<and> \<not> earlyDataAccepted c'"
proof -
  obtain ccfg c s where t: "NewClientHandshakerWithConfig toy_x509 (Some (toy_key 3)) ccfg = Inr c"
    "NewServerHandshakerWithConfig toy_x509 (Some (toy_key 4)) (connection_config toy_x509 toy_quic [1] (Some [8])) = Inr s"
    "\<forall>env. l_rotator env = toy_rotator \<longrightarrow> w_clock env (w_reads env) < 3600000000000 \<longrightarrow>
       can_connect toy_x509 c s env (replicate 32 1) (replicate 32 2) []
       \<and> opened_ticket toy_x509 s env c = Inr (replicate 32 6, 70, [1])"
    "cc_ResumptionPSK ccfg \<noteq> None"
    "cc_ResumptionObfuscatedTicketAge ccfg = quicgm_ObfuscatedTicketAge 70 60000000000" "offerEarlyData c" "allowEarlyData s"
    by (rule toy_listener)
  have e: "can_connect toy_x509 c s toy_env (replicate 32 1) (replicate 32 2) []"
    "opened_ticket toy_x509 s toy_env c = Inr (replicate 32 6, 70, [1])"
    using t(3) by simp_all
  have m: "w_cache toy_env = MemoryCache toy_memory" "qs_AntiReplay toy_quic = Some cache_Check"
    by (simp_all add: NewAntiReplayCacheWithCap_def toy_memory_def toy_quic_def)
  from expired_ticket_no_early_data [OF toy_x509_ok(1,3) t(1,2) m(2,1) e(1) t(4) e(2) t(5)] t(2,6,7) show ?thesis
    by (auto simp: toy_memory_def)
qed

end
