(* ===== verification/QuicVarint.thy ===== *)
theory QuicVarint
  imports Varint
begin

text \<open>
  The variable-length integers of the transport, \<open>src/quic-go/quicvarint/varint.go\<close>. A
  panic is an error value. The reader of \<open>Read\<close> is the list of the bytes it still holds.
\<close>

section \<open>Definitions\<close>

datatype quicvarint_panic = VarintLengthError | InvalidVarintLength | CannotEncode

datatype quicvarint_error = VarintEOF | VarintUnexpectedEOF

definition maxVarInt1 :: u64 where "maxVarInt1 = 63"
definition maxVarInt2 :: u64 where "maxVarInt2 = 16383"
definition maxVarInt4 :: u64 where "maxVarInt4 = 1073741823"
definition maxVarInt8 :: u64 where "maxVarInt8 = 4611686018427387903"

definition readByte :: "bytes \<Rightarrow> quicvarint_error + (byte \<times> bytes)" where
  "readByte r = (case r of [] \<Rightarrow> Inl VarintEOF | b # r \<Rightarrow> Inr (b, r))"

definition quicvarint_Read :: "bytes \<Rightarrow> quicvarint_error + (u64 \<times> bytes)" where
  "quicvarint_Read r =
    bindE (readByte r) (\<lambda>(firstByte, r).
    let l = (push_bit (unat (drop_bit 6 (firstByte AND 0xc0))) 1 :: nat);
        b1 = firstByte AND (0xff - 0xc0) in
    if l = 1 then Inr (ucast b1, r)
    else
      bindE (readByte r) (\<lambda>(b2, r).
      if l = 2 then Inr (ucast b2 + push_bit 8 (ucast b1), r)
      else
        bindE (readByte r) (\<lambda>(b3, r).
        bindE (readByte r) (\<lambda>(b4, r).
        if l = 4 then Inr (ucast b4 + push_bit 8 (ucast b3) + push_bit 16 (ucast b2) + push_bit 24 (ucast b1), r)
        else
          bindE (readByte r) (\<lambda>(b5, r).
          bindE (readByte r) (\<lambda>(b6, r).
          bindE (readByte r) (\<lambda>(b7, r).
          bindE (readByte r) (\<lambda>(b8, r).
          Inr (ucast b8 + push_bit 8 (ucast b7) + push_bit 16 (ucast b6) + push_bit 24 (ucast b5)
               + push_bit 32 (ucast b4) + push_bit 40 (ucast b3) + push_bit 48 (ucast b2) + push_bit 56 (ucast b1),
               r)))))))))"

definition quicvarint_Parse :: "bytes \<Rightarrow> quicvarint_error + (u64 \<times> nat)" where
  "quicvarint_Parse b =
    (if length b = 0 then Inl VarintEOF
     else
       (let first = b ! 0; tag = drop_bit 6 first in
        if tag = 0 then Inr (ucast (first AND 0x3f), 1)
        else if tag = 1 then
          (if length b < 2 then Inl VarintUnexpectedEOF
           else Inr (ucast (b ! 1) OR push_bit 8 (ucast (first AND 0x3f)), 2))
        else if tag = 2 then
          (if length b < 4 then Inl VarintUnexpectedEOF
           else Inr (ucast (b ! 3) OR push_bit 8 (ucast (b ! 2)) OR push_bit 16 (ucast (b ! 1))
                     OR push_bit 24 (ucast (first AND 0x3f)), 4))
        else
          (if length b < 8 then Inl VarintUnexpectedEOF
           else Inr (of_nat (unbe (take 8 b)) AND 0x3fffffffffffffff, 8))))"

definition quicvarint_Append :: "bytes \<Rightarrow> u64 \<Rightarrow> quicvarint_panic + bytes" where
  "quicvarint_Append b i =
    (if i \<le> maxVarInt1 then Inr (b @ [byte_at i 0])
     else if i \<le> maxVarInt2 then Inr (b @ [byte_at i 8 OR 0x40, byte_at i 0])
     else if i \<le> maxVarInt4 then
       Inr (b @ [byte_at i 24 OR 0x80, byte_at i 16, byte_at i 8, byte_at i 0])
     else if i \<le> maxVarInt8 then
       Inr (b @ [byte_at i 56 OR 0xc0, byte_at i 48, byte_at i 40, byte_at i 32,
                 byte_at i 24, byte_at i 16, byte_at i 8, byte_at i 0])
     else Inl VarintLengthError)"

definition quicvarint_Len :: "u64 \<Rightarrow> quicvarint_panic + nat" where
  "quicvarint_Len i =
    (if i \<le> maxVarInt1 then Inr 1
     else if i \<le> maxVarInt2 then Inr 2
     else if i \<le> maxVarInt4 then Inr 4
     else if i \<le> maxVarInt8 then Inr 8
     else Inl VarintLengthError)"

definition quicvarint_AppendWithLen :: "bytes \<Rightarrow> u64 \<Rightarrow> nat \<Rightarrow> quicvarint_panic + bytes" where
  "quicvarint_AppendWithLen b i len =
    (if len \<noteq> 1 \<and> len \<noteq> 2 \<and> len \<noteq> 4 \<and> len \<noteq> 8 then Inl InvalidVarintLength
     else
       bindE (quicvarint_Len i) (\<lambda>l.
       if l = len then quicvarint_Append b i
       else if l > len then Inl CannotEncode
       else
         (let b = (if len = 2 then b @ [0x40] else if len = 4 then b @ [0x80]
                   else if len = 8 then b @ [0xc0] else b);
              b = b @ replicate (len - l - 1) 0
          in Inr (b @ map (\<lambda>j. byte_at i (8 * (l - 1 - j))) [0..<l]))))"

section \<open>The value of an encoding\<close>

text \<open>\<open>prefixed b0 bs\<close>: the number an encoding with first byte b0 and further bytes bs carries.\<close>

definition prefixed :: "byte \<Rightarrow> bytes \<Rightarrow> nat" where
  "prefixed b0 bs = unat b0 mod 64 * 256 ^ length bs + unbe bs"

lemma prefixed_lt: "length bs \<le> 7 \<Longrightarrow> prefixed b0 bs < 4611686018427387904"
proof -
  assume len: "length bs \<le> 7"
  have "prefixed b0 bs < (unat b0 mod 64 + 1) * 256 ^ length bs"
    using unbe_lt [of bs] by (simp add: prefixed_def)
  also have "\<dots> \<le> 64 * 256 ^ (7 :: nat)"
    using len by (intro mult_le_mono power_increasing) (auto simp: Suc_le_eq)
  finally show ?thesis by simp
qed

lemma word_bytes:
  "(ucast (b :: byte) :: u64) = of_nat (unat b)" "push_bit k (of_nat n :: u64) = of_nat (n * 2 ^ k)"
  by (simp_all add: push_bit_eq_mult)

lemma low6: "(ucast (b AND 0x3f :: byte) :: u64) = of_nat (unat b mod 64)"
  by (simp add: word_bytes(1) unat_low6)

lemma varint_value_prefixed: "length bs \<le> 7 \<Longrightarrow> varint_value b0 bs = of_nat (prefixed b0 bs)"
  using unat_varint_value [of bs b0, folded prefixed_def] by (metis of_nat_unat ucast_id)

lemma varint_value_small:
  "varint_value b0 [] = ucast (b0 AND 0x3f)"
  "varint_value b0 [b1] = ucast b1 OR push_bit 8 (ucast (b0 AND 0x3f))"
  "varint_value b0 [b1, b2, b3] = ucast b3 OR push_bit 8 (ucast b2) OR push_bit 16 (ucast b1) OR push_bit 24 (ucast (b0 AND 0x3f))"
  by (simp_all add: varint_value_def push_bit_or push_bit_push_bit ac_simps)

lemma mask62:
  assumes "length bs = 7"
  shows "(of_nat (unbe (b0 # bs)) AND 0x3fffffffffffffff :: u64) = of_nat (prefixed b0 bs)"
proof -
  have "(0x3fffffffffffffff :: u64) = mask 62" by (simp add: mask_eq_exp_minus_1)
  then have "(of_nat (unbe (b0 # bs)) AND 0x3fffffffffffffff :: u64) = take_bit 62 (of_nat (unbe (b0 # bs)))"
    by (simp add: take_bit_eq_mask)
  also have "\<dots> = of_nat (unbe (b0 # bs) mod 2 ^ 62)" by (simp add: take_bit_of_nat take_bit_eq_mod [where 'a = nat])
  also have "unbe (b0 # bs) mod 2 ^ 62 = prefixed b0 bs"
  proof -
    have split62: "(q * 64 + r) * 256 ^ 7 = q * 2 ^ 62 + r * 256 ^ 7" for q r :: nat by simp
    have "unbe (b0 # bs) = unat b0 div 64 * 2 ^ 62 + prefixed b0 bs"
      unfolding unbe_Cons prefixed_def assms
      using split62 [of "unat b0 div 64" "unat b0 mod 64"] by simp
    then show ?thesis using prefixed_lt [of bs b0] assms by simp
  qed
  finally show ?thesis .
qed

definition enc_len :: "byte \<Rightarrow> nat" where "enc_len b0 = 2 ^ (unat b0 div 64)"

lemma tag_cases:
  "drop_bit 6 b0 = (0 :: byte) \<longleftrightarrow> unat b0 div 64 = 0" "drop_bit 6 b0 = (1 :: byte) \<longleftrightarrow> unat b0 div 64 = 1"
  "drop_bit 6 b0 = (2 :: byte) \<longleftrightarrow> unat b0 div 64 = 2"
  by (simp_all add: word_unat_eq_iff unat_high2)

lemma quicvarint_Parse_Cons:
  "quicvarint_Parse (b0 # bs) =
    (if length bs + 1 < enc_len b0 then Inl VarintUnexpectedEOF
     else Inr (of_nat (prefixed b0 (take (enc_len b0 - 1) bs)), enc_len b0))"
proof -
  have "unat b0 div 64 = 0 \<or> unat b0 div 64 = 1 \<or> unat b0 div 64 = 2 \<or> unat b0 div 64 = 3"
    using high2_lt [of b0] by linarith
  then show ?thesis
  proof (elim disjE)
    assume t: "unat b0 div 64 = 0"
    then show ?thesis
      by (simp add: quicvarint_Parse_def tag_cases enc_len_def Let_def prefixed_def low6)
  next
    assume t: "unat b0 div 64 = 1"
    show ?thesis
    proof (cases bs)
      case (Cons b1 r)
      then show ?thesis
        using t varint_value_small(2) [of b0 b1] varint_value_prefixed [of "[b1]" b0]
        by (simp add: quicvarint_Parse_def tag_cases enc_len_def Let_def)
    qed (use t in \<open>simp add: quicvarint_Parse_def tag_cases enc_len_def Let_def\<close>)
  next
    assume t: "unat b0 div 64 = 2"
    show ?thesis
    proof (cases "length bs < 3")
      case False
      then obtain b1 b2 b3 r where bs: "bs = b1 # b2 # b3 # r"
        by (metis Suc_le_length_iff not_less numeral_3_eq_3)
      show ?thesis
        using t varint_value_small(3) [of b0 b1 b2 b3] varint_value_prefixed [of "[b1, b2, b3]" b0]
        by (simp add: quicvarint_Parse_def tag_cases enc_len_def Let_def bs)
    qed (use t in \<open>simp add: quicvarint_Parse_def tag_cases enc_len_def Let_def\<close>)
  next
    assume t: "unat b0 div 64 = 3"
    show ?thesis
    proof (cases "length bs < 7")
      case False
      then show ?thesis
        using t mask62 [of "take 7 bs" b0]
        by (simp add: quicvarint_Parse_def tag_cases enc_len_def Let_def take_Cons')
    qed (use t in \<open>simp add: quicvarint_Parse_def tag_cases enc_len_def Let_def\<close>)
  qed
qed

lemma quicvarint_Parse_Nil [simp]: "quicvarint_Parse [] = Inl VarintEOF"
  by (simp add: quicvarint_Parse_def)

lemma enc_len_cases: "enc_len b0 \<in> {1, 2, 4, 8}"
  unfolding enc_len_def by (rule varint_pow_cases [OF high2_lt])

lemma quicvarint_Parse_pos:
  assumes "quicvarint_Parse b = Inr (v, n)"
  shows "0 < n" "n \<le> length b" "v \<le> MaxVarint"
proof -
  obtain b0 bs where b: "b = b0 # bs" using assms by (cases b) simp_all
  have "length (take (enc_len b0 - 1) bs) \<le> 7" using enc_len_cases [of b0] by auto
  from prefixed_lt [OF this, of b0] show "0 < n" "n \<le> length b" "v \<le> MaxVarint"
    using assms enc_len_cases [of b0]
    by (auto simp: b quicvarint_Parse_Cons u64_le_iff unat_of_nat_u64 split: if_splits)
qed

lemma quicvarint_Parse_len: "quicvarint_Parse b = Inr (v, n) \<Longrightarrow> 0 < n \<and> n \<le> length b"
  using quicvarint_Parse_pos by blast

section \<open>Writing\<close>

lemma quicvarint_limits:
  "maxVarInt1 = maxVarint1" "maxVarInt2 = maxVarint2" "maxVarInt4 = maxVarint4" "maxVarInt8 = MaxVarint"
  by (simp_all add: maxVarInt1_def maxVarInt2_def maxVarInt4_def maxVarInt8_def
      maxVarint1_def maxVarint2_def maxVarint4_def MaxVarint_def)

lemma quicvarint_Append_eq:
  "quicvarint_Append b i =
    (if i \<le> MaxVarint then Inr (b @ varint_image (VarintLen i) (unat i)) else Inl VarintLengthError)"
proof (cases "i \<le> MaxVarint")
  case True
  then have "\<not> i > MaxVarint" by simp
  then have "AppendVarint b i = Inr e \<Longrightarrow> quicvarint_Append b i = Inr e" for e
    using True by (simp add: AppendVarint_def quicvarint_Append_def quicvarint_limits split: if_splits)
  then show ?thesis using True by (simp add: AppendVarint_image)
next
  case False
  then show ?thesis by (auto simp: quicvarint_Append_def quicvarint_limits u64_le_iff)
qed

lemma quicvarint_Len_eq:
  "quicvarint_Len i = (if i \<le> MaxVarint then Inr (VarintLen i) else Inl VarintLengthError)"
  by (auto simp: quicvarint_Len_def quicvarint_limits VarintLen_def u64_le_iff)

lemma be_pad: "n < 256 ^ l \<Longrightarrow> be (k + l) n = replicate k 0 @ be l n"
proof (induction k)
  case (Suc k)
  then have "n < 256 ^ (k + l)" by (metis le_add2 order_less_le_trans power_increasing one_le_numeral)
  then show ?case using Suc by simp
qed simp

lemma bytes_at_be: "map (\<lambda>j. byte_at i (8 * (l - 1 - j))) [0..<l] = be l (unat i)"
proof -
  have "rev [0..<l] = map (\<lambda>j. l - 1 - j) [0..<l]" by (rule nth_equalityI) (auto simp: rev_nth)
  then show ?thesis using be_byte_at [of i l] by (simp add: comp_def)
qed

lemma VarintLen_lt: "v \<le> MaxVarint \<Longrightarrow> unat v < 256 ^ VarintLen v"
  by (auto simp: VarintLen_nat u64_le_iff)

lemma quicvarint_AppendWithLen_eq:
  assumes "i \<le> MaxVarint" and "len \<in> {1, 2, 4, 8}" and "VarintLen i \<le> len"
  shows "quicvarint_AppendWithLen b i len = Inr (b @ varint_image len (unat i))"
proof (cases "VarintLen i = len")
  case True
  then show ?thesis
    using assms by (auto simp: quicvarint_AppendWithLen_def quicvarint_Len_eq quicvarint_Append_eq)
next
  case False
  then have lt: "VarintLen i < len" using assms(3) by simp
  then obtain k where k: "len = Suc (k + VarintLen i)" by (metis less_imp_Suc_add add.commute)
  have "unat i < 256 ^ (k + VarintLen i)"
    using VarintLen_lt [OF assms(1)] by (metis le_add2 order_less_le_trans power_increasing one_le_numeral)
  then have "varint_image len (unat i) = of_nat (varint_tag len) # replicate k 0 @ be (VarintLen i) (unat i)"
    using be_pad [OF VarintLen_lt [OF assms(1)], of k] by (simp add: varint_image_def k)
  then show ?thesis
    using assms lt bytes_at_be [of i "VarintLen i"] VarintLen_cases [of i]
    by (auto simp: quicvarint_AppendWithLen_def quicvarint_Len_eq varint_tag_def Let_def k)
qed

section \<open>Reading back\<close>

lemma quicvarint_Parse_image:
  assumes "n < 64 * 256 ^ (L - 1)" and "L \<in> {1, 2, 4, 8}"
  shows "quicvarint_Parse (varint_image L n @ rest) = Inr (of_nat n, L)"
proof -
  obtain k where k: "L = 2 ^ k" "k < 4"
  proof -
    have "L = 2 ^ 0 \<or> L = 2 ^ 1 \<or> L = 2 ^ 2 \<or> L = 2 ^ 3" using assms(2) by auto
    then show thesis using that by fastforce
  qed
  define q where "q = n div 256 ^ (L - 1)"
  define b0 :: byte where "b0 = of_nat (q + varint_tag L)"
  have q: "q < 64" unfolding q_def using assms(1) by (simp add: less_mult_imp_div_less)
  have "q + 64 * k < 256" using q k(2) by linarith
  then have b0: "unat b0 = q + 64 * k"
    by (simp only: b0_def k(1) varint_tag_pow [OF k(2)] unat_of_nat_byte mod_less)
  have L: "enc_len b0 = L" using b0 q k by (simp add: enc_len_def)
  have "prefixed b0 (be (L - 1) n) = n"
    using b0 q div_mult_mod_eq [of n "256 ^ (L - 1)"] by (simp add: prefixed_def q_def)
  moreover have "0 < L" using k by simp
  ultimately have "quicvarint_Parse (b0 # be (L - 1) n @ rest) = Inr (of_nat n, L)"
    by (simp add: quicvarint_Parse_Cons L)
  then show ?thesis by (simp add: varint_image_def b0_def q_def)
qed

lemma VarintLen_room: "v \<le> MaxVarint \<Longrightarrow> unat v < 64 * 256 ^ (VarintLen v - 1)"
  by (auto simp: VarintLen_nat u64_le_iff)

lemma quicvarint_Parse_Append:
  assumes "i \<le> MaxVarint"
  shows "quicvarint_Parse (varint_image (VarintLen i) (unat i) @ rest) = Inr (i, VarintLen i)"
  using quicvarint_Parse_image [OF VarintLen_room [OF assms] VarintLen_cases] by simp

lemma high_bits: "unat (drop_bit 6 b AND 3 :: byte) = unat b div 64"
proof -
  have "drop_bit 6 b AND 3 = take_bit 2 (drop_bit 6 b)" by (simp add: take_bit_eq_mask mask_eq_exp_minus_1)
  then show ?thesis
    using high2_lt [of b] by (simp add: unsigned_take_bit_eq unat_high2 take_bit_eq_mod [where 'a = nat])
qed

lemma readByte_simps [simp]: "readByte [] = Inl VarintEOF" "readByte (x # r) = Inr (x, r)"
  by (simp_all add: readByte_def)

lemma word_sum_prefixed:
  "ucast b1 + push_bit 8 (ucast (b0 AND 0x3f)) = (of_nat (prefixed b0 [b1]) :: u64)"
  "ucast b3 + push_bit 8 (ucast b2) + push_bit 16 (ucast b1) + push_bit 24 (ucast (b0 AND 0x3f))
    = (of_nat (prefixed b0 [b1, b2, b3]) :: u64)"
  "ucast b7 + push_bit 8 (ucast b6) + push_bit 16 (ucast b5) + push_bit 24 (ucast b4) + push_bit 32 (ucast b3)
      + push_bit 40 (ucast b2) + push_bit 48 (ucast b1) + push_bit 56 (ucast (b0 AND 0x3f))
    = (of_nat (prefixed b0 [b1, b2, b3, b4, b5, b6, b7]) :: u64)"
  unfolding word_bytes low6 of_nat_add [symmetric]
  by (rule arg_cong [of _ _ of_nat], simp add: prefixed_def unbe_Cons unat_low6)+

lemma short_cases:
  "length bs < 3 \<Longrightarrow> bs = [] \<or> (\<exists>a. bs = [a]) \<or> (\<exists>a b. bs = [a, b])"
  "length bs < 7 \<Longrightarrow> bs = [] \<or> (\<exists>a. bs = [a]) \<or> (\<exists>a b. bs = [a, b]) \<or> (\<exists>a b c. bs = [a, b, c])
    \<or> (\<exists>a b c d. bs = [a, b, c, d]) \<or> (\<exists>a b c d e. bs = [a, b, c, d, e]) \<or> (\<exists>a b c d e f. bs = [a, b, c, d, e, f])"
  by (auto simp: less_Suc_eq eval_nat_numeral length_Suc_conv)

lemma long_cases:
  "3 \<le> length bs \<Longrightarrow> \<exists>b1 b2 b3 r. bs = b1 # b2 # b3 # r"
  "7 \<le> length bs \<Longrightarrow> \<exists>b1 b2 b3 b4 b5 b6 b7 r. bs = b1 # b2 # b3 # b4 # b5 # b6 # b7 # r"
  by (auto simp: eval_nat_numeral Suc_le_length_iff)

text \<open>The two readers of the transport agree; the streaming one reports a truncated integer as the end.\<close>

lemma quicvarint_Read_Parse:
  "quicvarint_Read b =
    (case quicvarint_Parse b of Inl _ \<Rightarrow> Inl VarintEOF | Inr (v, n) \<Rightarrow> Inr (v, drop n b))"
proof (cases b)
  case Nil
  then show ?thesis by (simp add: quicvarint_Read_def)
next
  case (Cons b0 bs)
  note read = Cons quicvarint_Read_def Let_def high_bits quicvarint_Parse_Cons enc_len_def word_sum_prefixed
  have "unat b0 div 64 = 0 \<or> unat b0 div 64 = 1 \<or> unat b0 div 64 = 2 \<or> unat b0 div 64 = 3"
    using high2_lt [of b0] by linarith
  then show ?thesis
  proof (elim disjE)
    assume "unat b0 div 64 = 0"
    then show ?thesis by (simp add: read prefixed_def low6)
  next
    assume "unat b0 div 64 = 1"
    then show ?thesis by (cases bs) (simp_all add: read)
  next
    assume t: "unat b0 div 64 = 2"
    show ?thesis
    proof (cases "length bs < 3")
      case True
      then show ?thesis using t short_cases(1) [OF True] by (elim disjE exE) (simp_all add: read)
    next
      case False
      then obtain b1 b2 b3 r where "bs = b1 # b2 # b3 # r" using long_cases(1) [of bs] by auto
      then show ?thesis using t by (simp add: read)
    qed
  next
    assume t: "unat b0 div 64 = 3"
    show ?thesis
    proof (cases "length bs < 7")
      case True
      then show ?thesis using t short_cases(2) [OF True] by (elim disjE exE) (simp_all add: read)
    next
      case False
      then obtain b1 b2 b3 b4 b5 b6 b7 r where "bs = b1 # b2 # b3 # b4 # b5 # b6 # b7 # r"
        using long_cases(2) [of bs] by auto
      then show ?thesis using t by (simp add: read)
    qed
  qed
qed

lemma quicvarint_ReadVarint:
  "ReadVarint b = Inr (v, n) \<longleftrightarrow> quicvarint_Parse b = Inr (v, n) \<and> n = VarintLen v"
proof
  assume r: "ReadVarint b = Inr (v, n)"
  note i = ReadVarint_Inr [OF r]
  then have "b = varint_image (VarintLen v) (unat v) @ drop n b" by (metis append_take_drop_id)
  then show "quicvarint_Parse b = Inr (v, n) \<and> n = VarintLen v"
    using quicvarint_Parse_Append [of v "drop n b"] i by metis
next
  assume p: "quicvarint_Parse b = Inr (v, n) \<and> n = VarintLen v"
  then obtain b0 bs where b: "b = b0 # bs" by (cases b) auto
  let ?t = "take (enc_len b0 - 1) bs"
  have n: "n = enc_len b0" "v = of_nat (prefixed b0 ?t)" "enc_len b0 \<le> length bs + 1"
    using p by (auto simp: b quicvarint_Parse_Cons split: if_splits)
  have len: "length ?t = enc_len b0 - 1" "length ?t \<le> 7" using n(3) enc_len_cases [of b0] by auto
  note r = ReadVarint_Cons [of "enc_len b0" b0 ?t "drop (enc_len b0 - 1) bs", unfolded append_take_drop_id, folded b]
  show "ReadVarint b = Inr (v, n)"
    using r len p n varint_value_prefixed [OF len(2), of b0] by (simp add: enc_len_def)
qed

text \<open>
  C39. The three readers of variable-length integers agree. \<open>Read\<close> returns what \<open>Parse\<close>
  returns and leaves the rest of the input, and the reader of the packet layer accepts
  exactly the integers \<open>Parse\<close> accepts in their shortest form.
\<close>

theorem varint_readers_agree:
  "quicvarint_Read b =
     (case quicvarint_Parse b of Inl _ \<Rightarrow> Inl VarintEOF | Inr (v, n) \<Rightarrow> Inr (v, drop n b))
   \<and> (ReadVarint b = Inr (v, n) \<longleftrightarrow> quicvarint_Parse b = Inr (v, n) \<and> quicvarint_Len v = Inr n)"
  using quicvarint_Read_Parse quicvarint_ReadVarint quicvarint_Parse_pos(3) by (auto simp: quicvarint_Len_eq)

end
