(* ===== verification/TransportParams.thy ===== *)
theory TransportParams
  imports QuicVarint
begin

text \<open>
  The transport parameters of \<open>src/quic-go/internal/wire/transport_parameters.go\<close>. Byte and
  stream counts are int64 values, kept as integers; a conversion to uint64 and the product
  of a duration wrap as in the code. The methods that read into a record return the new
  record, or an error, in which case no caller looks at the record. The random bytes of the
  greased parameter and the additional client parameters are arguments.
\<close>

section \<open>Data\<close>

datatype Perspective = PerspectiveClient | PerspectiveServer

definition MaxByteCount :: int where "MaxByteCount = 2 ^ 62 - 1"
definition InvalidByteCount :: int where "InvalidByteCount = - 1"
definition DefaultAckDelayExponent :: byte where "DefaultAckDelayExponent = 3"
definition DefaultActiveConnectionIDLimit :: u64 where "DefaultActiveConnectionIDLimit = 2"
definition MaxAckDelayExponent :: u64 where "MaxAckDelayExponent = 20"
definition DefaultMaxAckDelay :: int where "DefaultMaxAckDelay = 25 * 1000000"
definition MaxMaxAckDelay :: int where "MaxMaxAckDelay = (2 ^ 14 - 1) * 1000000"
definition MaxConnIDLen :: nat where "MaxConnIDLen = 20"
definition MinRemoteIdleTimeout :: int where "MinRemoteIdleTimeout = 5 * 1000000000"
definition MaxStreamCount :: int where "MaxStreamCount = 2 ^ 60"

definition transportParameterMarshalingVersion :: u64 where "transportParameterMarshalingVersion = 1"

definition originalDestinationConnectionIDParameterID :: u64 where "originalDestinationConnectionIDParameterID = 0x0"
definition maxIdleTimeoutParameterID :: u64 where "maxIdleTimeoutParameterID = 0x1"
definition statelessResetTokenParameterID :: u64 where "statelessResetTokenParameterID = 0x2"
definition maxUDPPayloadSizeParameterID :: u64 where "maxUDPPayloadSizeParameterID = 0x3"
definition initialMaxDataParameterID :: u64 where "initialMaxDataParameterID = 0x4"
definition initialMaxStreamDataBidiLocalParameterID :: u64 where "initialMaxStreamDataBidiLocalParameterID = 0x5"
definition initialMaxStreamDataBidiRemoteParameterID :: u64 where "initialMaxStreamDataBidiRemoteParameterID = 0x6"
definition initialMaxStreamDataUniParameterID :: u64 where "initialMaxStreamDataUniParameterID = 0x7"
definition initialMaxStreamsBidiParameterID :: u64 where "initialMaxStreamsBidiParameterID = 0x8"
definition initialMaxStreamsUniParameterID :: u64 where "initialMaxStreamsUniParameterID = 0x9"
definition ackDelayExponentParameterID :: u64 where "ackDelayExponentParameterID = 0xa"
definition maxAckDelayParameterID :: u64 where "maxAckDelayParameterID = 0xb"
definition disableActiveMigrationParameterID :: u64 where "disableActiveMigrationParameterID = 0xc"
definition preferredAddressParameterID :: u64 where "preferredAddressParameterID = 0xd"
definition activeConnectionIDLimitParameterID :: u64 where "activeConnectionIDLimitParameterID = 0xe"
definition initialSourceConnectionIDParameterID :: u64 where "initialSourceConnectionIDParameterID = 0xf"
definition retrySourceConnectionIDParameterID :: u64 where "retrySourceConnectionIDParameterID = 0x10"
definition maxDatagramFrameSizeParameterID :: u64 where "maxDatagramFrameSizeParameterID = 0x20"
definition resetStreamAtParameterID :: u64 where "resetStreamAtParameterID = 0x1d"
definition legacyResetStreamAtParameterID :: u64 where "legacyResetStreamAtParameterID = 0x17f7586d2cb571"
definition minAckDelayParameterID :: u64 where "minAckDelayParameterID = 0xff04de1b"

lemmas parameter_ids =
  originalDestinationConnectionIDParameterID_def maxIdleTimeoutParameterID_def statelessResetTokenParameterID_def
  maxUDPPayloadSizeParameterID_def initialMaxDataParameterID_def initialMaxStreamDataBidiLocalParameterID_def
  initialMaxStreamDataBidiRemoteParameterID_def initialMaxStreamDataUniParameterID_def
  initialMaxStreamsBidiParameterID_def initialMaxStreamsUniParameterID_def ackDelayExponentParameterID_def
  maxAckDelayParameterID_def disableActiveMigrationParameterID_def preferredAddressParameterID_def
  activeConnectionIDLimitParameterID_def initialSourceConnectionIDParameterID_def
  retrySourceConnectionIDParameterID_def maxDatagramFrameSizeParameterID_def resetStreamAtParameterID_def
  legacyResetStreamAtParameterID_def minAckDelayParameterID_def

text \<open>An address and port, or none when the \<open>netip.AddrPort\<close> is not valid.\<close>

record PreferredAddress =
  pa_IPv4 :: "(bytes \<times> u16) option"
  pa_IPv6 :: "(bytes \<times> u16) option"
  pa_ConnectionID :: bytes
  pa_StatelessResetToken :: bytes

record TransportParameters =
  InitialMaxStreamDataBidiLocal :: int
  InitialMaxStreamDataBidiRemote :: int
  InitialMaxStreamDataUni :: int
  InitialMaxData :: int
  MaxAckDelay :: int
  AckDelayExponent :: byte
  DisableActiveMigration :: bool
  MaxUDPPayloadSize :: int
  MaxUniStreamNum :: int
  MaxBidiStreamNum :: int
  MaxIdleTimeout :: int
  tp_PreferredAddress :: "PreferredAddress option"
  OriginalDestinationConnectionID :: bytes
  InitialSourceConnectionID :: bytes
  RetrySourceConnectionID :: "bytes option"
  tp_StatelessResetToken :: "bytes option"
  ActiveConnectionIDLimit :: u64
  MaxDatagramFrameSize :: int
  EnableResetStreamAt :: bool
  MinAckDelay :: "int option"

text \<open>The zero value of the struct.\<close>

definition zeroTransportParameters :: TransportParameters where
  "zeroTransportParameters =
    \<lparr>InitialMaxStreamDataBidiLocal = 0, InitialMaxStreamDataBidiRemote = 0, InitialMaxStreamDataUni = 0,
     InitialMaxData = 0, MaxAckDelay = 0, AckDelayExponent = 0, DisableActiveMigration = False,
     MaxUDPPayloadSize = 0, MaxUniStreamNum = 0, MaxBidiStreamNum = 0, MaxIdleTimeout = 0,
     tp_PreferredAddress = None, OriginalDestinationConnectionID = [], InitialSourceConnectionID = [],
     RetrySourceConnectionID = None, tp_StatelessResetToken = None, ActiveConnectionIDLimit = 0,
     MaxDatagramFrameSize = 0, EnableResetStreamAt = False, MinAckDelay = None\<rparr>"

datatype tp_error =
    TpVarint quicvarint_error
  | TpRemaining
  | TpSentByClient u64
  | TpWrongLength u64
  | TpConnIDLen
  | TpUnknownInTicket u64
  | TpMinAckDelay
  | TpMissing u64
  | TpDuplicate u64
  | TpNumber u64
  | TpInvalidValue u64
  | TpEOF
  | TpTicketVersion

text \<open>int64 and uint64 conversions, and the int64 product of a duration.\<close>

definition uint64_of :: "int \<Rightarrow> u64" where "uint64_of x = word_of_int x"
definition int64_of :: "int \<Rightarrow> int" where "int64_of x = sint (word_of_int x :: u64)"

text \<open>The int64 quotient of a duration, which is rounded towards zero.\<close>

definition duration_quot :: "int \<Rightarrow> int \<Rightarrow> int" where
  "duration_quot d k = (if d \<ge> 0 then d div k else - ((- d) div k))"

section \<open>Reading\<close>

definition readNumericTransportParameter ::
  "TransportParameters \<Rightarrow> bytes \<Rightarrow> u64 \<Rightarrow> nat \<Rightarrow> tp_error + TransportParameters" where
  "readNumericTransportParameter p b paramID expectedLen =
    bindE (mapE (\<lambda>_. TpNumber paramID) (quicvarint_Parse b)) (\<lambda>(val, l).
    let v = int (unat val) in
    if l \<noteq> expectedLen then Inl (TpWrongLength paramID)
    else if paramID = initialMaxStreamDataBidiLocalParameterID then Inr (p\<lparr>InitialMaxStreamDataBidiLocal := v\<rparr>)
    else if paramID = initialMaxStreamDataBidiRemoteParameterID then Inr (p\<lparr>InitialMaxStreamDataBidiRemote := v\<rparr>)
    else if paramID = initialMaxStreamDataUniParameterID then Inr (p\<lparr>InitialMaxStreamDataUni := v\<rparr>)
    else if paramID = initialMaxDataParameterID then Inr (p\<lparr>InitialMaxData := v\<rparr>)
    else if paramID = initialMaxStreamsBidiParameterID then
      (if v > MaxStreamCount then Inl (TpInvalidValue paramID) else Inr (p\<lparr>MaxBidiStreamNum := v\<rparr>))
    else if paramID = initialMaxStreamsUniParameterID then
      (if v > MaxStreamCount then Inl (TpInvalidValue paramID) else Inr (p\<lparr>MaxUniStreamNum := v\<rparr>))
    else if paramID = maxIdleTimeoutParameterID then
      Inr (p\<lparr>MaxIdleTimeout := max MinRemoteIdleTimeout (int64_of (v * 1000000))\<rparr>)
    else if paramID = maxUDPPayloadSizeParameterID then
      (if val < 1200 then Inl (TpInvalidValue paramID) else Inr (p\<lparr>MaxUDPPayloadSize := v\<rparr>))
    else if paramID = ackDelayExponentParameterID then
      (if val > MaxAckDelayExponent then Inl (TpInvalidValue paramID) else Inr (p\<lparr>AckDelayExponent := ucast val\<rparr>))
    else if paramID = maxAckDelayParameterID then
      (if val > uint64_of (MaxMaxAckDelay div 1000000) then Inl (TpInvalidValue paramID)
       else Inr (p\<lparr>MaxAckDelay := int64_of (v * 1000000)\<rparr>))
    else if paramID = activeConnectionIDLimitParameterID then
      (if val < 2 then Inl (TpInvalidValue paramID) else Inr (p\<lparr>ActiveConnectionIDLimit := val\<rparr>))
    else if paramID = maxDatagramFrameSizeParameterID then Inr (p\<lparr>MaxDatagramFrameSize := v\<rparr>)
    else if paramID = minAckDelayParameterID then
      (let mad = int64_of (v * 1000) in
       Inr (p\<lparr>MinAckDelay := Some (if mad < 0 then 2 ^ 63 - 1 else mad)\<rparr>))
    else Inl (TpNumber paramID))"

definition addrPort :: "bytes \<Rightarrow> nat \<Rightarrow> bytes \<Rightarrow> (bytes \<times> u16) option" where
  "addrPort addr n portBytes =
    (let port = (of_nat (unbe portBytes) :: u16) in
     if port \<noteq> 0 \<and> addr \<noteq> replicate n 0 then Some (addr, port) else None)"

definition readPreferredAddress ::
  "TransportParameters \<Rightarrow> bytes \<Rightarrow> nat \<Rightarrow> tp_error + TransportParameters" where
  "readPreferredAddress p b expectedLen =
    (let remainingLen = length b in
     if length b < 4 + 2 + 16 + 2 + 1 then Inl TpEOF
     else
       (let ip4 = addrPort (take 4 b) 4 (take 2 (drop 4 b));
            b = drop (4 + 2) b;
            ip6 = addrPort (take 16 b) 16 (take 2 (drop 16 b));
            b = drop (16 + 2) b;
            connIDLen = unat (b ! 0);
            b = drop 1 b in
        if connIDLen = 0 \<or> connIDLen > MaxConnIDLen then Inl (TpInvalidValue preferredAddressParameterID)
        else if length b < connIDLen + 16 then Inl TpEOF
        else
          (let cid = take connIDLen b;
               b = drop connIDLen b;
               token = take 16 b;
               b = drop 16 b in
           if remainingLen - length b \<noteq> expectedLen then Inl (TpWrongLength preferredAddressParameterID)
           else
             Inr (p\<lparr>tp_PreferredAddress := Some
               \<lparr>pa_IPv4 = ip4, pa_IPv6 = ip6, pa_ConnectionID = cid, pa_StatelessResetToken = token\<rparr>\<rparr>))))"

text \<open>The variables of the loop of \<open>unmarshal\<close>.\<close>

record tp_loop =
  tp_params :: TransportParameters
  parameterIDs :: "u64 list"
  readOriginalDestinationConnectionID :: bool
  readInitialSourceConnectionID :: bool

definition numericParameterIDs :: "u64 list" where
  "numericParameterIDs =
    [maxIdleTimeoutParameterID, maxUDPPayloadSizeParameterID, initialMaxDataParameterID,
     initialMaxStreamDataBidiLocalParameterID, initialMaxStreamDataBidiRemoteParameterID,
     initialMaxStreamDataUniParameterID, initialMaxStreamsBidiParameterID, initialMaxStreamsUniParameterID,
     maxAckDelayParameterID, maxDatagramFrameSizeParameterID, ackDelayExponentParameterID,
     activeConnectionIDLimitParameterID, minAckDelayParameterID]"

text \<open>The body of the switch, for a parameter of length \<open>paramLen\<close> at the front of b.\<close>

definition unmarshal_switch ::
  "Perspective \<Rightarrow> bool \<Rightarrow> tp_loop \<Rightarrow> u64 \<Rightarrow> nat \<Rightarrow> bytes \<Rightarrow> tp_error + (tp_loop \<times> bytes)" where
  "unmarshal_switch sentBy fromSessionTicket st paramID paramLen b =
    (let p = tp_params st in
     if paramID \<in> set numericParameterIDs then
       bindE (readNumericTransportParameter p b paramID paramLen) (\<lambda>p.
       Inr (st\<lparr>tp_params := p\<rparr>, drop paramLen b))
     else if paramID = preferredAddressParameterID then
       (if sentBy = PerspectiveClient then Inl (TpSentByClient paramID)
        else bindE (readPreferredAddress p b paramLen) (\<lambda>p. Inr (st\<lparr>tp_params := p\<rparr>, drop paramLen b)))
     else if paramID = disableActiveMigrationParameterID then
       (if paramLen \<noteq> 0 then Inl (TpWrongLength paramID)
        else Inr (st\<lparr>tp_params := p\<lparr>DisableActiveMigration := True\<rparr>\<rparr>, b))
     else if paramID = statelessResetTokenParameterID then
       (if sentBy = PerspectiveClient then Inl (TpSentByClient paramID)
        else if paramLen \<noteq> 16 then Inl (TpWrongLength paramID)
        else if length b < 16 then Inl TpEOF
        else Inr (st\<lparr>tp_params := p\<lparr>tp_StatelessResetToken := Some (take 16 b)\<rparr>\<rparr>, drop 16 b))
     else if paramID = originalDestinationConnectionIDParameterID then
       (if sentBy = PerspectiveClient then Inl (TpSentByClient paramID)
        else if paramLen > MaxConnIDLen then Inl TpConnIDLen
        else Inr (st\<lparr>tp_params := p\<lparr>OriginalDestinationConnectionID := take paramLen b\<rparr>,
                     readOriginalDestinationConnectionID := True\<rparr>, drop paramLen b))
     else if paramID = initialSourceConnectionIDParameterID then
       (if paramLen > MaxConnIDLen then Inl TpConnIDLen
        else Inr (st\<lparr>tp_params := p\<lparr>InitialSourceConnectionID := take paramLen b\<rparr>,
                     readInitialSourceConnectionID := True\<rparr>, drop paramLen b))
     else if paramID = retrySourceConnectionIDParameterID then
       (if sentBy = PerspectiveClient then Inl (TpSentByClient paramID)
        else if paramLen > MaxConnIDLen then Inl TpConnIDLen
        else Inr (st\<lparr>tp_params := p\<lparr>RetrySourceConnectionID := Some (take paramLen b)\<rparr>\<rparr>, drop paramLen b))
     else if paramID = resetStreamAtParameterID \<or> paramID = legacyResetStreamAtParameterID then
       (if paramLen \<noteq> 0 then Inl (TpWrongLength paramID)
        else Inr (st\<lparr>tp_params := p\<lparr>EnableResetStreamAt := True\<rparr>\<rparr>, b))
     else if fromSessionTicket then Inl (TpUnknownInTicket paramID)
     else Inr (st, drop paramLen b))"

definition unmarshal_param ::
  "Perspective \<Rightarrow> bool \<Rightarrow> tp_loop \<Rightarrow> bytes \<Rightarrow> tp_error + (tp_loop \<times> bytes)" where
  "unmarshal_param sentBy fromSessionTicket st b =
    bindE (mapE TpVarint (quicvarint_Parse b)) (\<lambda>(paramID, l).
    let b = drop l b in
    bindE (mapE TpVarint (quicvarint_Parse b)) (\<lambda>(paramLen, l).
    let b = drop l b in
    if length b < unat paramLen then Inl TpRemaining
    else
      unmarshal_switch sentBy fromSessionTicket (st\<lparr>parameterIDs := parameterIDs st @ [paramID]\<rparr>)
        paramID (unat paramLen) b))"

lemma unmarshal_switch_length:
  "unmarshal_switch sentBy ticket st i n b = Inr (st', b') \<Longrightarrow> length b' \<le> length b"
  by (auto simp: unmarshal_switch_def Let_def bindE_Inr_iff split: if_splits)

lemma unmarshal_param_shorter:
  assumes "unmarshal_param sentBy ticket st b = Inr (st', b')"
  shows "length b' < length b"
  using assms
  by (auto simp: unmarshal_param_def Let_def bindE_Inr_iff split: if_splits
      dest!: unmarshal_switch_length quicvarint_Parse_len)

function unmarshal_loop ::
  "Perspective \<Rightarrow> bool \<Rightarrow> tp_loop \<Rightarrow> bytes \<Rightarrow> tp_error + tp_loop" where
  "unmarshal_loop sentBy fromSessionTicket st b =
    (if length b = 0 then Inr st
     else
       (case unmarshal_param sentBy fromSessionTicket st b of
          Inl e \<Rightarrow> Inl e
        | Inr (st', b') \<Rightarrow> unmarshal_loop sentBy fromSessionTicket st' b'))"
  by pat_completeness auto
termination
  by (relation "measure (\<lambda>(sentBy, ticket, st, b). length b)") (auto dest: unmarshal_param_shorter)

declare unmarshal_loop.simps [simp del]

fun firstDuplicate :: "u64 list \<Rightarrow> u64 option" where
  "firstDuplicate (x # y # ids) = (if x = y then Some x else firstDuplicate (y # ids))"
| "firstDuplicate ids = None"

definition unmarshal ::
  "TransportParameters \<Rightarrow> bytes \<Rightarrow> Perspective \<Rightarrow> bool \<Rightarrow> tp_error + TransportParameters" where
  "unmarshal p b sentBy fromSessionTicket =
    bindE (unmarshal_loop sentBy fromSessionTicket
      \<lparr>tp_params = p\<lparr>AckDelayExponent := DefaultAckDelayExponent, MaxAckDelay := DefaultMaxAckDelay,
                     MaxDatagramFrameSize := InvalidByteCount,
                     ActiveConnectionIDLimit := DefaultActiveConnectionIDLimit\<rparr>,
       parameterIDs = [], readOriginalDestinationConnectionID = False,
       readInitialSourceConnectionID = False\<rparr> b) (\<lambda>st.
    let p = tp_params st in
    if (case MinAckDelay p of None \<Rightarrow> False | Some m \<Rightarrow> m > MaxAckDelay p) then Inl TpMinAckDelay
    else if \<not> fromSessionTicket \<and> sentBy = PerspectiveServer \<and> \<not> readOriginalDestinationConnectionID st
    then Inl (TpMissing originalDestinationConnectionIDParameterID)
    else if \<not> fromSessionTicket \<and> \<not> readInitialSourceConnectionID st
    then Inl (TpMissing initialSourceConnectionIDParameterID)
    else
      (let p = (if \<not> fromSessionTicket \<and> MaxUDPPayloadSize p = 0 then p\<lparr>MaxUDPPayloadSize := MaxByteCount\<rparr>
                else p) in
       case firstDuplicate (sort (parameterIDs st)) of
         Some i \<Rightarrow> Inl (TpDuplicate i)
       | None \<Rightarrow> Inr p))"

definition Unmarshal :: "TransportParameters \<Rightarrow> bytes \<Rightarrow> Perspective \<Rightarrow> tp_error + TransportParameters" where
  "Unmarshal p data sentBy = unmarshal p data sentBy False"

definition UnmarshalFromSessionTicket :: "TransportParameters \<Rightarrow> bytes \<Rightarrow> tp_error + TransportParameters" where
  "UnmarshalFromSessionTicket p b =
    bindE (mapE TpVarint (quicvarint_Parse b)) (\<lambda>(version, l).
    if version \<noteq> transportParameterMarshalingVersion then Inl TpTicketVersion
    else unmarshal p (drop l b) PerspectiveServer True)"

section \<open>Writing\<close>

definition marshalVarintParam :: "bytes \<Rightarrow> u64 \<Rightarrow> u64 \<Rightarrow> quicvarint_panic + bytes" where
  "marshalVarintParam b i val =
    bindE (quicvarint_Append b i) (\<lambda>b.
    bindE (quicvarint_Len val) (\<lambda>l.
    bindE (quicvarint_Append b (of_nat l)) (\<lambda>b.
    quicvarint_Append b val)))"

text \<open>An identifier and a length, followed by the bytes of the parameter.\<close>

definition appendParam :: "bytes \<Rightarrow> u64 \<Rightarrow> nat \<Rightarrow> bytes \<Rightarrow> quicvarint_panic + bytes" where
  "appendParam b i len payload =
    bindE (quicvarint_Append b i) (\<lambda>b.
    bindE (quicvarint_Append b (of_nat len)) (\<lambda>b. Inr (b @ payload)))"

definition appendAddrPort :: "(bytes \<times> u16) option \<Rightarrow> nat \<Rightarrow> bytes" where
  "appendAddrPort a n =
    (case a of None \<Rightarrow> replicate (n + 2) 0 | Some (addr, port) \<Rightarrow> addr @ be 2 (unat port))"

definition preferredAddressBytes :: "PreferredAddress \<Rightarrow> bytes" where
  "preferredAddressBytes a =
    appendAddrPort (pa_IPv4 a) 4 @ appendAddrPort (pa_IPv6 a) 16
    @ [of_nat (length (pa_ConnectionID a))] @ pa_ConnectionID a @ pa_StatelessResetToken a"

text \<open>\<open>whenE\<close> runs a writer under a condition.\<close>

definition whenE :: "bool \<Rightarrow> (bytes \<Rightarrow> 'e + bytes) \<Rightarrow> bytes \<Rightarrow> 'e + bytes" where
  "whenE c f b = (if c then f b else Inr b)"

definition marshalServerParams :: "TransportParameters \<Rightarrow> bytes \<Rightarrow> quicvarint_panic + bytes" where
  "marshalServerParams p b =
    bindE (case tp_StatelessResetToken p of
             None \<Rightarrow> Inr b
           | Some token \<Rightarrow> appendParam b statelessResetTokenParameterID 16 token) (\<lambda>b.
    bindE (appendParam b originalDestinationConnectionIDParameterID
      (length (OriginalDestinationConnectionID p)) (OriginalDestinationConnectionID p)) (\<lambda>b.
    case tp_PreferredAddress p of
      None \<Rightarrow> Inr b
    | Some a \<Rightarrow>
        appendParam b preferredAddressParameterID (4 + 2 + 16 + 2 + 1 + length (pa_ConnectionID a) + 16)
          (preferredAddressBytes a)))"

primrec marshalAdditional :: "(u64 \<times> bytes) list \<Rightarrow> bytes \<Rightarrow> quicvarint_panic + bytes" where
  "marshalAdditional [] b = Inr b"
| "marshalAdditional (kv # kvs) b =
    bindE (appendParam b (fst kv) (length (snd kv)) (snd kv)) (marshalAdditional kvs)"

definition Marshal ::
  "TransportParameters \<Rightarrow> Perspective \<Rightarrow> bytes \<Rightarrow> (u64 \<times> bytes) list \<Rightarrow> quicvarint_panic + bytes" where
  "Marshal p pers random additional =
    (let len = unat (random ! 1 mod 16) in
     bindE (appendParam [] (27 + 31 * ucast (random ! 0)) len (take len (drop 2 random))) (\<lambda>b.
     bindE (marshalVarintParam b initialMaxStreamDataBidiLocalParameterID (uint64_of (InitialMaxStreamDataBidiLocal p))) (\<lambda>b.
     bindE (marshalVarintParam b initialMaxStreamDataBidiRemoteParameterID (uint64_of (InitialMaxStreamDataBidiRemote p))) (\<lambda>b.
     bindE (marshalVarintParam b initialMaxStreamDataUniParameterID (uint64_of (InitialMaxStreamDataUni p))) (\<lambda>b.
     bindE (marshalVarintParam b initialMaxDataParameterID (uint64_of (InitialMaxData p))) (\<lambda>b.
     bindE (marshalVarintParam b initialMaxStreamsBidiParameterID (uint64_of (MaxBidiStreamNum p))) (\<lambda>b.
     bindE (marshalVarintParam b initialMaxStreamsUniParameterID (uint64_of (MaxUniStreamNum p))) (\<lambda>b.
     bindE (marshalVarintParam b maxIdleTimeoutParameterID (uint64_of (duration_quot (MaxIdleTimeout p) 1000000))) (\<lambda>b.
     bindE (whenE (MaxUDPPayloadSize p > 0)
       (\<lambda>b. marshalVarintParam b maxUDPPayloadSizeParameterID (uint64_of (MaxUDPPayloadSize p))) b) (\<lambda>b.
     bindE (whenE (MaxAckDelay p \<noteq> DefaultMaxAckDelay)
       (\<lambda>b. marshalVarintParam b maxAckDelayParameterID (uint64_of (duration_quot (MaxAckDelay p) 1000000))) b) (\<lambda>b.
     bindE (whenE (AckDelayExponent p \<noteq> DefaultAckDelayExponent)
       (\<lambda>b. marshalVarintParam b ackDelayExponentParameterID (ucast (AckDelayExponent p))) b) (\<lambda>b.
     bindE (whenE (DisableActiveMigration p) (\<lambda>b. appendParam b disableActiveMigrationParameterID 0 []) b) (\<lambda>b.
     bindE (whenE (pers = PerspectiveServer) (marshalServerParams p) b) (\<lambda>b.
     bindE (whenE (ActiveConnectionIDLimit p \<noteq> DefaultActiveConnectionIDLimit)
       (\<lambda>b. marshalVarintParam b activeConnectionIDLimitParameterID (ActiveConnectionIDLimit p)) b) (\<lambda>b.
     bindE (appendParam b initialSourceConnectionIDParameterID
       (length (InitialSourceConnectionID p)) (InitialSourceConnectionID p)) (\<lambda>b.
     bindE (case RetrySourceConnectionID p of
              None \<Rightarrow> Inr b
            | Some cid \<Rightarrow>
                whenE (pers = PerspectiveServer) (\<lambda>b. appendParam b retrySourceConnectionIDParameterID (length cid) cid) b) (\<lambda>b.
     bindE (whenE (MaxDatagramFrameSize p \<noteq> InvalidByteCount)
       (\<lambda>b. marshalVarintParam b maxDatagramFrameSizeParameterID (uint64_of (MaxDatagramFrameSize p))) b) (\<lambda>b.
     bindE (whenE (EnableResetStreamAt p)
       (\<lambda>b. bindE (appendParam b resetStreamAtParameterID 0 []) (\<lambda>b.
            appendParam b legacyResetStreamAtParameterID 0 [])) b) (\<lambda>b.
     bindE (case MinAckDelay p of
              None \<Rightarrow> Inr b
            | Some d \<Rightarrow> marshalVarintParam b minAckDelayParameterID (uint64_of (duration_quot d 1000))) (\<lambda>b.
     whenE (pers = PerspectiveClient) (marshalAdditional additional) b))))))))))))))))))))"

definition MarshalForSessionTicket :: "TransportParameters \<Rightarrow> bytes \<Rightarrow> quicvarint_panic + bytes" where
  "MarshalForSessionTicket p b =
    bindE (quicvarint_Append b transportParameterMarshalingVersion) (\<lambda>b.
    bindE (marshalVarintParam b initialMaxStreamDataBidiLocalParameterID (uint64_of (InitialMaxStreamDataBidiLocal p))) (\<lambda>b.
    bindE (marshalVarintParam b initialMaxStreamDataBidiRemoteParameterID (uint64_of (InitialMaxStreamDataBidiRemote p))) (\<lambda>b.
    bindE (marshalVarintParam b initialMaxStreamDataUniParameterID (uint64_of (InitialMaxStreamDataUni p))) (\<lambda>b.
    bindE (marshalVarintParam b initialMaxDataParameterID (uint64_of (InitialMaxData p))) (\<lambda>b.
    bindE (marshalVarintParam b initialMaxStreamsBidiParameterID (uint64_of (MaxBidiStreamNum p))) (\<lambda>b.
    bindE (marshalVarintParam b initialMaxStreamsUniParameterID (uint64_of (MaxUniStreamNum p))) (\<lambda>b.
    bindE (marshalVarintParam b activeConnectionIDLimitParameterID (ActiveConnectionIDLimit p)) (\<lambda>b.
    bindE (whenE (MaxDatagramFrameSize p \<noteq> InvalidByteCount)
      (\<lambda>b. marshalVarintParam b maxDatagramFrameSizeParameterID (uint64_of (MaxDatagramFrameSize p))) b) (\<lambda>b.
    whenE (EnableResetStreamAt p) (\<lambda>b. appendParam b resetStreamAtParameterID 0 []) b)))))))))"

section \<open>Checks on resumption\<close>

definition datagramShrunk :: "TransportParameters \<Rightarrow> TransportParameters \<Rightarrow> bool" where
  "datagramShrunk p saved \<longleftrightarrow>
     MaxDatagramFrameSize saved \<noteq> InvalidByteCount
     \<and> (MaxDatagramFrameSize p = InvalidByteCount \<or> MaxDatagramFrameSize p < MaxDatagramFrameSize saved)"

definition ValidFor0RTT :: "TransportParameters \<Rightarrow> TransportParameters \<Rightarrow> bool" where
  "ValidFor0RTT p saved =
    (if datagramShrunk p saved then False
     else if EnableResetStreamAt saved \<and> \<not> EnableResetStreamAt p then False
     else
       InitialMaxStreamDataBidiLocal p \<ge> InitialMaxStreamDataBidiLocal saved
       \<and> InitialMaxStreamDataBidiRemote p \<ge> InitialMaxStreamDataBidiRemote saved
       \<and> InitialMaxStreamDataUni p \<ge> InitialMaxStreamDataUni saved
       \<and> InitialMaxData p \<ge> InitialMaxData saved
       \<and> MaxBidiStreamNum p \<ge> MaxBidiStreamNum saved
       \<and> MaxUniStreamNum p \<ge> MaxUniStreamNum saved
       \<and> ActiveConnectionIDLimit p = ActiveConnectionIDLimit saved)"

definition ValidForUpdate :: "TransportParameters \<Rightarrow> TransportParameters \<Rightarrow> bool" where
  "ValidForUpdate p saved =
    (if datagramShrunk p saved then False
     else if EnableResetStreamAt saved \<and> \<not> EnableResetStreamAt p then False
     else
       ActiveConnectionIDLimit p \<ge> ActiveConnectionIDLimit saved
       \<and> InitialMaxData p \<ge> InitialMaxData saved
       \<and> InitialMaxStreamDataBidiLocal p \<ge> InitialMaxStreamDataBidiLocal saved
       \<and> InitialMaxStreamDataBidiRemote p \<ge> InitialMaxStreamDataBidiRemote saved
       \<and> InitialMaxStreamDataUni p \<ge> InitialMaxStreamDataUni saved
       \<and> MaxBidiStreamNum p \<ge> MaxBidiStreamNum saved
       \<and> MaxUniStreamNum p \<ge> MaxUniStreamNum saved)"

end
