(* ===== verification/TransportParamsRoundtrip.thy ===== *)
theory TransportParamsRoundtrip
  imports TransportParams
begin

text \<open>
  What a peer reads of the transport parameters: the parser of a list of encoded
  parameters, one by one, and the record it ends with.
\<close>

section \<open>One encoded parameter\<close>

definition vimg :: "u64 \<Rightarrow> bytes" where "vimg v = varint_image (VarintLen v) (unat v)"

definition param_enc :: "u64 \<times> bytes \<Rightarrow> bytes" where
  "param_enc x = vimg (fst x) @ vimg (of_nat (length (snd x))) @ snd x"

lemma Append_vimg: "v \<le> MaxVarint \<Longrightarrow> quicvarint_Append b v = Inr (b @ vimg v)"
  by (simp add: quicvarint_Append_eq vimg_def)

lemma Parse_vimg [simp]: "v \<le> MaxVarint \<Longrightarrow> quicvarint_Parse (vimg v @ rest) = Inr (v, length (vimg v))"
  by (simp add: quicvarint_Parse_Append vimg_def)

lemma Parse_vimg_only [simp]: "v \<le> MaxVarint \<Longrightarrow> quicvarint_Parse (vimg v) = Inr (v, length (vimg v))"
  using Parse_vimg [of v "[]"] by simp

lemma length_vimg [simp]: "length (vimg v) = VarintLen v"
  by (simp add: vimg_def)

lemma vimg_Nil [simp]: "vimg v \<noteq> []"
  by (metis VarintLen_pos length_vimg less_numeral_extra(3) list.size(3))

lemma VarintLen_nz [simp]: "VarintLen v \<noteq> 0"
  using VarintLen_pos [of v] by simp

lemma of_nat_len_le: "n < 2 ^ 62 \<Longrightarrow> (of_nat n :: u64) \<le> MaxVarint"
  by (simp add: u64_le_iff unat_of_nat_u64)

lemma unat_of_nat_len: "n < 2 ^ 62 \<Longrightarrow> unat (of_nat n :: u64) = n"
  by (simp add: unat_of_nat_u64)

lemma appendParam_enc:
  assumes "i \<le> MaxVarint" and "length w < 2 ^ 62" and "len = length w"
  shows "appendParam b i len w = Inr (b @ param_enc (i, w))"
  using assms by (simp add: appendParam_def Append_vimg of_nat_len_le param_enc_def)

lemma VarintLen_small: "(of_nat (VarintLen v) :: u64) \<le> MaxVarint"
  using VarintLen_cases [of v] by (intro of_nat_len_le) auto

lemma marshalVarintParam_enc:
  assumes "i \<le> MaxVarint" and "v \<le> MaxVarint"
  shows "marshalVarintParam b i v = Inr (b @ param_enc (i, vimg v))"
  using assms VarintLen_small
  by (simp add: marshalVarintParam_def Append_vimg quicvarint_Len_eq param_enc_def)

section \<open>Reading a list of parameters\<close>

definition apply_param :: "Perspective \<Rightarrow> bool \<Rightarrow> u64 \<times> bytes \<Rightarrow> tp_loop \<Rightarrow> tp_error + tp_loop" where
  "apply_param s t x st =
    bindE (unmarshal_switch s t (st\<lparr>parameterIDs := parameterIDs st @ [fst x]\<rparr>) (fst x) (length (snd x)) (snd x))
      (\<lambda>r. Inr (fst r))"

primrec apply_params :: "Perspective \<Rightarrow> bool \<Rightarrow> (u64 \<times> bytes) list \<Rightarrow> tp_loop \<Rightarrow> tp_error + tp_loop" where
  "apply_params s t [] st = Inr st"
| "apply_params s t (x # xs) st = bindE (apply_param s t x st) (apply_params s t xs)"

lemma bindE_assoc: "bindE (bindE m f) g = bindE m (\<lambda>x. bindE (f x) g)"
  by (cases m) simp_all

lemma apply_params_append:
  "apply_params s t (xs @ ys) st = bindE (apply_params s t xs st) (apply_params s t ys)"
proof (induction xs arbitrary: st)
  case (Cons x xs)
  then show ?case by (cases "apply_param s t x st") simp_all
qed simp

text \<open>The switch looks only at the bytes of the parameter.\<close>

definition self_contained :: "u64 \<times> bytes \<Rightarrow> bool" where
  "self_contained x \<longleftrightarrow> fst x \<le> MaxVarint \<and> length (snd x) < 2 ^ 62 \<and>
    (\<forall>s t st rest. unmarshal_switch s t st (fst x) (length (snd x)) (snd x @ rest)
      = bindE (unmarshal_switch s t st (fst x) (length (snd x)) (snd x)) (\<lambda>r. Inr (fst r, rest)))"

lemma unmarshal_loop_Nil [simp]: "unmarshal_loop s t st [] = Inr st"
  by (subst unmarshal_loop.simps) simp

lemma unmarshal_loop_param:
  assumes "self_contained x"
  shows "unmarshal_loop s t st (param_enc x @ rest)
    = bindE (apply_param s t x st) (\<lambda>st. unmarshal_loop s t st rest)"
proof -
  have x: "fst x \<le> MaxVarint" "length (snd x) < 2 ^ 62" using assms by (simp_all add: self_contained_def)
  have "unmarshal_param s t st (param_enc x @ rest) = bindE (apply_param s t x st) (\<lambda>st. Inr (st, rest))"
    using assms x
    by (simp add: unmarshal_param_def param_enc_def of_nat_len_le unat_of_nat_len Let_def self_contained_def
        apply_param_def bindE_assoc)
  then show ?thesis
    by (subst unmarshal_loop.simps) (cases "apply_param s t x st", simp_all add: param_enc_def)
qed

lemma unmarshal_loop_params:
  "list_all self_contained xs \<Longrightarrow> unmarshal_loop s t st (concat (map param_enc xs)) = apply_params s t xs st"
proof (induction xs arbitrary: st)
  case (Cons x xs)
  then have "unmarshal_loop s t st (param_enc x @ concat (map param_enc xs))
      = bindE (apply_param s t x st) (\<lambda>st. unmarshal_loop s t st (concat (map param_enc xs)))"
    by (intro unmarshal_loop_param) simp
  then show ?case using Cons by (cases "apply_param s t x st") simp_all
qed simp

lemma apply_param_ids:
  assumes "apply_param s t x st = Inr st'"
  shows "parameterIDs st' = parameterIDs st @ [fst x]"
  using assms
  by (auto simp: apply_param_def unmarshal_switch_def Let_def bindE_Inr_iff split: if_splits)

lemma apply_params_ids:
  "apply_params s t xs st = Inr st' \<Longrightarrow> parameterIDs st' = parameterIDs st @ map fst xs"
  by (induction xs arbitrary: st) (auto simp: bindE_Inr_iff dest: apply_param_ids)

section \<open>The parameters that are self-contained\<close>

lemma self_contained_number:
  assumes "i \<in> set numericParameterIDs" and "v \<le> MaxVarint"
  shows "self_contained (i, vimg v)"
proof -
  have "i \<le> MaxVarint" using assms(1)
    by (auto simp: numericParameterIDs_def parameter_ids MaxVarint_def)
  moreover have "VarintLen v < 2 ^ 62" using VarintLen_cases [of v] by auto
  ultimately show ?thesis
    using assms
    by (simp add: self_contained_def unmarshal_switch_def readNumericTransportParameter_def Let_def bindE_assoc)
qed

lemma self_contained_plain:
  assumes "i \<notin> set numericParameterIDs" and "i \<noteq> preferredAddressParameterID"
    and "i \<le> MaxVarint" and "length w < 2 ^ 62"
  shows "self_contained (i, w)"
  using assms by (auto simp: self_contained_def unmarshal_switch_def Let_def)

definition addr_ok :: "nat \<Rightarrow> (bytes \<times> u16) option \<Rightarrow> bool" where
  "addr_ok n a \<longleftrightarrow> (\<forall>addr port. a = Some (addr, port) \<longrightarrow> length addr = n \<and> addr \<noteq> replicate n 0 \<and> port \<noteq> 0)"

definition preferred_ok :: "PreferredAddress \<Rightarrow> bool" where
  "preferred_ok a \<longleftrightarrow> addr_ok 4 (pa_IPv4 a) \<and> addr_ok 16 (pa_IPv6 a)
     \<and> 0 < length (pa_ConnectionID a) \<and> length (pa_ConnectionID a) \<le> 20 \<and> length (pa_StatelessResetToken a) = 16"

lemma length_appendAddrPort: "addr_ok n a \<Longrightarrow> length (appendAddrPort a n) = n + 2"
  by (auto simp: appendAddrPort_def addr_ok_def split: option.split)

lemma addrPort_append:
  assumes "addr_ok n a"
  shows "addrPort (take n (appendAddrPort a n @ rest)) n (take 2 (drop n (appendAddrPort a n @ rest))) = a"
proof (cases a)
  case None
  have "replicate (n + 2) (0 :: byte) = replicate n 0 @ [0, 0]" by (induction n) simp_all
  then show ?thesis using None by (simp add: appendAddrPort_def addrPort_def)
next
  case (Some ap)
  obtain addr port where ap: "ap = (addr, port)" by (cases ap)
  then have ok: "length addr = n" "addr \<noteq> replicate n 0" "port \<noteq> 0" using assms Some by (auto simp: addr_ok_def)
  have "unat port < 65536" using unsigned_less [of port] by simp
  then have "(of_nat (unbe (be 2 (unat port))) :: u16) = port" by (simp add: unbe_be_id)
  then show ?thesis using ok by (simp add: Some ap appendAddrPort_def addrPort_def)
qed

lemma readPreferredAddress_bytes:
  assumes "preferred_ok a"
  shows "readPreferredAddress p (preferredAddressBytes a @ rest) (length (preferredAddressBytes a))
    = Inr (p\<lparr>tp_PreferredAddress := Some a\<rparr>)"
proof -
  define n where "n = length (pa_ConnectionID a)"
  define r5 where "r5 = pa_StatelessResetToken a @ rest"
  define r4 where "r4 = pa_ConnectionID a @ r5"
  define r3 where "r3 = of_nat n # r4"
  define r2 where "r2 = appendAddrPort (pa_IPv6 a) 16 @ r3"
  define b where "b = appendAddrPort (pa_IPv4 a) 4 @ r2"
  have ok: "addr_ok 4 (pa_IPv4 a)" "addr_ok 16 (pa_IPv6 a)" "0 < n" "n \<le> 20" "length (pa_StatelessResetToken a) = 16"
    using assms by (simp_all add: preferred_ok_def n_def)
  have l: "length (appendAddrPort (pa_IPv4 a) 4) = 6" "length (appendAddrPort (pa_IPv6 a) 16) = 18"
    using ok by (simp_all add: length_appendAddrPort)
  have b: "preferredAddressBytes a @ rest = b"
    by (simp add: preferredAddressBytes_def b_def r2_def r3_def r4_def r5_def n_def)
  have read: "addrPort (take 4 b) 4 (take 2 (drop 4 b)) = pa_IPv4 a" "drop 6 b = r2"
    "addrPort (take 16 r2) 16 (take 2 (drop 16 r2)) = pa_IPv6 a" "drop 18 r2 = r3"
    "r3 ! 0 = of_nat n" "drop (Suc 0) r3 = r4" "take n r4 = pa_ConnectionID a" "drop n r4 = r5"
    "take 16 r5 = pa_StatelessResetToken a" "drop 16 r5 = rest"
    using addrPort_append [OF ok(1), of r2] addrPort_append [OF ok(2), of r3] l ok(5)
    unfolding b_def r2_def r3_def r4_def r5_def n_def by simp_all
  have len: "length b = 41 + n + length rest" "length r4 = n + 16 + length rest"
    "length r5 = 16 + length rest"
    "length (preferredAddressBytes a) = 41 + n"
    using l ok by (simp_all add: b_def r2_def r3_def r4_def r5_def n_def preferredAddressBytes_def)
  have "unat (of_nat n :: byte) = n" using ok(4) by (simp add: unat_of_nat_byte)
  then show ?thesis
    unfolding b using ok(3,4) by (simp add: readPreferredAddress_def Let_def read len MaxConnIDLen_def del: drop_drop)
qed

lemma self_contained_preferred:
  assumes "preferred_ok a"
  shows "self_contained (preferredAddressParameterID, preferredAddressBytes a)"
proof -
  have len: "length (preferredAddressBytes a) < 2 ^ 62"
    using assms by (auto simp: preferred_ok_def preferredAddressBytes_def length_appendAddrPort)
  have "preferredAddressParameterID \<notin> set numericParameterIDs" "preferredAddressParameterID \<le> MaxVarint"
    by (simp_all add: numericParameterIDs_def parameter_ids MaxVarint_def)
  then show ?thesis
    using readPreferredAddress_bytes [OF assms] readPreferredAddress_bytes [OF assms, of _ "[]"] len
    by (simp add: self_contained_def unmarshal_switch_def Let_def)
qed

section \<open>The list a sender writes\<close>

abbreviation "optp c x \<equiv> (if c then [x] else [])"

definition number_param :: "u64 \<Rightarrow> int \<Rightarrow> u64 \<times> bytes" where
  "number_param i v = (i, vimg (uint64_of v))"

definition server_params :: "TransportParameters \<Rightarrow> (u64 \<times> bytes) list" where
  "server_params p =
    (case tp_StatelessResetToken p of None \<Rightarrow> [] | Some token \<Rightarrow> [(statelessResetTokenParameterID, token)])
    @ [(originalDestinationConnectionIDParameterID, OriginalDestinationConnectionID p)]
    @ (case tp_PreferredAddress p of None \<Rightarrow> [] | Some a \<Rightarrow> [(preferredAddressParameterID, preferredAddressBytes a)])"

definition limit_params :: "TransportParameters \<Rightarrow> (u64 \<times> bytes) list" where
  "limit_params p =
    [number_param initialMaxStreamDataBidiLocalParameterID (InitialMaxStreamDataBidiLocal p),
     number_param initialMaxStreamDataBidiRemoteParameterID (InitialMaxStreamDataBidiRemote p),
     number_param initialMaxStreamDataUniParameterID (InitialMaxStreamDataUni p),
     number_param initialMaxDataParameterID (InitialMaxData p),
     number_param initialMaxStreamsBidiParameterID (MaxBidiStreamNum p),
     number_param initialMaxStreamsUniParameterID (MaxUniStreamNum p)]"

definition retry_params :: "TransportParameters \<Rightarrow> Perspective \<Rightarrow> (u64 \<times> bytes) list" where
  "retry_params p pers =
    (case RetrySourceConnectionID p of None \<Rightarrow> []
       | Some cid \<Rightarrow> optp (pers = PerspectiveServer) (retrySourceConnectionIDParameterID, cid))"

definition known_params :: "TransportParameters \<Rightarrow> Perspective \<Rightarrow> (u64 \<times> bytes) list" where
  "known_params p pers =
    limit_params p
    @ [number_param maxIdleTimeoutParameterID (MaxIdleTimeout p div 1000000)]
    @ optp (MaxUDPPayloadSize p > 0) (number_param maxUDPPayloadSizeParameterID (MaxUDPPayloadSize p))
    @ optp (MaxAckDelay p \<noteq> DefaultMaxAckDelay) (number_param maxAckDelayParameterID (MaxAckDelay p div 1000000))
    @ optp (AckDelayExponent p \<noteq> DefaultAckDelayExponent)
        (ackDelayExponentParameterID, vimg (ucast (AckDelayExponent p)))
    @ optp (DisableActiveMigration p) (disableActiveMigrationParameterID, [])
    @ (if pers = PerspectiveServer then server_params p else [])
    @ optp (ActiveConnectionIDLimit p \<noteq> DefaultActiveConnectionIDLimit)
        (activeConnectionIDLimitParameterID, vimg (ActiveConnectionIDLimit p))
    @ [(initialSourceConnectionIDParameterID, InitialSourceConnectionID p)]
    @ retry_params p pers
    @ optp (MaxDatagramFrameSize p \<noteq> InvalidByteCount) (number_param maxDatagramFrameSizeParameterID (MaxDatagramFrameSize p))
    @ (if EnableResetStreamAt p then [(resetStreamAtParameterID, []), (legacyResetStreamAtParameterID, [])] else [])
    @ (case MinAckDelay p of None \<Rightarrow> [] | Some d \<Rightarrow> [number_param minAckDelayParameterID (d div 1000)])"

definition sent_params :: "TransportParameters \<Rightarrow> Perspective \<Rightarrow> bytes \<Rightarrow> (u64 \<times> bytes) list" where
  "sent_params p pers random =
    [(27 + 31 * ucast (random ! 0), take (unat (random ! 1 mod 16)) (drop 2 random))] @ known_params p pers"

text \<open>What a sender may configure: every count is a varint, and every field in its range.\<close>

abbreviation "count_ok v \<equiv> 0 \<le> v \<and> v < 2 ^ 62"

definition params_ok :: "TransportParameters \<Rightarrow> bool" where
  "params_ok p \<longleftrightarrow>
     count_ok (InitialMaxStreamDataBidiLocal p) \<and> count_ok (InitialMaxStreamDataBidiRemote p)
     \<and> count_ok (InitialMaxStreamDataUni p) \<and> count_ok (InitialMaxData p)
     \<and> 0 \<le> MaxBidiStreamNum p \<and> MaxBidiStreamNum p \<le> 2 ^ 60
     \<and> 0 \<le> MaxUniStreamNum p \<and> MaxUniStreamNum p \<le> 2 ^ 60
     \<and> 0 \<le> MaxIdleTimeout p \<and> MaxIdleTimeout p < 2 ^ 63
     \<and> (MaxUDPPayloadSize p = 0 \<or> 1200 \<le> MaxUDPPayloadSize p \<and> MaxUDPPayloadSize p < 2 ^ 62)
     \<and> 0 \<le> MaxAckDelay p \<and> MaxAckDelay p < 2 ^ 14 * 1000000
     \<and> AckDelayExponent p \<le> 20
     \<and> 2 \<le> ActiveConnectionIDLimit p \<and> ActiveConnectionIDLimit p \<le> MaxVarint
     \<and> length (OriginalDestinationConnectionID p) \<le> 20 \<and> length (InitialSourceConnectionID p) \<le> 20
     \<and> (\<forall>cid. RetrySourceConnectionID p = Some cid \<longrightarrow> length cid \<le> 20)
     \<and> (\<forall>token. tp_StatelessResetToken p = Some token \<longrightarrow> length token = 16)
     \<and> (\<forall>a. tp_PreferredAddress p = Some a \<longrightarrow> preferred_ok a)
     \<and> (MaxDatagramFrameSize p = InvalidByteCount \<or> count_ok (MaxDatagramFrameSize p))
     \<and> (\<forall>d. MinAckDelay p = Some d \<longrightarrow> 0 \<le> d \<and> d div 1000 * 1000 \<le> MaxAckDelay p div 1000000 * 1000000)"

lemma uint64_of_value: "count_ok v \<Longrightarrow> uint (uint64_of v) = v"
  by (simp add: uint64_of_def uint_word_of_int_eq take_bit_int_eq_self)

lemma uint64_of_le: "count_ok v \<Longrightarrow> uint64_of v \<le> MaxVarint"
  using uint64_of_value [of v] by (simp add: word_le_def MaxVarint_def)

lemma params_counts:
  assumes "params_ok p"
  shows "count_ok (InitialMaxStreamDataBidiLocal p)" "count_ok (InitialMaxStreamDataBidiRemote p)"
    "count_ok (InitialMaxStreamDataUni p)" "count_ok (InitialMaxData p)" "count_ok (MaxBidiStreamNum p)"
    "count_ok (MaxUniStreamNum p)" "count_ok (MaxIdleTimeout p div 1000000)" "count_ok (MaxAckDelay p div 1000000)"
    "MaxUDPPayloadSize p > 0 \<Longrightarrow> count_ok (MaxUDPPayloadSize p)"
    "MaxDatagramFrameSize p \<noteq> InvalidByteCount \<Longrightarrow> count_ok (MaxDatagramFrameSize p)"
    "MinAckDelay p = Some d \<Longrightarrow> count_ok (d div 1000)"
  using assms by (auto simp: params_ok_def)

lemma ids_le:
  "originalDestinationConnectionIDParameterID \<le> MaxVarint" "maxIdleTimeoutParameterID \<le> MaxVarint"
  "statelessResetTokenParameterID \<le> MaxVarint" "maxUDPPayloadSizeParameterID \<le> MaxVarint"
  "initialMaxDataParameterID \<le> MaxVarint" "initialMaxStreamDataBidiLocalParameterID \<le> MaxVarint"
  "initialMaxStreamDataBidiRemoteParameterID \<le> MaxVarint" "initialMaxStreamDataUniParameterID \<le> MaxVarint"
  "initialMaxStreamsBidiParameterID \<le> MaxVarint" "initialMaxStreamsUniParameterID \<le> MaxVarint"
  "ackDelayExponentParameterID \<le> MaxVarint" "maxAckDelayParameterID \<le> MaxVarint"
  "disableActiveMigrationParameterID \<le> MaxVarint" "preferredAddressParameterID \<le> MaxVarint"
  "activeConnectionIDLimitParameterID \<le> MaxVarint" "initialSourceConnectionIDParameterID \<le> MaxVarint"
  "retrySourceConnectionIDParameterID \<le> MaxVarint" "maxDatagramFrameSizeParameterID \<le> MaxVarint"
  "resetStreamAtParameterID \<le> MaxVarint" "legacyResetStreamAtParameterID \<le> MaxVarint"
  "minAckDelayParameterID \<le> MaxVarint"
  by (simp_all add: parameter_ids MaxVarint_def)

text \<open>Every writer appends the encoding of the parameters it is responsible for.\<close>

abbreviation "enc_all xs \<equiv> concat (map param_enc xs)"

lemma marshal_number:
  "i \<le> MaxVarint \<Longrightarrow> count_ok v \<Longrightarrow> marshalVarintParam b i (uint64_of v) = Inr (b @ param_enc (number_param i v))"
  by (simp add: number_param_def marshalVarintParam_enc uint64_of_le)

lemma when_number:
  "i \<le> MaxVarint \<Longrightarrow> (c \<Longrightarrow> count_ok v) \<Longrightarrow>
    whenE c (\<lambda>b. marshalVarintParam b i (uint64_of v)) b = Inr (b @ enc_all (optp c (number_param i v)))"
  by (simp add: whenE_def marshal_number)

lemma when_varint:
  "i \<le> MaxVarint \<Longrightarrow> v \<le> MaxVarint \<Longrightarrow>
    whenE c (\<lambda>b. marshalVarintParam b i v) b = Inr (b @ enc_all (optp c (i, vimg v)))"
  by (simp add: whenE_def marshalVarintParam_enc)

lemma when_empty:
  "i \<le> MaxVarint \<Longrightarrow> whenE c (\<lambda>b. appendParam b i 0 []) b = Inr (b @ enc_all (optp c (i, [])))"
  by (simp add: whenE_def appendParam_enc)

lemma when_append: "whenE c (\<lambda>b. Inr (b @ e)) b = Inr (b @ (if c then e else []))"
  by (simp add: whenE_def)

lemma enc_optp:
  "enc_all (optp c x) = (if c then param_enc x else [])"
  "enc_all (if c then [x, y] else []) = (if c then param_enc x @ param_enc y else [])"
  by simp_all

lemma marshalServerParams_enc:
  assumes "params_ok p"
  shows "marshalServerParams p b = Inr (b @ enc_all (server_params p))"
proof -
  have "length (OriginalDestinationConnectionID p) < 2 ^ 62" using assms by (simp add: params_ok_def)
  moreover have "appendParam b statelessResetTokenParameterID 16 token = Inr (b @ param_enc (statelessResetTokenParameterID, token))"
    if "tp_StatelessResetToken p = Some token" for b token
    using assms that by (intro appendParam_enc) (auto simp: params_ok_def ids_le)
  moreover have "appendParam b preferredAddressParameterID (4 + 2 + 16 + 2 + 1 + length (pa_ConnectionID a) + 16)
      (preferredAddressBytes a) = Inr (b @ param_enc (preferredAddressParameterID, preferredAddressBytes a))"
    if "tp_PreferredAddress p = Some a" for b a
  proof -
    have "preferred_ok a" using assms that by (simp add: params_ok_def)
    then show ?thesis
      by (intro appendParam_enc) (auto simp: ids_le preferred_ok_def preferredAddressBytes_def length_appendAddrPort)
  qed
  ultimately show ?thesis
    by (auto simp: marshalServerParams_def server_params_def appendParam_enc ids_le split: option.split)
qed

lemma ucast_byte_le: "(ucast (b :: byte) :: u64) \<le> MaxVarint"
  unfolding word_bytes(1) by (rule of_nat_len_le, rule less_trans [OF unat_byte_lt]) simp

lemma greased_id: "unat (27 + 31 * ucast (r :: byte) :: u64) = 27 + 31 * unat r"
proof -
  have "unat r < 256" by simp
  moreover have "(27 + 31 * ucast r :: u64) = of_nat (27 + 31 * unat r)" by simp
  ultimately show ?thesis by (simp only: unat_of_nat_u64)
qed

lemma greased_le: "(27 + 31 * ucast (r :: byte) :: u64) \<le> MaxVarint"
  using unat_byte_lt [of r] unfolding u64_le_iff varint_limits greased_id by linarith

lemma Marshal_enc:
  assumes ok: "params_ok p" and random: "length random = 18"
  shows "Marshal p pers random [] = Inr (enc_all (sent_params p pers random))"
proof -
  let ?len = "unat (random ! 1 mod 16)"
  have "unat (random ! 1 mod 16) < 16" by (simp add: unat_mod)
  then have len: "length (take ?len (drop 2 random)) = ?len" "?len < 2 ^ 62" using random by simp_all
  have grease: "appendParam [] (27 + 31 * ucast (random ! 0)) ?len (take ?len (drop 2 random))
      = Inr (param_enc (27 + 31 * ucast (random ! 0), take ?len (drop 2 random)))"
    by (subst appendParam_enc) (use len in \<open>simp_all add: greased_le\<close>)
  note bounds = ok [unfolded params_ok_def]
  have q: "duration_quot (MaxIdleTimeout p) 1000000 = MaxIdleTimeout p div 1000000"
    "duration_quot (MaxAckDelay p) 1000000 = MaxAckDelay p div 1000000"
    using bounds by (simp_all add: duration_quot_def)
  have ranges: "length (InitialSourceConnectionID p) < 2 ^ 62" using bounds by simp
  have retry: "(case RetrySourceConnectionID p of None \<Rightarrow> Inr b | Some cid \<Rightarrow>
      whenE (pers = PerspectiveServer) (\<lambda>b. appendParam b retrySourceConnectionIDParameterID (length cid) cid) b)
    = Inr (b @ enc_all (retry_params p pers))" for b
    using bounds by (auto simp: retry_params_def whenE_def appendParam_enc ids_le split: option.split)
  have reset: "whenE (EnableResetStreamAt p) (\<lambda>b. bindE (appendParam b resetStreamAtParameterID 0 []) (\<lambda>b.
      appendParam b legacyResetStreamAtParameterID 0 [])) b
    = Inr (b @ enc_all (if EnableResetStreamAt p then [(resetStreamAtParameterID, []), (legacyResetStreamAtParameterID, [])] else []))" for b
    by (simp add: whenE_def appendParam_enc ids_le)
  have minack: "(case MinAckDelay p of None \<Rightarrow> Inr b
      | Some d \<Rightarrow> marshalVarintParam b minAckDelayParameterID (uint64_of (duration_quot d 1000)))
    = Inr (b @ enc_all (case MinAckDelay p of None \<Rightarrow> [] | Some d \<Rightarrow> [number_param minAckDelayParameterID (d div 1000)]))" for b
  proof (cases "MinAckDelay p")
    case (Some d)
    then have "0 \<le> d" using bounds by auto
    then show ?thesis using Some params_counts(11) [OF ok Some] by (simp add: marshal_number ids_le duration_quot_def)
  qed simp
  have server: "whenE (pers = PerspectiveServer) (marshalServerParams p) b
    = Inr (b @ enc_all (if pers = PerspectiveServer then server_params p else []))" for b
    by (simp add: whenE_def marshalServerParams_enc [OF ok])
  have none: "whenE c (marshalAdditional []) b = Inr b" for c b by (simp add: whenE_def)
  show ?thesis
    unfolding Marshal_def Let_def grease
    using bounds ranges params_counts [OF ok]
    by (simp add: q marshal_number when_number when_varint when_append enc_optp marshalVarintParam_enc ucast_byte_le when_empty appendParam_enc ids_le retry reset minack server none
        sent_params_def known_params_def limit_params_def split del: if_split)
qed

section \<open>What the receiver makes of it\<close>

lemma int64_of_id: "- (2 ^ 63) \<le> x \<Longrightarrow> x < 2 ^ 63 \<Longrightarrow> int64_of x = x"
  by (simp add: int64_of_def sint_sbintrunc' signed_take_bit_int_eq_self)

text \<open>\<open>seen_param i st p\<close>: the state after the parameters i, which gave the record p.\<close>

definition seen_param :: "u64 list \<Rightarrow> tp_loop \<Rightarrow> TransportParameters \<Rightarrow> tp_loop" where
  "seen_param i st p = st\<lparr>parameterIDs := parameterIDs st @ i, tp_params := p\<rparr>"

lemma seen_param_sel [simp]:
  "tp_params (seen_param i st p) = p" "parameterIDs (seen_param i st p) = parameterIDs st @ i"
  "readOriginalDestinationConnectionID (seen_param i st p) = readOriginalDestinationConnectionID st"
  "readInitialSourceConnectionID (seen_param i st p) = readInitialSourceConnectionID st"
  by (simp_all add: seen_param_def)

lemma seen_param_seen [simp]: "seen_param j (seen_param i st p) q = seen_param (i @ j) st q"
  by (simp add: seen_param_def)

lemma apply_number:
  assumes "i \<in> set numericParameterIDs"
  shows "apply_param s t (i, vimg v) st
    = bindE (readNumericTransportParameter (tp_params st) (vimg v) i (VarintLen v)) (\<lambda>p. Inr (seen_param [i] st p))"
  using assms by (simp add: apply_param_def unmarshal_switch_def Let_def bindE_assoc seen_param_def)

lemma apply_limits:
  assumes "params_ok p"
  shows "apply_params s t (limit_params p) st = Inr (seen_param (map fst (limit_params p)) st
    ((tp_params st)\<lparr>InitialMaxStreamDataBidiLocal := InitialMaxStreamDataBidiLocal p,
      InitialMaxStreamDataBidiRemote := InitialMaxStreamDataBidiRemote p,
      InitialMaxStreamDataUni := InitialMaxStreamDataUni p, InitialMaxData := InitialMaxData p,
      MaxBidiStreamNum := MaxBidiStreamNum p, MaxUniStreamNum := MaxUniStreamNum p\<rparr>))"
  using params_counts [OF assms] assms [unfolded params_ok_def]
  by (simp add: limit_params_def number_param_def apply_number numericParameterIDs_def readNumericTransportParameter_def
      uint64_of_le uint64_of_value parameter_ids MaxStreamCount_def Let_def)

text \<open>The record a receiver holds when a sender in the role \<open>pers\<close> marshals p.\<close>

definition received :: "Perspective \<Rightarrow> TransportParameters \<Rightarrow> TransportParameters" where
  "received pers p = p
    \<lparr>MaxAckDelay := (if MaxAckDelay p = DefaultMaxAckDelay then DefaultMaxAckDelay
                    else MaxAckDelay p div 1000000 * 1000000),
     MaxUDPPayloadSize := (if MaxUDPPayloadSize p = 0 then MaxByteCount else MaxUDPPayloadSize p),
     MaxIdleTimeout := max MinRemoteIdleTimeout (MaxIdleTimeout p div 1000000 * 1000000),
     tp_PreferredAddress := (if pers = PerspectiveServer then tp_PreferredAddress p else None),
     OriginalDestinationConnectionID := (if pers = PerspectiveServer then OriginalDestinationConnectionID p else []),
     RetrySourceConnectionID := (if pers = PerspectiveServer then RetrySourceConnectionID p else None),
     tp_StatelessResetToken := (if pers = PerspectiveServer then tp_StatelessResetToken p else None),
     MinAckDelay := map_option (\<lambda>d. d div 1000 * 1000) (MinAckDelay p)\<rparr>"

lemmas apply_number_simps = apply_number numericParameterIDs_def readNumericTransportParameter_def
  number_param_def uint64_of_le uint64_of_value parameter_ids Let_def

lemma apply_idle:
  assumes "params_ok p"
  shows "apply_params s t [number_param maxIdleTimeoutParameterID (MaxIdleTimeout p div 1000000)] st
    = Inr (seen_param [maxIdleTimeoutParameterID] st
        ((tp_params st)\<lparr>MaxIdleTimeout := max MinRemoteIdleTimeout (MaxIdleTimeout p div 1000000 * 1000000)\<rparr>))"
proof -
  have "MaxIdleTimeout p div 1000000 * 1000000 \<le> MaxIdleTimeout p" "0 \<le> MaxIdleTimeout p div 1000000"
    using assms by (auto simp: params_ok_def)
  then have "int64_of (MaxIdleTimeout p div 1000000 * 1000000) = MaxIdleTimeout p div 1000000 * 1000000"
    using assms by (intro int64_of_id) (auto simp: params_ok_def)
  then show ?thesis
    using params_counts(7) [OF assms] by (simp add: apply_number_simps)
qed

lemma apply_udp:
  assumes "params_ok p"
  shows "apply_params s t (optp (MaxUDPPayloadSize p > 0) (number_param maxUDPPayloadSizeParameterID (MaxUDPPayloadSize p))) st
    = Inr (seen_param (optp (MaxUDPPayloadSize p > 0) maxUDPPayloadSizeParameterID) st
        ((tp_params st)\<lparr>MaxUDPPayloadSize := if MaxUDPPayloadSize p > 0 then MaxUDPPayloadSize p
           else MaxUDPPayloadSize (tp_params st)\<rparr>))"
proof (cases "MaxUDPPayloadSize p > 0")
  case True
  then have "uint (uint64_of (MaxUDPPayloadSize p)) = MaxUDPPayloadSize p" "1200 \<le> MaxUDPPayloadSize p"
    using params_counts(9) [OF assms] assms by (auto simp: uint64_of_value params_ok_def)
  moreover from this have "\<not> uint64_of (MaxUDPPayloadSize p) < 1200" by (simp add: word_less_def)
  ultimately show ?thesis
    using True params_counts(9) [OF assms] by (simp add: apply_number_simps)
qed (simp add: seen_param_def)

lemma apply_ackdelay:
  assumes "params_ok p"
  shows "apply_params s t (optp (MaxAckDelay p \<noteq> DefaultMaxAckDelay) (number_param maxAckDelayParameterID (MaxAckDelay p div 1000000))) st
    = Inr (seen_param (optp (MaxAckDelay p \<noteq> DefaultMaxAckDelay) maxAckDelayParameterID) st
        ((tp_params st)\<lparr>MaxAckDelay := if MaxAckDelay p \<noteq> DefaultMaxAckDelay then MaxAckDelay p div 1000000 * 1000000
           else MaxAckDelay (tp_params st)\<rparr>))"
proof -
  have b: "0 \<le> MaxAckDelay p div 1000000" "MaxAckDelay p div 1000000 \<le> 16383" using assms by (auto simp: params_ok_def)
  then have "int64_of (MaxAckDelay p div 1000000 * 1000000) = MaxAckDelay p div 1000000 * 1000000"
    by (intro int64_of_id) auto
  moreover have "uint (uint64_of (MaxAckDelay p div 1000000)) = MaxAckDelay p div 1000000"
    using b by (intro uint64_of_value) auto
  moreover from this b have "\<not> uint64_of (MaxAckDelay p div 1000000) > uint64_of 16383"
    by (simp add: word_less_def uint64_of_value)
  ultimately show ?thesis
    using params_counts(8) [OF assms] by (simp add: apply_number_simps MaxMaxAckDelay_def seen_param_def)
qed

lemma apply_exponent:
  assumes "params_ok p"
  shows "apply_params s t (optp (AckDelayExponent p \<noteq> DefaultAckDelayExponent) (ackDelayExponentParameterID, vimg (ucast (AckDelayExponent p)))) st
    = Inr (seen_param (optp (AckDelayExponent p \<noteq> DefaultAckDelayExponent) ackDelayExponentParameterID) st
        ((tp_params st)\<lparr>AckDelayExponent := if AckDelayExponent p \<noteq> DefaultAckDelayExponent then AckDelayExponent p
           else AckDelayExponent (tp_params st)\<rparr>))"
proof -
  have "AckDelayExponent p \<le> 20" using assms by (simp add: params_ok_def)
  then have "\<not> ucast (AckDelayExponent p) > MaxAckDelayExponent"
    by (simp add: MaxAckDelayExponent_def word_le_nat_alt word_less_nat_alt unsigned_ucast_eq
        take_bit_nat_eq_self)
  moreover have "ucast (ucast (AckDelayExponent p) :: u64) = AckDelayExponent p"
    by (rule word_unat_eq_iff [THEN iffD2]) (simp add: unsigned_ucast_eq take_bit_word_eq_self)
  ultimately show ?thesis
    by (simp add: apply_number_simps ucast_byte_le seen_param_def)
qed

lemma apply_migration:
  "apply_params s t (optp (DisableActiveMigration p) (disableActiveMigrationParameterID, [])) st
    = Inr (seen_param (optp (DisableActiveMigration p) disableActiveMigrationParameterID) st
        ((tp_params st)\<lparr>DisableActiveMigration := DisableActiveMigration p \<or> DisableActiveMigration (tp_params st)\<rparr>))"
  by (simp add: apply_param_def unmarshal_switch_def numericParameterIDs_def parameter_ids seen_param_def)

lemma apply_limit:
  assumes "params_ok p"
  shows "apply_params s t (optp (ActiveConnectionIDLimit p \<noteq> DefaultActiveConnectionIDLimit)
      (activeConnectionIDLimitParameterID, vimg (ActiveConnectionIDLimit p))) st
    = Inr (seen_param (optp (ActiveConnectionIDLimit p \<noteq> DefaultActiveConnectionIDLimit) activeConnectionIDLimitParameterID) st
        ((tp_params st)\<lparr>ActiveConnectionIDLimit := if ActiveConnectionIDLimit p \<noteq> DefaultActiveConnectionIDLimit
           then ActiveConnectionIDLimit p else ActiveConnectionIDLimit (tp_params st)\<rparr>))"
proof -
  have "\<not> ActiveConnectionIDLimit p < 2" "ActiveConnectionIDLimit p \<le> MaxVarint"
    using assms by (auto simp: params_ok_def not_less)
  then show ?thesis by (simp add: apply_number_simps seen_param_def)
qed

lemma apply_datagram:
  assumes "params_ok p"
  shows "apply_params s t (optp (MaxDatagramFrameSize p \<noteq> InvalidByteCount)
      (number_param maxDatagramFrameSizeParameterID (MaxDatagramFrameSize p))) st
    = Inr (seen_param (optp (MaxDatagramFrameSize p \<noteq> InvalidByteCount) maxDatagramFrameSizeParameterID) st
        ((tp_params st)\<lparr>MaxDatagramFrameSize := if MaxDatagramFrameSize p \<noteq> InvalidByteCount
           then MaxDatagramFrameSize p else MaxDatagramFrameSize (tp_params st)\<rparr>))"
  using params_counts(10) [OF assms] by (simp add: apply_number_simps seen_param_def)

lemma apply_reset:
  "apply_params s t (if EnableResetStreamAt p then [(resetStreamAtParameterID, []), (legacyResetStreamAtParameterID, [])] else []) st
    = Inr (seen_param (if EnableResetStreamAt p then [resetStreamAtParameterID, legacyResetStreamAtParameterID] else []) st
        ((tp_params st)\<lparr>EnableResetStreamAt := EnableResetStreamAt p \<or> EnableResetStreamAt (tp_params st)\<rparr>))"
  by (simp add: apply_param_def unmarshal_switch_def numericParameterIDs_def parameter_ids seen_param_def)

lemma apply_minack:
  assumes "params_ok p"
  shows "apply_params s t (case MinAckDelay p of None \<Rightarrow> [] | Some d \<Rightarrow> [number_param minAckDelayParameterID (d div 1000)]) st
    = Inr (seen_param (case MinAckDelay p of None \<Rightarrow> [] | Some d \<Rightarrow> [minAckDelayParameterID]) st
        ((tp_params st)\<lparr>MinAckDelay := case MinAckDelay p of None \<Rightarrow> MinAckDelay (tp_params st)
           | Some d \<Rightarrow> Some (d div 1000 * 1000)\<rparr>))"
proof (cases "MinAckDelay p")
  case (Some d)
  then have d: "0 \<le> d div 1000" "d div 1000 * 1000 \<le> 16384 * 1000000"
    using assms by (auto simp: params_ok_def)
  then have "int64_of (d div 1000 * 1000) = d div 1000 * 1000" by (intro int64_of_id) auto
  then show ?thesis using Some d params_counts(11) [OF assms Some] by (simp add: apply_number_simps)
qed (simp add: seen_param_def)

lemma apply_server:
  assumes "params_ok p"
  shows "apply_params PerspectiveServer t (server_params p) st
    = Inr (seen_param (map fst (server_params p)) (st\<lparr>readOriginalDestinationConnectionID := True\<rparr>)
        ((tp_params st)\<lparr>OriginalDestinationConnectionID := OriginalDestinationConnectionID p,
           tp_StatelessResetToken := case tp_StatelessResetToken p of None \<Rightarrow> tp_StatelessResetToken (tp_params st) | Some x \<Rightarrow> Some x,
           tp_PreferredAddress := case tp_PreferredAddress p of None \<Rightarrow> tp_PreferredAddress (tp_params st) | Some x \<Rightarrow> Some x\<rparr>))"
proof -
  have "readPreferredAddress q (preferredAddressBytes a) (length (preferredAddressBytes a)) = Inr (q\<lparr>tp_PreferredAddress := Some a\<rparr>)"
    if "tp_PreferredAddress p = Some a" for q a
    using readPreferredAddress_bytes [of a q "[]"] assms that by (simp add: params_ok_def)
  moreover have "length (OriginalDestinationConnectionID p) \<le> MaxConnIDLen"
    "\<And>token. tp_StatelessResetToken p = Some token \<Longrightarrow> length token = 16"
    using assms by (simp_all add: params_ok_def MaxConnIDLen_def)
  ultimately show ?thesis
    by (cases "tp_StatelessResetToken p"; cases "tp_PreferredAddress p")
      (simp_all add: server_params_def apply_param_def unmarshal_switch_def numericParameterIDs_def parameter_ids seen_param_def)
qed

lemma apply_source:
  assumes "params_ok p"
  shows "apply_params s t [(initialSourceConnectionIDParameterID, InitialSourceConnectionID p)] st
    = Inr (seen_param [initialSourceConnectionIDParameterID] (st\<lparr>readInitialSourceConnectionID := True\<rparr>)
        ((tp_params st)\<lparr>InitialSourceConnectionID := InitialSourceConnectionID p\<rparr>))"
  using assms by (simp add: params_ok_def apply_param_def unmarshal_switch_def numericParameterIDs_def parameter_ids
      seen_param_def MaxConnIDLen_def)

lemma apply_retry:
  assumes "params_ok p"
  shows "apply_params pers t (retry_params p pers) st
    = Inr (seen_param (map fst (retry_params p pers)) st
        ((tp_params st)\<lparr>RetrySourceConnectionID := case RetrySourceConnectionID p of
             None \<Rightarrow> RetrySourceConnectionID (tp_params st)
           | Some cid \<Rightarrow> if pers = PerspectiveServer then Some cid else RetrySourceConnectionID (tp_params st)\<rparr>))"
proof (cases "RetrySourceConnectionID p")
  case (Some cid)
  then have "length cid \<le> MaxConnIDLen" using assms by (simp add: params_ok_def MaxConnIDLen_def)
  then show ?thesis
    using Some by (auto simp: retry_params_def apply_param_def unmarshal_switch_def numericParameterIDs_def parameter_ids seen_param_def)
qed (simp add: retry_params_def seen_param_def)

text \<open>The greased identifier is none of the known ones.\<close>

lemma greased_ne:
  assumes "unat i < 27 \<or> unat i = 29 \<or> unat i = 32 \<or> unat i > 8000"
  shows "(27 + 31 * ucast (r :: byte) :: u64) \<noteq> i"
proof
  assume "(27 + 31 * ucast r :: u64) = i"
  then have i: "unat i = 27 + 31 * unat r" using greased_id [of r] by simp
  moreover have "unat r < 256" by simp
  ultimately show False using assms by presburger
qed

lemma apply_grease:
  "apply_params s False [(27 + 31 * ucast (r :: byte), w)] st = Inr (seen_param [27 + 31 * ucast r] st (tp_params st))"
  by (simp add: apply_param_def unmarshal_switch_def numericParameterIDs_def parameter_ids greased_ne seen_param_def)

section \<open>The parameters are distinct and complete\<close>

lemma firstDuplicate_sorted: "sorted xs \<Longrightarrow> firstDuplicate xs = None \<longleftrightarrow> distinct xs"
  by (induction xs rule: firstDuplicate.induct) (auto simp: order_antisym)

definition known_ids :: "u64 list" where
  "known_ids =
    [initialMaxStreamDataBidiLocalParameterID, initialMaxStreamDataBidiRemoteParameterID,
     initialMaxStreamDataUniParameterID, initialMaxDataParameterID, initialMaxStreamsBidiParameterID,
     initialMaxStreamsUniParameterID]
    @ [maxIdleTimeoutParameterID] @ [maxUDPPayloadSizeParameterID] @ [maxAckDelayParameterID]
    @ [ackDelayExponentParameterID] @ [disableActiveMigrationParameterID]
    @ ([statelessResetTokenParameterID] @ [originalDestinationConnectionIDParameterID] @ [preferredAddressParameterID])
    @ [activeConnectionIDLimitParameterID] @ [initialSourceConnectionIDParameterID]
    @ [retrySourceConnectionIDParameterID] @ [maxDatagramFrameSizeParameterID]
    @ [resetStreamAtParameterID, legacyResetStreamAtParameterID] @ [minAckDelayParameterID]"

lemma distinct_subseq: "subseq xs ys \<Longrightarrow> distinct ys \<Longrightarrow> distinct xs"
  by (induction rule: list_emb.induct) (auto dest: list_emb_set)

lemma subseq_server: "subseq (map fst (if c then server_params p else []))
   ([statelessResetTokenParameterID] @ [originalDestinationConnectionIDParameterID] @ [preferredAddressParameterID])"
proof -
  have "subseq (map fst (server_params p))
    ([statelessResetTokenParameterID] @ [originalDestinationConnectionIDParameterID] @ [preferredAddressParameterID])"
    unfolding server_params_def map_append
    by (intro list_emb_append_mono) (auto split: option.split)
  then show ?thesis by simp
qed

lemma subseq_subset: "subseq xs ys \<Longrightarrow> set xs \<subseteq> set ys"
  by (induction rule: list_emb.induct) auto

lemma sent_ids: "subseq (map fst (known_params p pers)) known_ids"
proof -
  have lim: "subseq (map fst (limit_params p))
    [initialMaxStreamDataBidiLocalParameterID, initialMaxStreamDataBidiRemoteParameterID,
     initialMaxStreamDataUniParameterID, initialMaxDataParameterID, initialMaxStreamsBidiParameterID,
     initialMaxStreamsUniParameterID]"
    by (simp add: limit_params_def number_param_def)
  show ?thesis
    unfolding known_params_def retry_params_def known_ids_def map_append number_param_def
    by (intro list_emb_append_mono lim subseq_server) (auto split: option.split)
qed

lemma sent_distinct: "distinct (map fst (sent_params p pers random))"
proof -
  have "distinct known_ids" by (simp add: known_ids_def parameter_ids)
  then have "distinct (map fst (known_params p pers))" using sent_ids distinct_subseq by blast
  moreover have "(27 + 31 * ucast (random ! 0) :: u64) \<notin> set known_ids"
    by (simp add: known_ids_def parameter_ids greased_ne)
  moreover have "set (map fst (known_params p pers)) \<subseteq> set known_ids" by (rule subseq_subset [OF sent_ids])
  ultimately show ?thesis by (auto simp: sent_params_def)
qed

lemma sent_self_contained:
  assumes "params_ok p" and "length random = 18"
  shows "list_all self_contained (sent_params p pers random)"
proof -
  have number: "self_contained (number_param i v)" if "i \<in> set numericParameterIDs" "count_ok v" for i v
    using that by (simp add: number_param_def self_contained_number uint64_of_le)
  have varint: "self_contained (i, vimg v)" if "i \<in> set numericParameterIDs" "v \<le> MaxVarint" for i v
    using that by (rule self_contained_number)
  have plain: "self_contained (i, w)"
    if "i \<notin> set numericParameterIDs" "i \<noteq> preferredAddressParameterID" "i \<le> MaxVarint" "length w \<le> 20" for i w
    using that by (intro self_contained_plain) auto
  have lim: "list_all self_contained (limit_params p)"
    using params_counts [OF assms(1)] by (simp add: limit_params_def number numericParameterIDs_def)
  have size: "length (OriginalDestinationConnectionID p) \<le> 20" "length (InitialSourceConnectionID p) \<le> 20"
    "\<And>cid. RetrySourceConnectionID p = Some cid \<Longrightarrow> length cid \<le> 20"
    "\<And>token. tp_StatelessResetToken p = Some token \<Longrightarrow> length token = 16"
    "\<And>a. tp_PreferredAddress p = Some a \<Longrightarrow> preferred_ok a" "ActiveConnectionIDLimit p \<le> MaxVarint"
    using assms(1) by (simp_all add: params_ok_def)
  have srv: "list_all self_contained (server_params p)"
    using size(1,4,5) self_contained_preferred
    by (cases "tp_StatelessResetToken p"; cases "tp_PreferredAddress p")
      (simp_all add: server_params_def plain numericParameterIDs_def parameter_ids MaxVarint_def)
  have opt: "list_all self_contained (optp c x)" if "c \<Longrightarrow> self_contained x" for c x using that by simp
  have min: "list_all self_contained (case MinAckDelay p of None \<Rightarrow> [] | Some d \<Rightarrow> [number_param minAckDelayParameterID (d div 1000)])"
    using params_counts(11) [OF assms(1)] by (simp add: number numericParameterIDs_def split: option.split)
  have "list_all self_contained (known_params p pers)"
    unfolding known_params_def retry_params_def list_all_append
    using params_counts [OF assms(1)] size
    by (intro conjI lim min opt number varint ucast_byte_le)
       (simp_all add: srv number plain ucast_byte_le numericParameterIDs_def parameter_ids MaxVarint_def split: option.split)
  moreover have "self_contained (27 + 31 * ucast (random ! 0), take (unat (random ! 1 mod 16)) (drop 2 random))"
    by (intro self_contained_plain) (use assms(2) in \<open>simp_all add: numericParameterIDs_def parameter_ids greased_ne greased_le\<close>)
  ultimately show ?thesis by (simp add: sent_params_def)
qed

definition tp_start :: tp_loop where
  "tp_start = \<lparr>tp_params = zeroTransportParameters\<lparr>AckDelayExponent := DefaultAckDelayExponent,
       MaxAckDelay := DefaultMaxAckDelay, MaxDatagramFrameSize := InvalidByteCount,
       ActiveConnectionIDLimit := DefaultActiveConnectionIDLimit\<rparr>,
     parameterIDs = [], readOriginalDestinationConnectionID = False, readInitialSourceConnectionID = False\<rparr>"

text \<open>The same steps from a record whose field still has its default.\<close>

lemma apply_from_default:
  assumes "params_ok p"
  shows "MaxUDPPayloadSize (tp_params st) = 0 \<Longrightarrow>
      apply_params s t (optp (MaxUDPPayloadSize p > 0) (number_param maxUDPPayloadSizeParameterID (MaxUDPPayloadSize p))) st
      = Inr (seen_param (optp (MaxUDPPayloadSize p > 0) maxUDPPayloadSizeParameterID) st
          ((tp_params st)\<lparr>MaxUDPPayloadSize := MaxUDPPayloadSize p\<rparr>))"
    and "MaxAckDelay (tp_params st) = DefaultMaxAckDelay \<Longrightarrow>
      apply_params s t (optp (MaxAckDelay p \<noteq> DefaultMaxAckDelay) (number_param maxAckDelayParameterID (MaxAckDelay p div 1000000))) st
      = Inr (seen_param (optp (MaxAckDelay p \<noteq> DefaultMaxAckDelay) maxAckDelayParameterID) st
          ((tp_params st)\<lparr>MaxAckDelay := MaxAckDelay (received PerspectiveServer p)\<rparr>))"
    and "AckDelayExponent (tp_params st) = DefaultAckDelayExponent \<Longrightarrow>
      apply_params s t (optp (AckDelayExponent p \<noteq> DefaultAckDelayExponent) (ackDelayExponentParameterID, vimg (ucast (AckDelayExponent p)))) st
      = Inr (seen_param (optp (AckDelayExponent p \<noteq> DefaultAckDelayExponent) ackDelayExponentParameterID) st
          ((tp_params st)\<lparr>AckDelayExponent := AckDelayExponent p\<rparr>))"
    and "\<not> DisableActiveMigration (tp_params st) \<Longrightarrow>
      apply_params s t (optp (DisableActiveMigration p) (disableActiveMigrationParameterID, [])) st
      = Inr (seen_param (optp (DisableActiveMigration p) disableActiveMigrationParameterID) st
          ((tp_params st)\<lparr>DisableActiveMigration := DisableActiveMigration p\<rparr>))"
    and "ActiveConnectionIDLimit (tp_params st) = DefaultActiveConnectionIDLimit \<Longrightarrow>
      apply_params s t (optp (ActiveConnectionIDLimit p \<noteq> DefaultActiveConnectionIDLimit)
        (activeConnectionIDLimitParameterID, vimg (ActiveConnectionIDLimit p))) st
      = Inr (seen_param (optp (ActiveConnectionIDLimit p \<noteq> DefaultActiveConnectionIDLimit) activeConnectionIDLimitParameterID) st
          ((tp_params st)\<lparr>ActiveConnectionIDLimit := ActiveConnectionIDLimit p\<rparr>))"
    and "MaxDatagramFrameSize (tp_params st) = InvalidByteCount \<Longrightarrow>
      apply_params s t (optp (MaxDatagramFrameSize p \<noteq> InvalidByteCount)
        (number_param maxDatagramFrameSizeParameterID (MaxDatagramFrameSize p))) st
      = Inr (seen_param (optp (MaxDatagramFrameSize p \<noteq> InvalidByteCount) maxDatagramFrameSizeParameterID) st
          ((tp_params st)\<lparr>MaxDatagramFrameSize := MaxDatagramFrameSize p\<rparr>))"
    and "\<not> EnableResetStreamAt (tp_params st) \<Longrightarrow>
      apply_params s t (if EnableResetStreamAt p then [(resetStreamAtParameterID, []), (legacyResetStreamAtParameterID, [])] else []) st
      = Inr (seen_param (if EnableResetStreamAt p then [resetStreamAtParameterID, legacyResetStreamAtParameterID] else []) st
          ((tp_params st)\<lparr>EnableResetStreamAt := EnableResetStreamAt p\<rparr>))"
    and "MinAckDelay (tp_params st) = None \<Longrightarrow>
      apply_params s t (case MinAckDelay p of None \<Rightarrow> [] | Some d \<Rightarrow> [number_param minAckDelayParameterID (d div 1000)]) st
      = Inr (seen_param (case MinAckDelay p of None \<Rightarrow> [] | Some d \<Rightarrow> [minAckDelayParameterID]) st
          ((tp_params st)\<lparr>MinAckDelay := MinAckDelay (received PerspectiveServer p)\<rparr>))"
    and "RetrySourceConnectionID (tp_params st) = None \<Longrightarrow> apply_params pers t (retry_params p pers) st
      = Inr (seen_param (map fst (retry_params p pers)) st
          ((tp_params st)\<lparr>RetrySourceConnectionID := RetrySourceConnectionID (received pers p)\<rparr>))"
    and "tp_StatelessResetToken (tp_params st) = None \<Longrightarrow> tp_PreferredAddress (tp_params st) = None \<Longrightarrow>
      apply_params PerspectiveServer t (server_params p) st
      = Inr (seen_param (map fst (server_params p)) (st\<lparr>readOriginalDestinationConnectionID := True\<rparr>)
          ((tp_params st)\<lparr>OriginalDestinationConnectionID := OriginalDestinationConnectionID p,
             tp_StatelessResetToken := tp_StatelessResetToken p, tp_PreferredAddress := tp_PreferredAddress p\<rparr>))"
proof -
  have "MaxUDPPayloadSize p = 0 \<or> MaxUDPPayloadSize p > 0" using assms by (auto simp: params_ok_def)
  then show "MaxUDPPayloadSize (tp_params st) = 0 \<Longrightarrow>
      apply_params s t (optp (MaxUDPPayloadSize p > 0) (number_param maxUDPPayloadSizeParameterID (MaxUDPPayloadSize p))) st
      = Inr (seen_param (optp (MaxUDPPayloadSize p > 0) maxUDPPayloadSizeParameterID) st
          ((tp_params st)\<lparr>MaxUDPPayloadSize := MaxUDPPayloadSize p\<rparr>))"
    unfolding apply_udp [OF assms] by auto
qed (unfold apply_ackdelay [OF assms] apply_exponent [OF assms] apply_migration apply_limit [OF assms]
    apply_datagram [OF assms] apply_reset apply_minack [OF assms] apply_retry [OF assms] apply_server [OF assms],
  simp_all add: received_def split: option.split)

lemma apply_sent:
  assumes "params_ok p"
  shows "\<exists>st. apply_params pers False (sent_params p pers random) tp_start = Inr st
    \<and> tp_params st = (received pers p)\<lparr>MaxUDPPayloadSize := MaxUDPPayloadSize p\<rparr>
    \<and> readInitialSourceConnectionID st
    \<and> (pers = PerspectiveServer \<longrightarrow> readOriginalDestinationConnectionID st)"
proof -
  have zero: "tp_params tp_start = zeroTransportParameters\<lparr>AckDelayExponent := DefaultAckDelayExponent,
       MaxAckDelay := DefaultMaxAckDelay, MaxDatagramFrameSize := InvalidByteCount,
       ActiveConnectionIDLimit := DefaultActiveConnectionIDLimit\<rparr>" by (simp add: tp_start_def)
  note steps = apply_grease apply_limits [OF assms] apply_idle [OF assms] apply_source [OF assms]
    apply_from_default [OF assms]
  show ?thesis
  proof (cases pers)
    case PerspectiveServer
    then show ?thesis
      unfolding sent_params_def known_params_def apply_params_append
      by (simp add: steps zero zeroTransportParameters_def del: apply_params.simps split del: if_split)
         (simp add: received_def)
  next
    case PerspectiveClient
    then show ?thesis
      unfolding sent_params_def known_params_def apply_params_append
      by (simp add: steps zero zeroTransportParameters_def del: apply_params.simps(2) split del: if_split)
         (simp add: received_def)
  qed
qed

text \<open>
  C19. Transport parameters survive the trip to the peer. For every configuration within the
  ranges of the specification, and whatever the random bytes of the greased parameter, the
  peer reads without an error exactly the parameters the sender set, with the durations cut
  to the unit of the wire format, the idle timeout raised to the minimum, a missing packet
  size read as no limit, and without the fields only a server may send if a client sent it.
\<close>

theorem transport_parameters_roundtrip:
  assumes "params_ok p" and "length random = 18"
  shows "\<exists>b. Marshal p pers random [] = Inr b
    \<and> Unmarshal zeroTransportParameters b pers = Inr (received pers p)"
proof -
  obtain st where st: "apply_params pers False (sent_params p pers random) tp_start = Inr st"
    "tp_params st = (received pers p)\<lparr>MaxUDPPayloadSize := MaxUDPPayloadSize p\<rparr>" "readInitialSourceConnectionID st"
    "pers = PerspectiveServer \<longrightarrow> readOriginalDestinationConnectionID st"
    using apply_sent [OF assms(1)] by blast
  have loop: "unmarshal_loop pers False tp_start (enc_all (sent_params p pers random)) = Inr st"
    using unmarshal_loop_params [OF sent_self_contained [OF assms]] st(1) by simp
  have "parameterIDs st = map fst (sent_params p pers random)"
    using apply_params_ids [OF st(1)] by (simp add: tp_start_def)
  then have dup: "firstDuplicate (sort (parameterIDs st)) = None"
    using firstDuplicate_sorted [OF sorted_sort] sent_distinct by simp
  have min: "\<not> (case MinAckDelay (received pers p) of None \<Rightarrow> False | Some m \<Rightarrow> m > MaxAckDelay (received pers p))"
    using assms(1) by (auto simp: received_def params_ok_def DefaultMaxAckDelay_def split: option.split)
  have "Unmarshal zeroTransportParameters (enc_all (sent_params p pers random)) pers = Inr (received pers p)"
    using st(2-4) dup min
    by (auto simp: Unmarshal_def unmarshal_def loop [unfolded tp_start_def] Let_def received_def split: option.splits)
  then show ?thesis using Marshal_enc [OF assms] by blast
qed

text \<open>A server with a reset token, a preferred address and non-default values.\<close>

definition toy_params :: TransportParameters where
  "toy_params = zeroTransportParameters
    \<lparr>InitialMaxStreamDataBidiLocal := 524288, InitialMaxData := 786432, MaxAckDelay := 26500000, AckDelayExponent := 5,
     MaxBidiStreamNum := 100, MaxIdleTimeout := 30000000000,
     tp_PreferredAddress := Some \<lparr>pa_IPv4 = Some ([127, 0, 0, 1], 443), pa_IPv6 = None, pa_ConnectionID = [1, 2],
       pa_StatelessResetToken = replicate 16 3\<rparr>,
     OriginalDestinationConnectionID := [9, 9], tp_StatelessResetToken := Some (replicate 16 7),
     ActiveConnectionIDLimit := 4, MaxDatagramFrameSize := InvalidByteCount, EnableResetStreamAt := True\<rparr>"

lemma toy_params_ok: "params_ok toy_params"
proof -
  have "replicate 4 (0 :: byte) = [0, 0, 0, 0]" by (simp add: eval_nat_numeral)
  then have "addr_ok 4 (Some ([127, 0, 0, 1], 443))" "addr_ok 16 None" by (simp_all add: addr_ok_def)
  then show ?thesis
    by (simp add: params_ok_def toy_params_def zeroTransportParameters_def preferred_ok_def MaxVarint_def)
qed

theorem transport_parameters_roundtrip_witness:
  "\<exists>b. Marshal toy_params PerspectiveServer (replicate 18 200) [] = Inr b
    \<and> Unmarshal zeroTransportParameters b PerspectiveServer
      = Inr (toy_params\<lparr>MaxAckDelay := 26000000, MaxUDPPayloadSize := MaxByteCount\<rparr>)"
proof -
  have "received PerspectiveServer toy_params = toy_params\<lparr>MaxAckDelay := 26000000, MaxUDPPayloadSize := MaxByteCount\<rparr>"
    by (simp add: received_def toy_params_def zeroTransportParameters_def DefaultMaxAckDelay_def MinRemoteIdleTimeout_def)
  then show ?thesis
    using transport_parameters_roundtrip [OF toy_params_ok, of "replicate 18 200" PerspectiveServer] by simp
qed

section \<open>Session tickets\<close>

definition ticket_params :: "TransportParameters \<Rightarrow> (u64 \<times> bytes) list" where
  "ticket_params p =
    limit_params p @ [(activeConnectionIDLimitParameterID, vimg (ActiveConnectionIDLimit p))]
    @ optp (MaxDatagramFrameSize p \<noteq> InvalidByteCount) (number_param maxDatagramFrameSizeParameterID (MaxDatagramFrameSize p))
    @ optp (EnableResetStreamAt p) (resetStreamAtParameterID, [])"

lemma MarshalForSessionTicket_enc:
  assumes "params_ok p"
  shows "MarshalForSessionTicket p [] = Inr (vimg 1 @ enc_all (ticket_params p))"
proof -
  have "(1 :: u64) \<le> MaxVarint" "ActiveConnectionIDLimit p \<le> MaxVarint"
    using assms by (simp_all add: MaxVarint_def params_ok_def)
  then show ?thesis
    using params_counts [OF assms]
    by (simp add: MarshalForSessionTicket_def transportParameterMarshalingVersion_def Append_vimg marshal_number
        marshalVarintParam_enc when_number when_append when_empty enc_optp ids_le ticket_params_def limit_params_def
        split del: if_split)
qed

lemma apply_ticket:
  assumes "params_ok p"
  obtains st where "apply_params PerspectiveServer True (ticket_params p) tp_start = Inr st"
    "tp_params st = (tp_params tp_start)
      \<lparr>InitialMaxStreamDataBidiLocal := InitialMaxStreamDataBidiLocal p,
       InitialMaxStreamDataBidiRemote := InitialMaxStreamDataBidiRemote p,
       InitialMaxStreamDataUni := InitialMaxStreamDataUni p, InitialMaxData := InitialMaxData p,
       MaxBidiStreamNum := MaxBidiStreamNum p, MaxUniStreamNum := MaxUniStreamNum p,
       ActiveConnectionIDLimit := ActiveConnectionIDLimit p, MaxDatagramFrameSize := MaxDatagramFrameSize p,
       EnableResetStreamAt := EnableResetStreamAt p\<rparr>"
proof -
  have "\<not> ActiveConnectionIDLimit p < 2" "ActiveConnectionIDLimit p \<le> MaxVarint"
    using assms by (auto simp: params_ok_def not_less)
  then have lim: "apply_params s t ((activeConnectionIDLimitParameterID, vimg (ActiveConnectionIDLimit p)) # ps) st
      = apply_params s t ps
          (seen_param [activeConnectionIDLimitParameterID] st ((tp_params st)\<lparr>ActiveConnectionIDLimit := ActiveConnectionIDLimit p\<rparr>))"
    for s t ps st by (simp add: apply_number_simps)
  have reset: "apply_params s t (optp (EnableResetStreamAt p) (resetStreamAtParameterID, [])) st
      = Inr (seen_param (optp (EnableResetStreamAt p) resetStreamAtParameterID) st
          ((tp_params st)\<lparr>EnableResetStreamAt := EnableResetStreamAt p\<rparr>))"
    if "\<not> EnableResetStreamAt (tp_params st)" for s t st
    using that by (simp add: apply_param_def unmarshal_switch_def numericParameterIDs_def parameter_ids seen_param_def)
  have zero: "MaxDatagramFrameSize (tp_params tp_start) = InvalidByteCount" "\<not> EnableResetStreamAt (tp_params tp_start)"
    by (simp_all add: tp_start_def zeroTransportParameters_def)
  show thesis
    by (rule that, simp add: ticket_params_def apply_params_append apply_limits [OF assms] lim
        apply_from_default(6) [OF assms] reset zero del: apply_params.simps(2) split del: if_split) simp
qed

lemma ticket_distinct: "distinct (map fst (ticket_params p))"
  by (simp add: ticket_params_def limit_params_def number_param_def parameter_ids)

lemma ticket_self_contained:
  assumes "params_ok p"
  shows "list_all self_contained (ticket_params p)"
proof -
  have number: "self_contained (number_param i v)" if "i \<in> set numericParameterIDs" "count_ok v" for i v
    using that by (simp add: number_param_def self_contained_number uint64_of_le)
  have "ActiveConnectionIDLimit p \<le> MaxVarint" using assms by (simp add: params_ok_def)
  then have "self_contained (activeConnectionIDLimitParameterID, vimg (ActiveConnectionIDLimit p))"
    by (intro self_contained_number) (simp_all add: numericParameterIDs_def)
  moreover have "self_contained (resetStreamAtParameterID, [])"
    by (intro self_contained_plain) (simp_all add: numericParameterIDs_def parameter_ids MaxVarint_def)
  ultimately show ?thesis
    using params_counts [OF assms] by (simp add: ticket_params_def limit_params_def number numericParameterIDs_def)
qed

text \<open>
  C20. The parameters saved in a session ticket decide on early data as the original ones:
  what a server writes into a ticket it reads back without an error, and whether its current
  parameters admit early data under the saved record is the same as under the record it
  saved. In particular a server with unchanged parameters admits it.
\<close>

theorem session_ticket_parameters:
  assumes "params_ok p"
  shows "\<exists>b saved. MarshalForSessionTicket p [] = Inr b
    \<and> UnmarshalFromSessionTicket zeroTransportParameters b = Inr saved
    \<and> (\<forall>q. ValidFor0RTT q saved = ValidFor0RTT q p) \<and> ValidFor0RTT p saved
    \<and> (\<forall>q. ValidForUpdate q saved = ValidForUpdate q p)"
proof -
  obtain st where st: "apply_params PerspectiveServer True (ticket_params p) tp_start = Inr st"
    "tp_params st = (tp_params tp_start)
      \<lparr>InitialMaxStreamDataBidiLocal := InitialMaxStreamDataBidiLocal p,
       InitialMaxStreamDataBidiRemote := InitialMaxStreamDataBidiRemote p,
       InitialMaxStreamDataUni := InitialMaxStreamDataUni p, InitialMaxData := InitialMaxData p,
       MaxBidiStreamNum := MaxBidiStreamNum p, MaxUniStreamNum := MaxUniStreamNum p,
       ActiveConnectionIDLimit := ActiveConnectionIDLimit p, MaxDatagramFrameSize := MaxDatagramFrameSize p,
       EnableResetStreamAt := EnableResetStreamAt p\<rparr>"
    by (rule apply_ticket [OF assms])
  have loop: "unmarshal_loop PerspectiveServer True tp_start (enc_all (ticket_params p)) = Inr st"
    using unmarshal_loop_params [OF ticket_self_contained [OF assms]] st(1) by simp
  have "parameterIDs st = map fst (ticket_params p)" using apply_params_ids [OF st(1)] by (simp add: tp_start_def)
  then have "firstDuplicate (sort (parameterIDs st)) = None"
    using firstDuplicate_sorted [OF sorted_sort] ticket_distinct by simp
  moreover have "MinAckDelay (tp_params st) = None" by (simp add: st(2) tp_start_def zeroTransportParameters_def)
  ultimately have "unmarshal zeroTransportParameters (enc_all (ticket_params p)) PerspectiveServer True = Inr (tp_params st)"
    by (simp add: unmarshal_def loop [unfolded tp_start_def] Let_def)
  moreover have "(1 :: u64) \<le> MaxVarint" by (simp add: MaxVarint_def)
  ultimately have "UnmarshalFromSessionTicket zeroTransportParameters (vimg 1 @ enc_all (ticket_params p)) = Inr (tp_params st)"
    by (simp add: UnmarshalFromSessionTicket_def transportParameterMarshalingVersion_def)
  moreover have "\<forall>q. ValidFor0RTT q (tp_params st) = ValidFor0RTT q p" "\<forall>q. ValidForUpdate q (tp_params st) = ValidForUpdate q p"
    by (simp_all add: st(2) ValidFor0RTT_def ValidForUpdate_def datagramShrunk_def)
  moreover have "ValidFor0RTT p p" by (simp add: ValidFor0RTT_def datagramShrunk_def)
  ultimately show ?thesis using MarshalForSessionTicket_enc [OF assms] by blast
qed

theorem session_ticket_parameters_witness:
  "\<exists>b saved. MarshalForSessionTicket toy_params [] = Inr b
    \<and> UnmarshalFromSessionTicket zeroTransportParameters b = Inr saved \<and> ValidFor0RTT toy_params saved
    \<and> \<not> ValidFor0RTT (toy_params\<lparr>InitialMaxData := 0\<rparr>) saved"
proof -
  have "\<not> ValidFor0RTT (toy_params\<lparr>InitialMaxData := 0\<rparr>) toy_params" by (simp add: ValidFor0RTT_def toy_params_def)
  then show ?thesis using session_ticket_parameters [OF toy_params_ok] by blast
qed

section \<open>Durations that wrap\<close>


end
