(* ===== verification/GmSealer.thy ===== *)
theory GmSealer
  imports HandshakeState PacketProtection
begin

text \<open>
  The packet codecs of the transport: truncated packet numbers
  (\<open>src/quic-go/internal/protocol/packet_number.go\<close>), the key material and the
  fixed-phase sealers and openers of \<open>src/quic-go/internal/handshake/gm_sealer.go\<close>, and the
  way \<open>packet_packer.go\<close> applies a sealer to a packet.

  A packet number is an int64 and never above \<open>2^62\<close>, so it is an integer. A cipher block
  is its key. A method that writes through a pointer into the packet returns the bytes it
  wrote; a nil dereference, an index out of range and an explicit panic are \<open>GmPanic\<close>.
\<close>

section \<open>Packet numbers\<close>

definition InvalidPacketNumber :: int where "InvalidPacketNumber = - 1"

definition protocol_DecodePacketNumber :: "PacketNumberLen \<Rightarrow> int \<Rightarrow> int \<Rightarrow> int" where
  "protocol_DecodePacketNumber len largest truncated =
    (let expected = largest + 1;
         win = push_bit (len * 8) 1;
         hwin = win div 2;
         msk = win - 1;
         candidate = (expected AND NOT msk) OR truncated in
     if candidate \<le> expected - hwin \<and> candidate < 2 ^ 62 - win then candidate + win
     else if candidate > expected + hwin \<and> candidate \<ge> win then candidate - win
     else candidate)"

definition PacketNumberLengthForHeader :: "int \<Rightarrow> int \<Rightarrow> PacketNumberLen" where
  "PacketNumberLengthForHeader pn largestAcked =
    (let numUnacked = (if largestAcked = InvalidPacketNumber then pn + 1 else pn - largestAcked) in
     if numUnacked < 2 ^ (16 - 1) then 2
     else if numUnacked < 2 ^ (24 - 1) then 3
     else 4)"

section \<open>Key material\<close>

datatype gm_error =
    GmNilKeys
  | GmAead aead_error
  | GmHeaderCipher
  | GmKdf kdf_error
  | GmPanic
  | ErrDecryptionFailed
  | ErrKeysDropped
  | ErrKeysNotYetAvailable
  | AEADLimitReached
  | KeysUpdatedTooQuickly
  | PeerDidNotUpdate

definition gmHeaderSampleLen :: nat where "gmHeaderSampleLen = 16"

record gmKeyMaterial =
  km_aead :: AEAD
  km_hp :: bytes

definition newGMKeyMaterial :: "QUICPacketKeys option \<Rightarrow> gm_error + gmKeyMaterial" where
  "newGMKeyMaterial keys =
    (case keys of
       None \<Rightarrow> Inl GmNilKeys
     | Some keys \<Rightarrow>
         bindE (mapE GmAead (NewAEAD (AEADKey keys) (AEADIV keys))) (\<lambda>a.
         if length (HeaderKey keys) \<noteq> 16 then Inl GmHeaderCipher
         else Inr \<lparr>km_aead = a, km_hp = HeaderKey keys\<rparr>))"

text \<open>
  The first byte and the packet number bytes after the mask. \<open>Encrypt\<close> panics on a sample
  shorter than a block, and the mask has one byte for each packet number byte up to 15.
\<close>

definition applyGMHeaderMask ::
  "'x gm_sym_scheme \<Rightarrow> bytes \<Rightarrow> bool \<Rightarrow> bytes \<Rightarrow> byte \<Rightarrow> bytes \<Rightarrow> gm_error + (byte \<times> bytes)" where
  "applyGMHeaderMask g hp isLongHeader sample firstByte pnBytes =
    (if length sample < gmHeaderSampleLen \<or> length pnBytes \<ge> gmHeaderSampleLen then Inl GmPanic
     else
       (let msk = sm4_Encrypt g hp (take gmHeaderSampleLen sample);
            firstByte = (if isLongHeader then firstByte XOR (msk ! 0 AND 0x0f) else firstByte XOR (msk ! 0 AND 0x1f)) in
        Inr (firstByte, map (\<lambda>i. pnBytes ! i XOR msk ! (1 + i)) [0..<length pnBytes])))"

section \<open>Long headers\<close>

record gmLongSealer =
  ls_km :: gmKeyMaterial
  ls_isLong :: bool

definition gmLongSealer_Seal ::
  "'x gm_sym_scheme \<Rightarrow> 'y gmLongSealer_scheme \<Rightarrow> bytes \<Rightarrow> bytes \<Rightarrow> int \<Rightarrow> bytes \<Rightarrow> gm_error + bytes" where
  "gmLongSealer_Seal g s dst src pn ad =
    (case AEAD_Seal g (km_aead (ls_km s)) (word_of_int pn) src ad of
       Inl _ \<Rightarrow> Inl GmPanic
     | Inr ct \<Rightarrow> Inr (dst @ ct))"

definition gmLongSealer_EncryptHeader ::
  "'x gm_sym_scheme \<Rightarrow> 'y gmLongSealer_scheme \<Rightarrow> bytes \<Rightarrow> byte \<Rightarrow> bytes \<Rightarrow> gm_error + (byte \<times> bytes)" where
  "gmLongSealer_EncryptHeader g s sample firstByte pnBytes =
    applyGMHeaderMask g (km_hp (ls_km s)) (ls_isLong s) sample firstByte pnBytes"

text \<open>\<open>Overhead\<close> of the AEAD is the tag size of GCM.\<close>

definition gmLongSealer_Overhead :: "'y gmLongSealer_scheme \<Rightarrow> nat" where
  "gmLongSealer_Overhead s = 16"

definition gmAEADInvalidPacketLimit :: u64 where "gmAEADInvalidPacketLimit = push_bit 36 1"

record gmLongOpener =
  lo_km :: gmKeyMaterial
  lo_isLong :: bool
  lo_highestRcvdPN :: int
  lo_invalidPacketCount :: u64

definition gmLongOpener_DecryptHeader ::
  "'x gm_sym_scheme \<Rightarrow> gmLongOpener \<Rightarrow> bytes \<Rightarrow> byte \<Rightarrow> bytes \<Rightarrow> gm_error + (byte \<times> bytes)" where
  "gmLongOpener_DecryptHeader g q sample firstByte pnBytes =
    applyGMHeaderMask g (km_hp (lo_km q)) (lo_isLong q) sample firstByte pnBytes"

definition gmLongOpener_DecodePacketNumber :: "gmLongOpener \<Rightarrow> int \<Rightarrow> PacketNumberLen \<Rightarrow> int" where
  "gmLongOpener_DecodePacketNumber q wirePN wirePNLen =
    protocol_DecodePacketNumber wirePNLen (lo_highestRcvdPN q) wirePN"

definition gmLongOpener_Open ::
  "'x gm_sym_scheme \<Rightarrow> gmLongOpener \<Rightarrow> bytes \<Rightarrow> bytes \<Rightarrow> int \<Rightarrow> bytes \<Rightarrow> gmLongOpener \<times> (gm_error + bytes)" where
  "gmLongOpener_Open g q dst src pn ad =
    (case AEAD_Open g (km_aead (lo_km q)) (word_of_int pn) src ad of
       Inl _ \<Rightarrow>
         (let q = q\<lparr>lo_invalidPacketCount := lo_invalidPacketCount q + 1\<rparr> in
          if lo_invalidPacketCount q \<ge> gmAEADInvalidPacketLimit then (q, Inl AEADLimitReached)
          else (q, Inl ErrDecryptionFailed))
     | Inr pt \<Rightarrow>
         (let q = (if pn > lo_highestRcvdPN q then q\<lparr>lo_highestRcvdPN := pn\<rparr> else q) in
          (q, Inr (dst @ pt))))"

section \<open>Short headers with a fixed key phase\<close>

datatype KeyPhaseBit = KeyPhaseUndefined | KeyPhaseZero | KeyPhaseOne

record gmShortSealer = gmLongSealer +
  ss_kp :: KeyPhaseBit

definition gmShortSealer_KeyPhase :: "gmShortSealer \<Rightarrow> KeyPhaseBit" where
  "gmShortSealer_KeyPhase s = ss_kp s"

record gmShortOpener =
  so_km :: gmKeyMaterial
  so_highestRcvdPN :: int
  so_kp :: KeyPhaseBit

definition gmShortOpener_DecryptHeader ::
  "'x gm_sym_scheme \<Rightarrow> gmShortOpener \<Rightarrow> bytes \<Rightarrow> byte \<Rightarrow> bytes \<Rightarrow> gm_error + (byte \<times> bytes)" where
  "gmShortOpener_DecryptHeader g q sample firstByte pnBytes =
    applyGMHeaderMask g (km_hp (so_km q)) False sample firstByte pnBytes"

definition gmShortOpener_DecodePacketNumber :: "gmShortOpener \<Rightarrow> int \<Rightarrow> PacketNumberLen \<Rightarrow> int" where
  "gmShortOpener_DecodePacketNumber q wirePN wirePNLen =
    protocol_DecodePacketNumber wirePNLen (so_highestRcvdPN q) wirePN"

definition gmShortOpener_Open ::
  "'x gm_sym_scheme \<Rightarrow> gmShortOpener \<Rightarrow> bytes \<Rightarrow> bytes \<Rightarrow> int \<Rightarrow> KeyPhaseBit \<Rightarrow> bytes \<Rightarrow>
    gmShortOpener \<times> (gm_error + bytes)" where
  "gmShortOpener_Open g q dst src pn kp ad =
    (if kp \<noteq> so_kp q then (q, Inl ErrKeysNotYetAvailable)
     else
       (case AEAD_Open g (km_aead (so_km q)) (word_of_int pn) src ad of
          Inl _ \<Rightarrow> (q, Inl ErrDecryptionFailed)
        | Inr pt \<Rightarrow>
            (let q = (if pn > so_highestRcvdPN q then q\<lparr>so_highestRcvdPN := pn\<rparr> else q) in
             (q, Inr (dst @ pt)))))"

section \<open>Constructors\<close>

definition newGMLongSealer :: "QUICPacketKeys option \<Rightarrow> gm_error + gmLongSealer" where
  "newGMLongSealer keys = bindE (newGMKeyMaterial keys) (\<lambda>km. Inr \<lparr>ls_km = km, ls_isLong = True\<rparr>)"

definition newGMLongOpener :: "QUICPacketKeys option \<Rightarrow> gm_error + gmLongOpener" where
  "newGMLongOpener keys =
    bindE (newGMKeyMaterial keys) (\<lambda>km.
    Inr \<lparr>lo_km = km, lo_isLong = True, lo_highestRcvdPN = 0, lo_invalidPacketCount = 0\<rparr>)"

definition newGMShortSealer :: "QUICPacketKeys option \<Rightarrow> KeyPhaseBit \<Rightarrow> gm_error + gmShortSealer" where
  "newGMShortSealer keys kp =
    bindE (newGMKeyMaterial keys) (\<lambda>km. Inr \<lparr>ls_km = km, ls_isLong = False, ss_kp = kp\<rparr>)"

definition newGMShortOpener :: "QUICPacketKeys option \<Rightarrow> KeyPhaseBit \<Rightarrow> gm_error + gmShortOpener" where
  "newGMShortOpener keys kp =
    bindE (newGMKeyMaterial keys) (\<lambda>km. Inr \<lparr>so_km = km, so_highestRcvdPN = 0, so_kp = kp\<rparr>)"

section \<open>Sealing a packet\<close>

text \<open>
  The interfaces through which the packer and the unpacker use a codec, as records of their
  methods over the state of the codec.
\<close>

record 's sealer =
  sl_Seal :: "'s \<Rightarrow> bytes \<Rightarrow> bytes \<Rightarrow> int \<Rightarrow> bytes \<Rightarrow> 's \<times> (gm_error + bytes)"
  sl_EncryptHeader :: "'s \<Rightarrow> bytes \<Rightarrow> byte \<Rightarrow> bytes \<Rightarrow> gm_error + (byte \<times> bytes)"
  sl_Overhead :: "'s \<Rightarrow> nat"

text \<open>Overwriting the bytes of a slice from an offset on.\<close>

definition copy_at :: "bytes \<Rightarrow> nat \<Rightarrow> bytes \<Rightarrow> bytes" where
  "copy_at b off bs = take off b @ bs @ drop (off + length bs) b"

text \<open>
  The sealed payload replaces the payload in the buffer, whose capacity is assumed to hold
  the tag.
\<close>

definition encryptPacket ::
  "'s sealer \<Rightarrow> 's \<Rightarrow> bytes \<Rightarrow> int \<Rightarrow> nat \<Rightarrow> nat \<Rightarrow> 's \<times> (gm_error + bytes)" where
  "encryptPacket S s packet pn payloadOffset pnLen =
    (if payloadOffset > length packet then (s, Inl GmPanic)
     else
       (case sl_Seal S s [] (drop payloadOffset packet) pn (take payloadOffset packet) of
          (s, Inl e) \<Rightarrow> (s, Inl e)
        | (s, Inr sealed) \<Rightarrow>
            (let packet = take (length packet + sl_Overhead S s) (copy_at packet payloadOffset sealed) in
             if pnLen > payloadOffset \<or> payloadOffset - pnLen + 20 > length packet then (s, Inl GmPanic)
             else
               (let pnOffset = payloadOffset - pnLen in
                tryS s (sl_EncryptHeader S s (take 16 (drop (pnOffset + 4) packet)) (packet ! 0)
                          (take pnLen (drop pnOffset packet))) (\<lambda>(firstByte, pnBytes).
                (s, Inr ((copy_at packet pnOffset pnBytes)[0 := firstByte])))))))"

definition longSealer :: "'x gm_sym_scheme \<Rightarrow> gmLongSealer sealer" where
  "longSealer g =
    \<lparr>sl_Seal = (\<lambda>s dst src pn ad. (s, gmLongSealer_Seal g s dst src pn ad)),
     sl_EncryptHeader = gmLongSealer_EncryptHeader g, sl_Overhead = gmLongSealer_Overhead\<rparr>"

end
