(* ===== verification/WireHeader.thy ===== *)
theory WireHeader
  imports GmSealer TransportParams
begin

text \<open>
  The packet headers of the transport, \<open>src/quic-go/internal/wire\<close>: \<open>short_header.go\<close>,
  \<open>header.go\<close> and \<open>extended_header.go\<close>, with the versions of \<open>protocol/version.go\<close>. A
  connection id is its bytes. A parse function that returns a partly filled header together
  with an error returns both here.
\<close>

section \<open>Packet numbers on the wire\<close>

datatype wire_error =
    WireEOF
  | WirePanic
  | NotShortHeader
  | NotLongHeader
  | NotQUIC
  | InvalidPacketNumberLen
  | ErrInvalidReservedBits
  | ErrUnsupportedVersion
  | ErrInvalidConnectionIDLen
  | WireVarint quicvarint_error
  | WireAppendVarint quicvarint_panic
  | PacketLengthTooSmall

definition readPacketNumber :: "bytes \<Rightarrow> PacketNumberLen \<Rightarrow> wire_error + int" where
  "readPacketNumber data pnLen =
    (if pnLen < 1 \<or> pnLen > 4 then Inl InvalidPacketNumberLen
     else if length data < pnLen then Inl WirePanic
     else if pnLen = 1 then Inr (uint (data ! 0))
     else if pnLen = 2 then Inr (int (unbe (take 2 data)))
     else if pnLen = 3 then
       Inr (uint (ucast (data ! 2) + push_bit 8 (ucast (data ! 1)) + push_bit 16 (ucast (data ! 0)) :: u32))
     else Inr (int (unbe (take 4 data))))"

definition appendPacketNumber :: "bytes \<Rightarrow> int \<Rightarrow> PacketNumberLen \<Rightarrow> wire_error + bytes" where
  "appendPacketNumber b pn pnLen =
    (if pnLen = 1 then Inr (b @ [word_of_int pn])
     else if pnLen = 2 then Inr (b @ be 2 (unat (word_of_int pn :: u16)))
     else if pnLen = 3 then Inr (b @ drop 1 (be 4 (unat (word_of_int pn :: u32))))
     else if pnLen = 4 then Inr (b @ be 4 (unat (word_of_int pn :: u32)))
     else Inl InvalidPacketNumberLen)"

section \<open>Short headers\<close>

definition ParseShortHeader ::
  "bytes \<Rightarrow> nat \<Rightarrow> wire_error + (nat \<times> int \<times> PacketNumberLen \<times> KeyPhaseBit \<times> wire_error option)" where
  "ParseShortHeader data connIDLen =
    (if length data = 0 then Inl WireEOF
     else if data ! 0 AND 0x80 > 0 then Inl NotShortHeader
     else if data ! 0 AND 0x40 = 0 then Inl NotQUIC
     else
       (let pnLen = unat (data ! 0 AND 0b11) + 1 in
        if length data < 1 + pnLen + connIDLen then Inl WireEOF
        else
          (let pos = 1 + connIDLen in
           bindE (readPacketNumber (drop pos data) pnLen) (\<lambda>pn.
           let kp = (if data ! 0 AND 0b100 > 0 then KeyPhaseOne else KeyPhaseZero);
               err = (if data ! 0 AND 0x18 \<noteq> 0 then Some ErrInvalidReservedBits else None) in
           Inr (1 + connIDLen + pnLen, pn, pnLen, kp, err)))))"

definition AppendShortHeader ::
  "bytes \<Rightarrow> bytes \<Rightarrow> int \<Rightarrow> PacketNumberLen \<Rightarrow> KeyPhaseBit \<Rightarrow> wire_error + bytes" where
  "AppendShortHeader b connID pn pnLen kp =
    (let typeByte = 0x40 OR (of_nat pnLen - 1);
         typeByte = (if kp = KeyPhaseOne then typeByte OR push_bit 2 1 else typeByte);
         b = b @ [typeByte] @ connID in
     appendPacketNumber b pn pnLen)"

definition ShortHeaderLen :: "bytes \<Rightarrow> PacketNumberLen \<Rightarrow> nat" where
  "ShortHeaderLen dest pnLen = 1 + length dest + pnLen"

section \<open>Long headers\<close>

definition Version1 :: u32 where "Version1 = 0x1"
definition Version2 :: u32 where "Version2 = 0x6b3343cf"
definition SupportedVersions :: "u32 list" where "SupportedVersions = [Version1, Version2]"

definition IsSupportedVersion :: "u32 list \<Rightarrow> u32 \<Rightarrow> bool" where
  "IsSupportedVersion supported v = List.member supported v"

text \<open>The type of a header whose version is not understood is the zero value.\<close>

datatype PacketType = PacketTypeUnset | PacketTypeInitial | PacketTypeRetry | PacketTypeHandshake | PacketType0RTT

record Header =
  h_typeByte :: byte
  h_Type :: PacketType
  h_Version :: u32
  SrcConnectionID :: bytes
  DestConnectionID :: bytes
  h_Length :: nat
  h_Token :: bytes
  h_parsedLen :: nat

definition IsPotentialQUICPacket :: "byte \<Rightarrow> bool" where
  "IsPotentialQUICPacket firstByte = (firstByte AND 0x40 > 0)"

definition IsLongHeaderPacket :: "byte \<Rightarrow> bool" where
  "IsLongHeaderPacket firstByte = (firstByte AND 0x80 > 0)"

definition wire_ParseConnectionID :: "bytes \<Rightarrow> nat \<Rightarrow> wire_error + bytes" where
  "wire_ParseConnectionID data shortHeaderConnIDLen =
    (if length data = 0 then Inl WireEOF
     else if \<not> IsLongHeaderPacket (data ! 0) then
       (if length data < shortHeaderConnIDLen + 1 then Inl WireEOF
        else if shortHeaderConnIDLen > MaxConnIDLen then Inl WirePanic
        else Inr (take shortHeaderConnIDLen (drop 1 data)))
     else if length data < 6 then Inl WireEOF
     else
       (let destConnIDLen = unat (data ! 5) in
        if destConnIDLen > MaxConnIDLen then Inl ErrInvalidConnectionIDLen
        else if length data < 6 + destConnIDLen then Inl WireEOF
        else Inr (take destConnIDLen (drop 6 data))))"

definition ParseArbitraryLenConnectionIDs :: "bytes \<Rightarrow> wire_error + (nat \<times> bytes \<times> bytes)" where
  "ParseArbitraryLenConnectionIDs data =
    (let startLen = length data in
     if length data < 6 then Inl WireEOF
     else
       (let data = drop 5 data;
            destConnIDLen = unat (data ! 0);
            data = drop 1 data in
        if length data < destConnIDLen + 1 then Inl WireEOF
        else
          (let destConnID = take destConnIDLen data;
               data = drop destConnIDLen data;
               srcConnIDLen = unat (data ! 0);
               data = drop 1 data in
           if length data < srcConnIDLen then Inl WireEOF
           else Inr (startLen - length data + srcConnIDLen, destConnID, take srcConnIDLen data))))"

definition ParseVersion :: "bytes \<Rightarrow> wire_error + u32" where
  "ParseVersion data = (if length data < 5 then Inl WireEOF else Inr (of_nat (unbe (take 4 (drop 1 data)))))"

definition IsVersionNegotiationPacket :: "bytes \<Rightarrow> bool" where
  "IsVersionNegotiationPacket b =
    (if length b < 5 then False
     else IsLongHeaderPacket (b ! 0) \<and> b ! 1 = 0 \<and> b ! 2 = 0 \<and> b ! 3 = 0 \<and> b ! 4 = 0)"

definition Is0RTTPacket :: "bytes \<Rightarrow> bool" where
  "Is0RTTPacket b =
    (if length b < 5 then False
     else if \<not> IsLongHeaderPacket (b ! 0) then False
     else
       (let version = of_nat (unbe (take 4 (drop 1 b))) in
        if version = Version1 then drop_bit 4 (b ! 0) AND 0b11 = 0b01
        else if version = Version2 then drop_bit 4 (b ! 0) AND 0b11 = 0b10
        else False))"

definition packetTypeOf :: "u32 \<Rightarrow> byte \<Rightarrow> PacketType" where
  "packetTypeOf version typeByte =
    (let t = drop_bit 4 typeByte AND 0b11 in
     if version = Version2 then
       (if t = 0b00 then PacketTypeRetry
        else if t = 0b01 then PacketTypeInitial
        else if t = 0b10 then PacketType0RTT
        else PacketTypeHandshake)
     else
       (if t = 0b00 then PacketTypeInitial
        else if t = 0b01 then PacketType0RTT
        else if t = 0b10 then PacketTypeHandshake
        else PacketTypeRetry))"

text \<open>The part of \<open>parseLongHeader\<close> after the connection ids, for a version that is understood.\<close>

definition parseLongHeaderTail :: "nat \<Rightarrow> Header \<Rightarrow> bytes \<Rightarrow> Header \<times> nat \<times> wire_error option" where
  "parseLongHeaderTail startLen h b =
    (if h_Type h = PacketTypeRetry then
       (if length b \<le> 16 then (h, startLen - length b, Some WireEOF)
        else
          (let tokenLen = length b - 16 in
           (h\<lparr>h_Token := take tokenLen b\<rparr>, startLen - length b + tokenLen + 16, None)))
     else
       (case (if h_Type h = PacketTypeInitial then
                (case quicvarint_Parse b of
                   Inl e \<Rightarrow> Inl (startLen - length b, WireVarint e)
                 | Inr (tokenLen, n) \<Rightarrow>
                     (let b = drop n b in
                      if unat tokenLen > length b then Inl (startLen - length b, WireEOF)
                      else Inr (h\<lparr>h_Token := take (unat tokenLen) b\<rparr>, drop (unat tokenLen) b)))
              else Inr (h, b)) of
          Inl (l, e) \<Rightarrow> (h, l, Some e)
        | Inr (h, b) \<Rightarrow>
            (case quicvarint_Parse b of
               Inl e \<Rightarrow> (h, 0, Some (WireVarint e))
             | Inr (pl, n) \<Rightarrow> (h\<lparr>h_Length := unat pl\<rparr>, startLen - length b + n, None))))"

definition parseLongHeader :: "Header \<Rightarrow> bytes \<Rightarrow> Header \<times> nat \<times> wire_error option" where
  "parseLongHeader h b =
    (let startLen = length b in
     if length b < 5 then (h, 0, Some WireEOF)
     else
       (let h = h\<lparr>h_Version := of_nat (unbe (take 4 b))\<rparr> in
        if h_Version h \<noteq> 0 \<and> h_typeByte h AND 0x40 = 0 then (h, startLen - length b, Some NotQUIC)
        else
          (let destConnIDLen = unat (b ! 4) in
           if destConnIDLen > MaxConnIDLen then (h, startLen - length b, Some ErrInvalidConnectionIDLen)
           else
             (let b = drop 5 b in
              if length b < destConnIDLen + 1 then (h, startLen - length b, Some WireEOF)
              else
                (let h = h\<lparr>DestConnectionID := take destConnIDLen b\<rparr>;
                     srcConnIDLen = unat (b ! destConnIDLen) in
                 if srcConnIDLen > MaxConnIDLen then (h, startLen - length b, Some ErrInvalidConnectionIDLen)
                 else
                   (let b = drop (destConnIDLen + 1) b in
                    if length b < srcConnIDLen then (h, startLen - length b, Some WireEOF)
                    else
                      (let h = h\<lparr>SrcConnectionID := take srcConnIDLen b\<rparr>;
                           b = drop srcConnIDLen b in
                       if h_Version h = 0 then (h, startLen - length b, None)
                       else if \<not> IsSupportedVersion SupportedVersions (h_Version h) then
                         (h, startLen - length b, Some ErrUnsupportedVersion)
                       else
                         parseLongHeaderTail startLen
                           (h\<lparr>h_Type := packetTypeOf (h_Version h) (h_typeByte h)\<rparr>) b)))))))"

definition zeroHeader :: Header where
  "zeroHeader = \<lparr>h_typeByte = 0, h_Type = PacketTypeUnset, h_Version = 0, SrcConnectionID = [],
    DestConnectionID = [], h_Length = 0, h_Token = [], h_parsedLen = 0\<rparr>"

definition parseHeader :: "bytes \<Rightarrow> Header \<times> wire_error option" where
  "parseHeader b =
    (if length b = 0 then (zeroHeader, Some WireEOF)
     else
       (case parseLongHeader (zeroHeader\<lparr>h_typeByte := b ! 0\<rparr>) (drop 1 b) of
          (h, l, err) \<Rightarrow> (h\<lparr>h_parsedLen := l + 1\<rparr>, err)))"

definition ParsePacket :: "bytes \<Rightarrow> (wire_error \<times> Header option) + (Header \<times> bytes \<times> bytes)" where
  "ParsePacket data =
    (if length data = 0 \<or> \<not> IsLongHeaderPacket (data ! 0) then Inl (NotLongHeader, None)
     else
       (case parseHeader data of
          (hdr, Some err) \<Rightarrow> if err = ErrUnsupportedVersion then Inl (err, Some hdr) else Inl (err, None)
        | (hdr, None) \<Rightarrow>
            if length data < h_parsedLen hdr + h_Length hdr then Inl (PacketLengthTooSmall, None)
            else
              (let packetLen = h_parsedLen hdr + h_Length hdr in
               Inr (hdr, take packetLen data, drop packetLen data))))"

record ExtendedHeader =
  eh_Header :: Header
  eh_typeByte :: byte
  eh_PacketNumberLen :: PacketNumberLen
  eh_PacketNumber :: int
  eh_parsedLen :: nat

definition toExtendedHeader :: "Header \<Rightarrow> ExtendedHeader" where
  "toExtendedHeader h =
    \<lparr>eh_Header = h, eh_typeByte = 0, eh_PacketNumberLen = 0, eh_PacketNumber = 0, eh_parsedLen = 0\<rparr>"

definition ExtendedHeader_parse :: "ExtendedHeader \<Rightarrow> bytes \<Rightarrow> ExtendedHeader \<times> (wire_error + bool)" where
  "ExtendedHeader_parse h data =
    (if length data = 0 then (h, Inl WirePanic)
     else
       (let h = h\<lparr>eh_typeByte := data ! 0\<rparr>;
            h = h\<lparr>eh_PacketNumberLen := unat (eh_typeByte h AND 0x3) + 1\<rparr> in
        if length data < h_parsedLen (eh_Header h) + eh_PacketNumberLen h then (h, Inl WireEOF)
        else
          (case readPacketNumber (drop (h_parsedLen (eh_Header h)) data) (eh_PacketNumberLen h) of
             Inl _ \<Rightarrow> (h, Inr True)
           | Inr pn \<Rightarrow>
               (let h = h\<lparr>eh_PacketNumber := pn\<rparr>;
                    reservedBitsValid = (eh_typeByte h AND 0xc = 0) in
                (h\<lparr>eh_parsedLen := h_parsedLen (eh_Header h) + eh_PacketNumberLen h\<rparr>, Inr reservedBitsValid)))))"

definition ParseExtended :: "Header \<Rightarrow> bytes \<Rightarrow> wire_error + (ExtendedHeader \<times> wire_error option)" where
  "ParseExtended h data =
    (case ExtendedHeader_parse (toExtendedHeader h) data of
       (_, Inl err) \<Rightarrow> Inl err
     | (extHdr, Inr reservedBitsValid) \<Rightarrow>
         if \<not> reservedBitsValid then Inr (extHdr, Some ErrInvalidReservedBits) else Inr (extHdr, None))"

definition packetTypeBits :: "PacketType \<Rightarrow> u32 \<Rightarrow> byte" where
  "packetTypeBits t v =
    (if v = Version2 then
       (case t of PacketTypeInitial \<Rightarrow> 0b01 | PacketType0RTT \<Rightarrow> 0b10 | PacketTypeHandshake \<Rightarrow> 0b11
        | PacketTypeRetry \<Rightarrow> 0b00 | PacketTypeUnset \<Rightarrow> 0)
     else
       (case t of PacketTypeInitial \<Rightarrow> 0b00 | PacketType0RTT \<Rightarrow> 0b01 | PacketTypeHandshake \<Rightarrow> 0b10
        | PacketTypeRetry \<Rightarrow> 0b11 | PacketTypeUnset \<Rightarrow> 0))"

definition ExtendedHeader_Append :: "ExtendedHeader \<Rightarrow> bytes \<Rightarrow> u32 \<Rightarrow> wire_error + bytes" where
  "ExtendedHeader_Append h b v =
    (let hdr = eh_Header h in
     if length (DestConnectionID hdr) > MaxConnIDLen then Inl ErrInvalidConnectionIDLen
     else if length (SrcConnectionID hdr) > MaxConnIDLen then Inl ErrInvalidConnectionIDLen
     else
       (let packetType = packetTypeBits (h_Type hdr) v;
            firstByte = 0xc0 OR push_bit 4 packetType;
            firstByte = (if h_Type hdr \<noteq> PacketTypeRetry then firstByte OR (of_nat (eh_PacketNumberLen h) - 1)
                         else firstByte);
            b = b @ [firstByte] @ be 4 (unat (h_Version hdr));
            b = b @ [of_nat (length (DestConnectionID hdr))] @ DestConnectionID hdr;
            b = b @ [of_nat (length (SrcConnectionID hdr))] @ SrcConnectionID hdr in
        if h_Type hdr = PacketTypeRetry then Inr (b @ h_Token hdr)
        else
          bindE (if h_Type hdr = PacketTypeInitial then
                   mapE WireAppendVarint (bindE (quicvarint_Append b (of_nat (length (h_Token hdr)))) (\<lambda>b.
                     Inr (b @ h_Token hdr)))
                 else Inr b) (\<lambda>b.
          bindE (mapE WireAppendVarint (quicvarint_AppendWithLen b (of_nat (h_Length hdr)) 2)) (\<lambda>b.
          appendPacketNumber b (eh_PacketNumber h) (eh_PacketNumberLen h)))))"

definition GetLength :: "ExtendedHeader \<Rightarrow> quicvarint_panic + nat" where
  "GetLength h =
    (let hdr = eh_Header h;
         len = 1 + 4 + 1 + length (DestConnectionID hdr) + 1 + length (SrcConnectionID hdr) + eh_PacketNumberLen h + 2 in
     if h_Type hdr = PacketTypeInitial then
       bindE (quicvarint_Len (of_nat (length (h_Token hdr)))) (\<lambda>l. Inr (len + (l + length (h_Token hdr))))
     else Inr len)"

end
