(* ===== verification/GmUpdatable.thy ===== *)
theory GmUpdatable
  imports GmSealer
begin

text \<open>
  The 1-RTT codec with key updates, \<open>src/quic-go/internal/handshake/gm_updatable.go\<close>. Key
  material that is dropped is None, a released secret is the empty list. Times are
  nanoseconds of the monotonic clock, and the interval between updates, an atomic variable
  of the package, is an argument.
\<close>

section \<open>State\<close>

record gmUpdatableAEAD =
  sendKM :: "gmKeyMaterial option"
  rcvKM :: "gmKeyMaterial option"
  prevRcvKM :: "gmKeyMaterial option"
  prevRcvKMExpiry :: int
  nextSendSecret :: bytes
  nextRcvSecret :: bytes
  keyPhase :: KeyPhaseBit
  largestAcked :: int
  firstSent :: int
  firstRcvd :: int
  highestRcvdPN :: int
  numSent :: u64
  numRcvd :: u64
  invalidPacketCount :: u64
  invalidPacketLimit :: u64
  handshakeConfirmed :: bool

definition gmFirstKeyUpdateInterval :: u64 where "gmFirstKeyUpdateInterval = 100"
definition gmApproximatePTO :: int where "gmApproximatePTO = 1000000000"

definition newGMUpdatableAEAD ::
  "'x gm_sym_scheme \<Rightarrow> QUICPacketKeys option \<Rightarrow> QUICPacketKeys option \<Rightarrow> bytes \<Rightarrow> bytes
    \<Rightarrow> gm_error + gmUpdatableAEAD" where
  "newGMUpdatableAEAD g sendKeys rcvKeys sendSecret rcvSecret =
    bindE (newGMKeyMaterial sendKeys) (\<lambda>send.
    bindE (newGMKeyMaterial rcvKeys) (\<lambda>rcv.
    bindE (mapE GmKdf (QUICKeyUpdate g sendSecret)) (\<lambda>nextSend.
    bindE (mapE GmKdf (QUICKeyUpdate g rcvSecret)) (\<lambda>nextRcv.
    Inr \<lparr>sendKM = Some send, rcvKM = Some rcv, prevRcvKM = None, prevRcvKMExpiry = 0,
      nextSendSecret = nextSend, nextRcvSecret = nextRcv, keyPhase = KeyPhaseZero,
      largestAcked = InvalidPacketNumber, firstSent = InvalidPacketNumber, firstRcvd = InvalidPacketNumber,
      highestRcvdPN = InvalidPacketNumber, numSent = 0, numRcvd = 0, invalidPacketCount = 0,
      invalidPacketLimit = gmAEADInvalidPacketLimit, handshakeConfirmed = False\<rparr>))))"

section \<open>Rolling the keys\<close>

definition rollKeys :: "'x gm_sym_scheme \<Rightarrow> gmUpdatableAEAD \<Rightarrow> gmUpdatableAEAD \<times> (gm_error + unit)" where
  "rollKeys g u =
    (let u = u\<lparr>prevRcvKM := rcvKM u\<rparr> in
     tryS u (mapE GmKdf (DeriveQUICPacketKeys g (nextSendSecret u))) (\<lambda>nextSendKeys.
     tryS u (mapE GmKdf (DeriveQUICPacketKeys g (nextRcvSecret u))) (\<lambda>nextRcvKeys.
     tryS (u\<lparr>sendKM := None\<rparr>) (newGMKeyMaterial (Some nextSendKeys)) (\<lambda>km.
     let u = u\<lparr>sendKM := Some km\<rparr> in
     tryS (u\<lparr>rcvKM := None\<rparr>) (newGMKeyMaterial (Some nextRcvKeys)) (\<lambda>km.
     let u = u\<lparr>rcvKM := Some km\<rparr> in
     tryS u (mapE GmKdf (QUICKeyUpdate g (nextSendSecret u))) (\<lambda>newSendSecret.
     tryS u (mapE GmKdf (QUICKeyUpdate g (nextRcvSecret u))) (\<lambda>newRcvSecret.
     let u = u\<lparr>nextSendSecret := newSendSecret, nextRcvSecret := newRcvSecret\<rparr>;
         u = u\<lparr>keyPhase := (if keyPhase u = KeyPhaseZero then KeyPhaseOne else KeyPhaseZero)\<rparr> in
     (u\<lparr>firstSent := InvalidPacketNumber, firstRcvd := InvalidPacketNumber, numSent := 0, numRcvd := 0\<rparr>,
      Inr ()))))))))"

definition updateAllowed :: "gmUpdatableAEAD \<Rightarrow> bool" where
  "updateAllowed u =
    (if \<not> handshakeConfirmed u then False
     else keyPhase u = KeyPhaseZero \<or>
       (firstSent u \<noteq> InvalidPacketNumber \<and> largestAcked u \<noteq> InvalidPacketNumber \<and> largestAcked u \<ge> firstSent u))"

definition shouldInitiateKeyUpdate :: "u64 \<Rightarrow> gmUpdatableAEAD \<Rightarrow> bool" where
  "shouldInitiateKeyUpdate interval u =
    (if \<not> updateAllowed u then False
     else if keyPhase u = KeyPhaseZero
       \<and> (numRcvd u \<ge> gmFirstKeyUpdateInterval \<or> numSent u \<ge> gmFirstKeyUpdateInterval) then True
     else numRcvd u \<ge> interval \<or> numSent u \<ge> interval)"

section \<open>Sealing\<close>

definition updatable_Seal ::
  "'x gm_sym_scheme \<Rightarrow> gmUpdatableAEAD \<Rightarrow> bytes \<Rightarrow> bytes \<Rightarrow> int \<Rightarrow> bytes \<Rightarrow> gmUpdatableAEAD \<times> (gm_error + bytes)" where
  "updatable_Seal g u dst src pn ad =
    (case sendKM u of
       None \<Rightarrow> (u, Inl GmPanic)
     | Some km \<Rightarrow>
         (case AEAD_Seal g (km_aead km) (word_of_int pn) src ad of
            Inl _ \<Rightarrow> (u, Inl GmPanic)
          | Inr ct \<Rightarrow>
              (let u = u\<lparr>numSent := numSent u + 1\<rparr>;
                   u = (if firstSent u = InvalidPacketNumber then u\<lparr>firstSent := pn\<rparr> else u) in
               (u, Inr (dst @ ct)))))"

definition updatable_EncryptHeader ::
  "'x gm_sym_scheme \<Rightarrow> gmUpdatableAEAD \<Rightarrow> bytes \<Rightarrow> byte \<Rightarrow> bytes \<Rightarrow> gm_error + (byte \<times> bytes)" where
  "updatable_EncryptHeader g u sample firstByte pnBytes =
    (case sendKM u of
       None \<Rightarrow> Inl GmPanic
     | Some km \<Rightarrow> applyGMHeaderMask g (km_hp km) False sample firstByte pnBytes)"

definition updatable_Overhead :: "gmUpdatableAEAD \<Rightarrow> nat" where
  "updatable_Overhead u = 16"

definition updatableSealer :: "'x gm_sym_scheme \<Rightarrow> gmUpdatableAEAD sealer" where
  "updatableSealer g =
    \<lparr>sl_Seal = updatable_Seal g, sl_EncryptHeader = updatable_EncryptHeader g, sl_Overhead = updatable_Overhead\<rparr>"

definition KeyPhase :: "'x gm_sym_scheme \<Rightarrow> u64 \<Rightarrow> gmUpdatableAEAD \<Rightarrow> gmUpdatableAEAD \<times> (gm_error + KeyPhaseBit)" where
  "KeyPhase g interval u =
    (if shouldInitiateKeyUpdate interval u then
       (case rollKeys g u of
          (u, Inl _) \<Rightarrow> (u, Inl GmPanic)
        | (u, Inr _) \<Rightarrow> (u, Inr (keyPhase u)))
     else (u, Inr (keyPhase u)))"

section \<open>Opening\<close>

definition updatable_DecryptHeader ::
  "'x gm_sym_scheme \<Rightarrow> gmUpdatableAEAD \<Rightarrow> bytes \<Rightarrow> byte \<Rightarrow> bytes \<Rightarrow> gm_error + (byte \<times> bytes)" where
  "updatable_DecryptHeader g u sample firstByte pnBytes =
    (case rcvKM u of
       None \<Rightarrow> Inl GmPanic
     | Some km \<Rightarrow> applyGMHeaderMask g (km_hp km) False sample firstByte pnBytes)"

definition updatable_DecodePacketNumber :: "gmUpdatableAEAD \<Rightarrow> int \<Rightarrow> PacketNumberLen \<Rightarrow> int" where
  "updatable_DecodePacketNumber u wirePN wirePNLen =
    protocol_DecodePacketNumber wirePNLen (highestRcvdPN u) wirePN"

definition startKeyDropTimer :: "gmUpdatableAEAD \<Rightarrow> int \<Rightarrow> gmUpdatableAEAD" where
  "startKeyDropTimer u now = u\<lparr>prevRcvKMExpiry := now + 3 * gmApproximatePTO\<rparr>"

definition nextRcvKeyMaterial :: "'x gm_sym_scheme \<Rightarrow> gmUpdatableAEAD \<Rightarrow> gm_error + gmKeyMaterial" where
  "nextRcvKeyMaterial g u =
    bindE (mapE GmKdf (DeriveQUICPacketKeys g (nextRcvSecret u))) (\<lambda>keys. newGMKeyMaterial (Some keys))"

definition decryptionFailed :: "gmUpdatableAEAD \<Rightarrow> gmUpdatableAEAD \<times> (gm_error + bytes)" where
  "decryptionFailed u =
    (let u = u\<lparr>invalidPacketCount := invalidPacketCount u + 1\<rparr> in
     if invalidPacketCount u \<ge> invalidPacketLimit u then (u, Inl AEADLimitReached)
     else (u, Inl ErrDecryptionFailed))"

definition dropExpired :: "gmUpdatableAEAD \<Rightarrow> int \<Rightarrow> gmUpdatableAEAD" where
  "dropExpired u rcvTime =
    (if prevRcvKM u \<noteq> None \<and> prevRcvKMExpiry u \<noteq> 0 \<and> rcvTime > prevRcvKMExpiry u
     then u\<lparr>prevRcvKM := None, prevRcvKMExpiry := 0\<rparr> else u)"

definition raiseHighest :: "gmUpdatableAEAD \<Rightarrow> int \<Rightarrow> gmUpdatableAEAD" where
  "raiseHighest u pn = (if pn > highestRcvdPN u then u\<lparr>highestRcvdPN := pn\<rparr> else u)"

text \<open>The two halves of \<open>Open\<close>: a packet of another key phase, and one of the current.\<close>

definition openOtherPhase ::
  "'x gm_sym_scheme \<Rightarrow> gmUpdatableAEAD \<Rightarrow> bytes \<Rightarrow> bytes \<Rightarrow> int \<Rightarrow> int \<Rightarrow> bytes \<Rightarrow> gmUpdatableAEAD \<times> (gm_error + bytes)" where
  "openOtherPhase g u dst src rcvTime pn ad =
    (if keyPhase u \<noteq> KeyPhaseZero \<and> (firstRcvd u = InvalidPacketNumber \<or> pn < firstRcvd u) then
       (case prevRcvKM u of
          None \<Rightarrow> (u, Inl ErrKeysDropped)
        | Some km \<Rightarrow>
            (case AEAD_Open g (km_aead km) (word_of_int pn) src ad of
               Inl _ \<Rightarrow> decryptionFailed u
             | Inr pt \<Rightarrow> (u, Inr (dst @ pt))))
     else
       tryS u (nextRcvKeyMaterial g u) (\<lambda>nextKM.
       case AEAD_Open g (km_aead nextKM) (word_of_int pn) src ad of
         Inl _ \<Rightarrow> decryptionFailed u
       | Inr pt \<Rightarrow>
           if keyPhase u \<noteq> KeyPhaseZero \<and> firstSent u = InvalidPacketNumber then (u, Inl KeysUpdatedTooQuickly)
           else
             (case rollKeys g u of
                (u, Inl e) \<Rightarrow> (u, Inl e)
              | (u, Inr _) \<Rightarrow>
                  (let u = u\<lparr>firstRcvd := pn\<rparr>;
                       u = raiseHighest u pn in
                   (startKeyDropTimer u rcvTime, Inr (dst @ pt))))))"

definition openWithEcho ::
  "'x gm_sym_scheme \<Rightarrow> gmKeyMaterial \<Rightarrow> gmKeyMaterial option \<Rightarrow> bytes \<Rightarrow> int \<Rightarrow> bytes \<Rightarrow> aead_error + bytes" where
  "openWithEcho g km prev src pn ad =
    (case AEAD_Open g (km_aead km) (word_of_int pn) src ad of
       Inr pt \<Rightarrow> Inr pt
     | Inl e \<Rightarrow>
         (case prev of
            None \<Rightarrow> Inl e
          | Some prevKM \<Rightarrow>
              (case AEAD_Open g (km_aead prevKM) (word_of_int pn) src ad of
                 Inr pt2 \<Rightarrow> Inr pt2
               | Inl _ \<Rightarrow> Inl e)))"

definition recordReceived :: "gmUpdatableAEAD \<Rightarrow> int \<Rightarrow> int \<Rightarrow> gmUpdatableAEAD" where
  "recordReceived u rcvTime pn =
    (let u = u\<lparr>numRcvd := numRcvd u + 1\<rparr>;
         u = (if firstRcvd u = InvalidPacketNumber then
                (let u = (if keyPhase u \<noteq> KeyPhaseZero then startKeyDropTimer u rcvTime else u) in
                 u\<lparr>firstRcvd := pn\<rparr>)
              else u) in
     raiseHighest u pn)"

definition openCurrentPhase ::
  "'x gm_sym_scheme \<Rightarrow> gmUpdatableAEAD \<Rightarrow> bytes \<Rightarrow> bytes \<Rightarrow> int \<Rightarrow> int \<Rightarrow> bytes \<Rightarrow> gmUpdatableAEAD \<times> (gm_error + bytes)" where
  "openCurrentPhase g u dst src rcvTime pn ad =
    (case rcvKM u of
       None \<Rightarrow> (u, Inl GmPanic)
     | Some km \<Rightarrow>
         (case openWithEcho g km (prevRcvKM u) src pn ad of
            Inl _ \<Rightarrow> decryptionFailed u
          | Inr pt \<Rightarrow> (recordReceived u rcvTime pn, Inr (dst @ pt))))"

definition updatable_Open ::
  "'x gm_sym_scheme \<Rightarrow> gmUpdatableAEAD \<Rightarrow> bytes \<Rightarrow> bytes \<Rightarrow> int \<Rightarrow> int \<Rightarrow> KeyPhaseBit \<Rightarrow> bytes \<Rightarrow>
    gmUpdatableAEAD \<times> (gm_error + bytes)" where
  "updatable_Open g u dst src rcvTime pn kp ad =
    (let u = dropExpired u rcvTime in
     if kp \<noteq> keyPhase u then openOtherPhase g u dst src rcvTime pn ad
     else openCurrentPhase g u dst src rcvTime pn ad)"

section \<open>Control\<close>

definition SetLargestAcked :: "gmUpdatableAEAD \<Rightarrow> int \<Rightarrow> gmUpdatableAEAD \<times> (gm_error + unit)" where
  "SetLargestAcked u pn =
    (if firstSent u \<noteq> InvalidPacketNumber \<and> pn \<ge> firstSent u \<and> numRcvd u = 0 then (u, Inl PeerDidNotUpdate)
     else (u\<lparr>largestAcked := pn\<rparr>, Inr ()))"

definition updatable_SetHandshakeConfirmed :: "gmUpdatableAEAD \<Rightarrow> gmUpdatableAEAD" where
  "updatable_SetHandshakeConfirmed u = u\<lparr>handshakeConfirmed := True\<rparr>"

definition updatable_Zero :: "gmUpdatableAEAD \<Rightarrow> gmUpdatableAEAD" where
  "updatable_Zero u =
    u\<lparr>nextSendSecret := [], nextRcvSecret := [], sendKM := None, rcvKM := None, prevRcvKM := None,
      prevRcvKMExpiry := 0\<rparr>"

end
