(* ===== verification/PacketCodec.thy ===== *)
theory PacketCodec
  imports WireHeader GmUpdatable
begin

text \<open>
  How the transport turns a payload into a packet and back: the functions of
  \<open>src/quic-go/packet_packer.go\<close> that write and seal one packet, and those of
  \<open>packet_unpacker.go\<close> that unprotect and open one. Frames are serialised by their own
  methods, so a payload is the bytes they produce. Opening decrypts into the received
  buffer, which nobody reads again; only the buffer with its header unprotected is
  represented.
\<close>

section \<open>Interfaces\<close>

record 'o headerDecryptor =
  hd_DecryptHeader :: "'o \<Rightarrow> bytes \<Rightarrow> byte \<Rightarrow> bytes \<Rightarrow> gm_error + (byte \<times> bytes)"

record 'o LongHeaderOpener = "'o headerDecryptor" +
  lho_DecodePacketNumber :: "'o \<Rightarrow> int \<Rightarrow> PacketNumberLen \<Rightarrow> int"
  lho_Open :: "'o \<Rightarrow> bytes \<Rightarrow> bytes \<Rightarrow> int \<Rightarrow> bytes \<Rightarrow> 'o \<times> (gm_error + bytes)"

record 'o ShortHeaderOpener = "'o headerDecryptor" +
  sho_DecodePacketNumber :: "'o \<Rightarrow> int \<Rightarrow> PacketNumberLen \<Rightarrow> int"
  sho_Open :: "'o \<Rightarrow> bytes \<Rightarrow> bytes \<Rightarrow> int \<Rightarrow> int \<Rightarrow> KeyPhaseBit \<Rightarrow> bytes \<Rightarrow> 'o \<times> (gm_error + bytes)"

definition longOpener :: "'x gm_sym_scheme \<Rightarrow> gmLongOpener LongHeaderOpener" where
  "longOpener g =
    \<lparr>hd_DecryptHeader = gmLongOpener_DecryptHeader g, lho_DecodePacketNumber = gmLongOpener_DecodePacketNumber,
     lho_Open = gmLongOpener_Open g\<rparr>"

definition updatableOpener :: "'x gm_sym_scheme \<Rightarrow> gmUpdatableAEAD ShortHeaderOpener" where
  "updatableOpener g =
    \<lparr>hd_DecryptHeader = updatable_DecryptHeader g, sho_DecodePacketNumber = updatable_DecodePacketNumber,
     sho_Open = updatable_Open g\<rparr>"

section \<open>Packing\<close>

datatype pack_error =
    PackWire wire_error
  | PackCrypto gm_error
  | PackPayloadSize
  | PackTooLarge
  | PackNumberMismatch

record payload =
  pl_ack :: bytes
  pl_frames :: bytes
  pl_length :: nat

definition appendPacketPayload :: "bytes \<Rightarrow> payload \<Rightarrow> nat \<Rightarrow> pack_error + bytes" where
  "appendPacketPayload packet pl paddingLen =
    (let payloadOffset = length packet;
         packet = packet @ pl_ack pl;
         packet = packet @ replicate paddingLen 0;
         packet = packet @ pl_frames pl in
     if length packet - payloadOffset - paddingLen \<noteq> pl_length pl then Inl PackPayloadSize else Inr packet)"

definition paddingFor :: "payload \<Rightarrow> nat \<Rightarrow> nat \<Rightarrow> nat" where
  "paddingFor pl pnLen padding = (if pl_length pl < 4 - pnLen then 4 - pnLen - pl_length pl else 0) + padding"

definition appendLongHeaderPacket ::
  "'s sealer \<Rightarrow> 's \<Rightarrow> ExtendedHeader \<Rightarrow> payload \<Rightarrow> nat \<Rightarrow> u32 \<Rightarrow> 's \<times> (pack_error + (ExtendedHeader \<times> bytes))" where
  "appendLongHeaderPacket S s header pl padding v =
    (let pnLen = eh_PacketNumberLen header;
         paddingLen = paddingFor pl pnLen padding;
         header = header\<lparr>eh_Header := (eh_Header header)\<lparr>h_Length := pnLen + sl_Overhead S s + pl_length pl + paddingLen\<rparr>\<rparr> in
     tryS s (mapE PackWire (ExtendedHeader_Append header [] v)) (\<lambda>packet.
     let payloadOffset = length packet in
     tryS s (appendPacketPayload packet pl paddingLen) (\<lambda>packet.
     case encryptPacket S s packet (eh_PacketNumber header) payloadOffset pnLen of
       (s, Inl e) \<Rightarrow> (s, Inl (PackCrypto e))
     | (s, Inr packet) \<Rightarrow> (s, Inr (header, packet)))))"

definition appendShortHeaderPacket ::
  "'s sealer \<Rightarrow> 's \<Rightarrow> bytes \<Rightarrow> int \<Rightarrow> PacketNumberLen \<Rightarrow> KeyPhaseBit \<Rightarrow> payload \<Rightarrow> nat \<Rightarrow> nat \<Rightarrow> bool \<Rightarrow> int
    \<Rightarrow> 's \<times> (pack_error + bytes)" where
  "appendShortHeaderPacket S s connID pn pnLen kp pl padding maxPacketSize isMTUProbePacket newPN =
    (let paddingLen = paddingFor pl pnLen padding in
     tryS s (mapE PackWire (AppendShortHeader [] connID pn pnLen kp)) (\<lambda>packet.
     let payloadOffset = length packet in
     tryS s (appendPacketPayload packet pl paddingLen) (\<lambda>packet.
     if \<not> isMTUProbePacket \<and> length packet + sl_Overhead S s > maxPacketSize then (s, Inl PackTooLarge)
     else
       (case encryptPacket S s packet pn payloadOffset pnLen of
          (s, Inl e) \<Rightarrow> (s, Inl (PackCrypto e))
        | (s, Inr packet) \<Rightarrow> if newPN \<noteq> pn then (s, Inl PackNumberMismatch) else (s, Inr packet)))))"

section \<open>Unpacking\<close>

datatype unpack_error =
    UnpackTooSmall
  | UnpackHeader wire_error
  | UnpackReservedBits
  | UnpackCrypto gm_error
  | UnpackEmpty
  | UnpackUnknownType

text \<open>The unprotected buffer and the parsed header; an error of the reserved bits does not stop parsing.\<close>

definition unpackShortHeader ::
  "('o, 'r) headerDecryptor_scheme \<Rightarrow> 'o \<Rightarrow> nat \<Rightarrow> bytes \<Rightarrow>
    unpack_error + (bytes \<times> nat \<times> int \<times> PacketNumberLen \<times> KeyPhaseBit \<times> wire_error option)" where
  "unpackShortHeader iface q shortHdrConnIDLen data =
    (let hdrLen = 1 + shortHdrConnIDLen in
     if length data < hdrLen + 4 + 16 then Inl UnpackTooSmall
     else
       (let origPNBytes = take 4 (drop hdrLen data) in
        bindE (mapE UnpackCrypto (hd_DecryptHeader iface q (take 16 (drop (hdrLen + 4) data)) (data ! 0) (take 4 (drop hdrLen data))))
          (\<lambda>(firstByte, pnBytes).
        let data = (copy_at data hdrLen pnBytes)[0 := firstByte] in
        bindE (mapE UnpackHeader (ParseShortHeader data shortHdrConnIDLen)) (\<lambda>(l, pn, pnLen, kp, parseErr).
        let data = (if pnLen \<noteq> 4 then copy_at data (hdrLen + pnLen) (drop pnLen origPNBytes) else data) in
        Inr (data, l, pn, pnLen, kp, parseErr)))))"

definition unpackShortHeaderPacket ::
  "'o ShortHeaderOpener \<Rightarrow> 'o \<Rightarrow> nat \<Rightarrow> int \<Rightarrow> bytes \<Rightarrow> 'o \<times> (unpack_error + (int \<times> PacketNumberLen \<times> KeyPhaseBit \<times> bytes))" where
  "unpackShortHeaderPacket iface q shortHdrConnIDLen rcvTime data =
    tryS q (unpackShortHeader iface q shortHdrConnIDLen data) (\<lambda>(data, l, pn, pnLen, kp, parseErr).
    let pn = sho_DecodePacketNumber iface q pn pnLen in
    case sho_Open iface q [] (drop l data) rcvTime pn kp (take l data) of
      (q, Inl e) \<Rightarrow> (q, Inl (UnpackCrypto e))
    | (q, Inr decrypted) \<Rightarrow>
        (case parseErr of
           None \<Rightarrow> (q, Inr (pn, pnLen, kp, decrypted))
         | Some _ \<Rightarrow> (q, Inl UnpackReservedBits)))"

definition unpackLongHeader ::
  "('o, 'r) headerDecryptor_scheme \<Rightarrow> 'o \<Rightarrow> Header \<Rightarrow> bytes \<Rightarrow>
    unpack_error + (bytes \<times> ExtendedHeader \<times> wire_error option)" where
  "unpackLongHeader iface q hdr data =
    (let hdrLen = h_parsedLen hdr in
     if length data < hdrLen + 4 + 16 then Inl UnpackTooSmall
     else
       (let origPNBytes = take 4 (drop hdrLen data) in
        bindE (mapE UnpackCrypto (hd_DecryptHeader iface q (take 16 (drop (hdrLen + 4) data)) (data ! 0) (take 4 (drop hdrLen data))))
          (\<lambda>(firstByte, pnBytes).
        let data = (copy_at data hdrLen pnBytes)[0 := firstByte] in
        bindE (mapE UnpackHeader (ParseExtended hdr data)) (\<lambda>(extHdr, parseErr).
        let data = (if eh_PacketNumberLen extHdr \<noteq> 4
                    then copy_at data (eh_parsedLen extHdr) (drop (eh_PacketNumberLen extHdr) origPNBytes) else data) in
        Inr (data, extHdr, parseErr)))))"

definition unpackLongHeaderPacket ::
  "'o LongHeaderOpener \<Rightarrow> 'o \<Rightarrow> Header \<Rightarrow> bytes \<Rightarrow> 'o \<times> (unpack_error + (ExtendedHeader \<times> bytes))" where
  "unpackLongHeaderPacket iface q hdr data =
    tryS q (unpackLongHeader iface q hdr data) (\<lambda>(data, extHdr, parseErr).
    let extHdrLen = eh_parsedLen extHdr;
        extHdr = extHdr\<lparr>eh_PacketNumber := lho_DecodePacketNumber iface q (eh_PacketNumber extHdr) (eh_PacketNumberLen extHdr)\<rparr> in
    case lho_Open iface q [] (drop extHdrLen data) (eh_PacketNumber extHdr) (take extHdrLen data) of
      (q, Inl e) \<Rightarrow> (q, Inl (UnpackCrypto e))
    | (q, Inr decrypted) \<Rightarrow>
        (case parseErr of
           None \<Rightarrow> (q, Inr (extHdr, decrypted))
         | Some _ \<Rightarrow> (q, Inl UnpackReservedBits)))"

end
