(* ===== verification/WireRoundtrip.thy ===== *)
theory WireRoundtrip
  imports WireHeader TransportParamsRoundtrip
begin

text \<open>
  Headers survive the wire: what \<open>AppendShortHeader\<close> and \<open>ExtendedHeader.Append\<close> write is
  what the parsers read, packet numbers are recovered from their truncation, and a datagram
  is cut at the end of its first packet.
\<close>

section \<open>Packet numbers\<close>

abbreviation pn_bytes :: "PacketNumberLen \<Rightarrow> int \<Rightarrow> bytes" where
  "pn_bytes n pn \<equiv> be n (nat (pn mod 256 ^ n))"

lemma pnLen_cases:
  assumes "1 \<le> n" "n \<le> (4 :: nat)"
  obtains "n = 1" | "n = 2" | "n = 3" | "n = 4"
proof -
  have "n = 1 \<or> n = 2 \<or> n = 3 \<or> n = 4" using assms by arith
  then show thesis using that by blast
qed

lemma unat_word_of_int:
  "unat (word_of_int x :: byte) = nat (x mod 256)" "unat (word_of_int x :: u16) = nat (x mod 65536)"
  "unat (word_of_int x :: u32) = nat (x mod 4294967296)"
  by (simp_all add: unsigned_of_int take_bit_eq_mod nat_mod_distrib)

lemma be_one: "be 1 x = [of_nat x]"
  by (simp add: be_numeral)

lemma be_three: "drop 1 (be 4 x) = be 3 x"
  by (simp add: be_numeral)

lemma nat_mod_mod: "nat (x mod 4294967296) mod 16777216 = nat (x mod 16777216)"
proof -
  have "nat (x mod 4294967296) mod 16777216 = nat (x mod 4294967296 mod 16777216)" by (simp add: nat_mod_distrib)
  also have "x mod 4294967296 mod 16777216 = x mod 16777216" by (rule mod_mod_cancel) simp
  finally show ?thesis .
qed

lemma appendPacketNumber_be:
  assumes "1 \<le> n" "n \<le> 4"
  shows "appendPacketNumber b pn n = Inr (b @ pn_bytes n pn)"
  using assms
proof (cases rule: pnLen_cases)
  case 1
  have "[word_of_int pn] = be 1 (nat (pn mod 256))"
    by (simp add: be_one word_unat_eq_iff unat_word_of_int unat_of_nat nat_mod_distrib)
  then show ?thesis using 1 by (simp add: appendPacketNumber_def)
next
  case 3
  have "be 3 (nat (pn mod 4294967296)) = be 3 (nat (pn mod 4294967296) mod 256 ^ 3)" by (rule be_mod [symmetric])
  also have "\<dots> = be 3 (nat (pn mod 16777216))" using nat_mod_mod [of pn] by simp
  finally show ?thesis using 3 be_three [of "nat (pn mod 4294967296)"] by (simp add: appendPacketNumber_def unat_word_of_int)
qed (simp_all add: appendPacketNumber_def unat_word_of_int)

lemma readPacketNumber_be:
  assumes "1 \<le> n" "n \<le> 4" "x < 256 ^ n"
  shows "readPacketNumber (be n x @ rest) n = Inr (int x)"
proof -
  have un: "unbe (be n x) = x" using assms(3) by (simp add: unbe_be_id)
  from assms(1,2) show ?thesis
  proof (cases rule: pnLen_cases)
    case 1
    then show ?thesis using assms(3) by (simp add: readPacketNumber_def be_one unsigned_of_nat take_bit_eq_mod)
  next
    case 3
    obtain a b c where abc: "be 3 x = [a, b, c]" by (simp add: be_numeral)
    have byte: "take_bit 32 (unat d) = unat d" for d :: byte
      by (rule take_bit_nat_eq_self, rule order_less_trans [OF unat_byte_lt]) simp
    have "unat c + unat b * 256 + unat a * 65536 < 4294967296"
      using unat_byte_lt [of a] unat_byte_lt [of b] unat_byte_lt [of c] by linarith
    then have "unat (ucast c + push_bit 8 (ucast b) + push_bit 16 (ucast a) :: u32) = unat c + unat b * 256 + unat a * 65536"
      by (simp add: unat_word_ariths unsigned_push_bit_eq push_bit_eq_mult unsigned_ucast_eq take_bit_word_eq_self byte)
    also have "\<dots> = unbe (be 3 x)" by (simp add: abc unbe_Cons)
    finally show ?thesis using 3 un abc by (simp add: readPacketNumber_def uint_nat)
  qed (use un in \<open>simp_all add: readPacketNumber_def\<close>)
qed

lemma pn_bytes_less: "nat (pn mod 256 ^ n) < 256 ^ n"
  by (simp add: nat_less_iff)

lemma readPacketNumber_append:
  assumes "1 \<le> n" "n \<le> 4"
  shows "readPacketNumber (pn_bytes n pn @ rest) n = Inr (pn mod 256 ^ n)"
  using readPacketNumber_be [OF assms pn_bytes_less, of pn rest] by simp

section \<open>Truncation\<close>

lemma decode_candidate:
  fixes e t :: int
  assumes "0 \<le> t" "t < 2 ^ k"
  shows "(e AND NOT (push_bit k 1 - 1)) OR t = e div 2 ^ k * 2 ^ k + t"
proof -
  have m: "(push_bit k 1 - 1 :: int) = mask k" by (simp add: mask_eq_exp_minus_1 push_bit_of_1)
  have t: "take_bit k t = t" using assms by (simp add: take_bit_int_eq_self)
  have hi: "e AND NOT (mask k) = push_bit k (drop_bit k e)" by (rule bit_eqI) (auto simp: bit_simps)
  have "push_bit k (drop_bit k e) AND take_bit k t = 0" by (rule bit_eqI) (auto simp: bit_simps)
  then have "(e AND NOT (mask k)) OR t = push_bit k (drop_bit k e) + t" by (simp only: hi t disjunctive_add_eq_or)
  then show ?thesis unfolding m by (simp add: push_bit_eq_mult drop_bit_eq_div)
qed

text \<open>
  Every packet number within half a window of the next expected one is recovered from its
  truncation.
\<close>

lemma decode_window:
  assumes n: "1 \<le> n" "n \<le> 4" and pn: "0 \<le> pn" "pn < 2 ^ 62" and L: "- 1 \<le> L"
    and lo: "L + 1 < pn + 256 ^ n div 2" and hi: "pn \<le> L + 1 + 256 ^ n div 2"
  shows "protocol_DecodePacketNumber n L (pn mod 256 ^ n) = pn"
proof -
  define w where "w = (256 ^ n :: nat)"
  define p e where "p = nat pn" and "e = nat (L + 1)"
  have ip: "pn = int p" and ie: "L + 1 = int e" using pn L by (simp_all add: p_def e_def)
  have iw: "(256 ^ n :: int) = int w" by (simp add: w_def)
  have half: "int w div 2 = int (w div 2)" by simp
  have w: "0 < w" "even w" using n by (simp_all add: w_def)
  have "p < 4611686018427387904" using pn by (simp add: p_def)
  moreover have "e < p + w div 2" "p \<le> e + w div 2"
    using lo hi unfolding iw half ip ie by linarith+
  ultimately have rec: "(if e div w * w + p mod w + w div 2 \<le> e \<and> e div w * w + p mod w + w < 4611686018427387904
      then e div w * w + p mod w + w
      else if e div w * w + p mod w > e + w div 2 \<and> e div w * w + p mod w \<ge> w then e div w * w + p mod w - w
      else e div w * w + p mod w) = p"
    using w by (intro window_reconstruct) simp_all
  have "(2 :: int) ^ (8 * n) = int w" unfolding power_mult by (simp add: w_def)
  then have win: "push_bit (n * 8) 1 = int w" by (simp add: push_bit_of_1 mult.commute)
  have pow: "(2 :: int) ^ (n * 8) = int w" using win by (simp add: push_bit_of_1)
  have t: "0 \<le> pn mod int w" "pn mod int w < 2 ^ (n * 8)" unfolding pow using w(1) by simp_all
  have "((L + 1) AND NOT (push_bit (n * 8) 1 - 1)) OR (pn mod 256 ^ n) = (L + 1) div int w * int w + pn mod int w"
    using decode_candidate [OF t, of "L + 1"] unfolding pow iw .
  also have "\<dots> = int (e div w * w + p mod w)" by (simp add: ie ip zdiv_int zmod_int)
  finally have cand: "((L + 1) AND NOT (push_bit (n * 8) 1 - 1)) OR (pn mod 256 ^ n) = int (e div w * w + p mod w)" .
  define c where "c = e div w * w + p mod w"
  have cand': "(int e AND NOT (int w - 1)) OR (pn mod 256 ^ n) = int c" using cand unfolding win ie c_def .
  have "protocol_DecodePacketNumber n L (pn mod 256 ^ n) =
    (if int c \<le> int e - int (w div 2) \<and> int c < 4611686018427387904 - int w then int c + int w
     else if int c > int e + int (w div 2) \<and> int c \<ge> int w then int c - int w else int c)"
    unfolding protocol_DecodePacketNumber_def Let_def win half ie cand' by simp
  also have "\<dots> = int (if c + w div 2 \<le> e \<and> c + w < 4611686018427387904 then c + w
      else if c > e + w div 2 \<and> c \<ge> w then c - w else c)"
    by (auto simp: of_nat_diff)
  also have "\<dots> = int p" using rec by (simp only: c_def)
  finally show ?thesis by (simp add: ip)
qed

text \<open>The length the sender chooses is enough for a receiver that has what it acknowledged.\<close>

lemma length_for_header_window:
  assumes "0 \<le> pn" "- 1 \<le> la" "la \<le> L" "pn - la < 2 ^ 31" "L < pn + 32767"
    and "n = PacketNumberLengthForHeader pn la"
  shows "1 \<le> n" "n \<le> 4" "L + 1 < pn + 256 ^ n div 2" "pn \<le> L + 1 + 256 ^ n div 2"
proof -
  have "pn - la = (if la = InvalidPacketNumber then pn + 1 else pn - la)" by (simp add: InvalidPacketNumber_def)
  then have "n = 2 \<and> pn - la < 32768 \<or> n = 3 \<and> pn - la < 8388608 \<or> n = 4"
    using assms(6) by (auto simp: PacketNumberLengthForHeader_def Let_def split: if_splits)
  then show "1 \<le> n" "n \<le> 4" "L + 1 < pn + 256 ^ n div 2" "pn \<le> L + 1 + 256 ^ n div 2"
    using assms(2-5) by auto
qed

lemma decode_chosen:
  assumes "0 \<le> pn" "pn < 2 ^ 62" "- 1 \<le> la" "la \<le> L" "pn - la < 2 ^ 31" "L < pn + 32767"
  shows "protocol_DecodePacketNumber (PacketNumberLengthForHeader pn la) L
      (pn mod 256 ^ PacketNumberLengthForHeader pn la) = pn"
  using length_for_header_window [OF assms(1,3-6) refl] assms by (intro decode_window) simp_all

section \<open>Short headers\<close>

lemma short_type_byte:
  assumes "1 \<le> n" "n \<le> 4"
    and b: "b = (if kp = KeyPhaseOne then (0x40 OR (of_nat n - 1)) OR push_bit 2 1 else 0x40 OR (of_nat n - 1) :: byte)"
  shows "b AND 0x80 = 0" "b AND 0x40 \<noteq> 0" "unat (b AND 0b11) + 1 = n" "b AND 0x18 = 0"
    "b AND 0b100 > 0 \<longleftrightarrow> kp = KeyPhaseOne"
  using assms(1,2) unfolding b by (cases rule: pnLen_cases; simp)+

definition short_header :: "bytes \<Rightarrow> int \<Rightarrow> PacketNumberLen \<Rightarrow> KeyPhaseBit \<Rightarrow> bytes" where
  "short_header connID pn n kp =
    (if kp = KeyPhaseOne then (0x40 OR (of_nat n - 1)) OR push_bit 2 1 else 0x40 OR (of_nat n - 1)) # connID"

lemma AppendShortHeader_eq:
  assumes "1 \<le> n" "n \<le> 4"
  shows "AppendShortHeader [] connID pn n kp = Inr (short_header connID pn n kp @ pn_bytes n pn)"
  using appendPacketNumber_be [OF assms] by (simp add: AppendShortHeader_def short_header_def Let_def)

lemma ParseShortHeader_eq:
  assumes "1 \<le> n" "n \<le> 4" "kp \<noteq> KeyPhaseUndefined"
  shows "ParseShortHeader (short_header connID pn n kp @ pn_bytes n pn @ rest) (length connID)
    = Inr (1 + length connID + n, pn mod 256 ^ n, n, kp, None)"
proof -
  define b where "b = (if kp = KeyPhaseOne then (0x40 OR (of_nat n - 1)) OR push_bit 2 1 else 0x40 OR (of_nat n - 1) :: byte)"
  note tb = short_type_byte [OF assms(1,2) b_def]
  have hdr: "short_header connID pn n kp = b # connID" by (simp add: short_header_def b_def)
  have "(if kp = KeyPhaseOne then KeyPhaseOne else KeyPhaseZero) = kp" using assms(3) by (cases kp) simp_all
  then show ?thesis
    unfolding hdr ParseShortHeader_def
    using tb readPacketNumber_append [OF assms(1,2), of pn rest] by (simp add: Let_def)
qed

section \<open>Long headers\<close>

definition header_ok :: "ExtendedHeader \<Rightarrow> u32 \<Rightarrow> bool" where
  "header_ok h v \<longleftrightarrow>
     v \<in> {Version1, Version2} \<and> h_Version (eh_Header h) = v
     \<and> h_Type (eh_Header h) \<in> {PacketTypeInitial, PacketType0RTT, PacketTypeHandshake}
     \<and> (h_Type (eh_Header h) \<noteq> PacketTypeInitial \<longrightarrow> h_Token (eh_Header h) = [])
     \<and> length (h_Token (eh_Header h)) < 2 ^ 62
     \<and> length (DestConnectionID (eh_Header h)) \<le> 20 \<and> length (SrcConnectionID (eh_Header h)) \<le> 20
     \<and> h_Length (eh_Header h) < 16384 \<and> 1 \<le> eh_PacketNumberLen h \<and> eh_PacketNumberLen h \<le> 4"

definition long_first :: "ExtendedHeader \<Rightarrow> u32 \<Rightarrow> byte" where
  "long_first h v = (0xc0 OR push_bit 4 (packetTypeBits (h_Type (eh_Header h)) v)) OR (of_nat (eh_PacketNumberLen h) - 1)"

definition token_field :: "Header \<Rightarrow> bytes" where
  "token_field h = (if h_Type h = PacketTypeInitial then vimg (of_nat (length (h_Token h))) @ h_Token h else [])"

definition long_tail :: "Header \<Rightarrow> bytes" where
  "long_tail h = be 4 (unat (h_Version h)) @ [of_nat (length (DestConnectionID h))] @ DestConnectionID h
     @ [of_nat (length (SrcConnectionID h))] @ SrcConnectionID h @ token_field h @ varint_image 2 (h_Length h)"

lemma small_u64: "n < 2 ^ 62 \<Longrightarrow> unat (of_nat n :: u64) = n" "n < 2 ^ 62 \<Longrightarrow> (of_nat n :: u64) \<le> MaxVarint"
  by (simp_all add: unat_of_nat_u64 u64_le_iff MaxVarint_def)

lemma ExtendedHeader_Append_eq:
  assumes "header_ok h v"
  shows "ExtendedHeader_Append h [] v
    = Inr (long_first h v # long_tail (eh_Header h) @ pn_bytes (eh_PacketNumberLen h) (eh_PacketNumber h))"
proof -
  define hdr where "hdr = eh_Header h"
  have n: "1 \<le> eh_PacketNumberLen h" "eh_PacketNumberLen h \<le> 4" and len: "h_Length hdr < 16384"
    and ids: "length (DestConnectionID hdr) \<le> 20" "length (SrcConnectionID hdr) \<le> 20"
    and ty: "h_Type hdr \<noteq> PacketTypeRetry" and tok: "length (h_Token hdr) < 2 ^ 62"
    using assms by (auto simp: header_ok_def hdr_def)
  have "VarintLen (of_nat (h_Length hdr)) \<le> 2"
    using len by (simp add: VarintLen_nat unat_of_nat_u64)
  then have "quicvarint_AppendWithLen b (of_nat (h_Length hdr)) 2 = Inr (b @ varint_image 2 (h_Length hdr))" for b
    using quicvarint_AppendWithLen_eq [of "of_nat (h_Length hdr)" 2 b] len small_u64 [of "h_Length hdr"] by simp
  moreover have "quicvarint_Append b (of_nat (length (h_Token hdr))) = Inr (b @ vimg (of_nat (length (h_Token hdr))))" for b
    using small_u64(2) [OF tok] by (simp add: Append_vimg)
  ultimately show ?thesis
    unfolding ExtendedHeader_Append_def long_first_def long_tail_def token_field_def hdr_def [symmetric]
    using ids ty appendPacketNumber_be [OF n] by (simp add: Let_def MaxConnIDLen_def)
qed

text \<open>The bits of the first byte that header protection leaves alone.\<close>

lemma first_byte_bits:
  assumes "header_ok h v"
  shows "IsLongHeaderPacket (long_first h v XOR (m AND 0x0f))" "(long_first h v XOR (m AND 0x0f)) AND 0x40 \<noteq> 0"
    "packetTypeOf v (long_first h v XOR (m AND 0x0f)) = h_Type (eh_Header h)"
    "unat (long_first h v AND 0x3) + 1 = eh_PacketNumberLen h" "long_first h v AND 0xc = 0"
proof -
  have hi: "(x XOR (m AND 0x0f)) AND k = x AND k" if "k AND 0x0f = 0" for x k :: byte
  proof (rule bit_eqI)
    fix i
    have "\<not> (bit k i \<and> bit (0x0f :: byte) i)" using that by (metis bit_0_eq bit_and_iff bot_apply bot_bool_def)
    then show "bit ((x XOR (m AND 0x0f)) AND k) i = bit (x AND k) i" by (auto simp: bit_simps)
  qed
  have sh: "drop_bit 4 (x XOR (m AND 0x0f)) = drop_bit 4 x" for x :: byte
    by (simp add: drop_bit_xor drop_bit_and)
  have n: "1 \<le> eh_PacketNumberLen h" "eh_PacketNumberLen h \<le> 4" and v: "v = Version1 \<or> v = Version2"
    and ty: "h_Type (eh_Header h) \<in> {PacketTypeInitial, PacketType0RTT, PacketTypeHandshake}"
    using assms by (auto simp: header_ok_def)
  show "IsLongHeaderPacket (long_first h v XOR (m AND 0x0f))" "(long_first h v XOR (m AND 0x0f)) AND 0x40 \<noteq> 0"
    "packetTypeOf v (long_first h v XOR (m AND 0x0f)) = h_Type (eh_Header h)"
    "unat (long_first h v AND 0x3) + 1 = eh_PacketNumberLen h" "long_first h v AND 0xc = 0"
    using n v ty
    by (cases rule: pnLen_cases;
        auto simp: long_first_def packetTypeBits_def IsLongHeaderPacket_def packetTypeOf_def Let_def hi sh
          Version1_def Version2_def)+
qed

definition parsed :: "byte \<Rightarrow> Header \<Rightarrow> Header" where
  "parsed fb h = h\<lparr>h_typeByte := fb, h_parsedLen := 1 + length (long_tail h)\<rparr>"

lemma parseLongHeaderTail_eq:
  assumes "h_Type k \<in> {PacketTypeInitial, PacketType0RTT, PacketTypeHandshake}" "h_Type k = h_Type h"
    and "length (h_Token h) < 2 ^ 62" "h_Length h < 16384" "h_Type h \<noteq> PacketTypeInitial \<Longrightarrow> h_Token h = h_Token k"
  shows "parseLongHeaderTail (l + length (token_field h @ varint_image 2 (h_Length h) @ rest)) k
      (token_field h @ varint_image 2 (h_Length h) @ rest)
    = (k\<lparr>h_Token := h_Token h, h_Length := h_Length h\<rparr>, l + length (token_field h) + 2, None)"
proof -
  have len: "quicvarint_Parse (varint_image 2 (h_Length h) @ rest) = Inr (of_nat (h_Length h), 2)"
    by (rule quicvarint_Parse_image) (use assms(4) in simp_all)
  have un: "unat (of_nat (h_Length h) :: u64) = h_Length h" using assms(4) by (simp add: unat_of_nat_u64)
  show ?thesis
  proof (cases "h_Type h = PacketTypeInitial")
    case True
    have le: "(of_nat (length (h_Token h)) :: u64) \<le> MaxVarint" "unat (of_nat (length (h_Token h)) :: u64) = length (h_Token h)"
      using small_u64 [OF assms(3)] by simp_all
    show ?thesis
      using True assms(2) le len un by (simp add: parseLongHeaderTail_def token_field_def)
  next
    case False
    then have "h_Token h = h_Token k" by (rule assms(5))
    then show ?thesis
      using False assms(1,2) len un by (auto simp: parseLongHeaderTail_def token_field_def)
  qed
qed

lemma ParsePacket_eq:
  assumes "header_ok h v" "IsLongHeaderPacket fb" "fb AND 0x40 \<noteq> 0" "packetTypeOf v fb = h_Type (eh_Header h)"
    and "length body = h_Length (eh_Header h)"
  shows "ParsePacket (fb # long_tail (eh_Header h) @ body @ behind)
    = Inr (parsed fb (eh_Header h), fb # long_tail (eh_Header h) @ body, behind)"
proof -
  define hdr where "hdr = eh_Header h"
  have ids: "length (DestConnectionID hdr) < 256" "length (SrcConnectionID hdr) < 256"
     "length (DestConnectionID hdr) \<le> 20" "length (SrcConnectionID hdr) \<le> 20"
    and ty: "h_Type hdr \<in> {PacketTypeInitial, PacketType0RTT, PacketTypeHandshake}"
    and tok: "length (h_Token hdr) < 2 ^ 62" "h_Type hdr \<noteq> PacketTypeInitial \<Longrightarrow> h_Token hdr = []" and len: "h_Length hdr < 16384"
    and v: "h_Version hdr = v" "v \<noteq> 0" "IsSupportedVersion SupportedVersions v"
    using assms(1) by (auto simp: header_ok_def hdr_def Version1_def Version2_def IsSupportedVersion_def SupportedVersions_def)
  have "unat v < 256 ^ 4" by (rule order_less_le_trans [OF unsigned_less]) simp
  then have uv: "of_nat (unbe (be 4 (unat v))) = v" by (simp add: unbe_be_id)
  have dl: "unat (of_nat (length (DestConnectionID hdr)) :: byte) = length (DestConnectionID hdr)"
    "unat (of_nat (length (SrcConnectionID hdr)) :: byte) = length (SrcConnectionID hdr)"
    using ids(1,2) by (simp_all add: unat_of_nat_byte)
  define tail where "tail = token_field hdr @ varint_image 2 (h_Length hdr) @ body @ behind"
  define k where "k = \<lparr>h_typeByte = fb, h_Type = h_Type hdr, h_Version = v, SrcConnectionID = SrcConnectionID hdr,
      DestConnectionID = DestConnectionID hdr, h_Length = 0, h_Token = [], h_parsedLen = 0\<rparr>"
  define l where "l = 6 + length (DestConnectionID hdr) + length (SrcConnectionID hdr)"
  have whole: "long_tail hdr @ body @ behind = be 4 (unat v) @ of_nat (length (DestConnectionID hdr)) # DestConnectionID hdr
      @ of_nat (length (SrcConnectionID hdr)) # SrcConnectionID hdr @ tail"
    by (simp add: long_tail_def tail_def v(1))
  have "parseLongHeader (zeroHeader\<lparr>h_typeByte := fb\<rparr>) (long_tail hdr @ body @ behind)
      = parseLongHeaderTail (l + length tail) k tail"
    unfolding whole parseLongHeader_def
    using uv dl v ids(3,4) assms(3,4)
    by (simp add: Let_def zeroHeader_def MaxConnIDLen_def k_def l_def hdr_def nth_append add.assoc)
  also have "\<dots> = (k\<lparr>h_Token := h_Token hdr, h_Length := h_Length hdr\<rparr>, l + length (token_field hdr) + 2, None)"
    unfolding tail_def by (rule parseLongHeaderTail_eq) (use ty tok len in \<open>auto simp: k_def\<close>)
  finally have ph: "parseLongHeader (zeroHeader\<lparr>h_typeByte := fb\<rparr>) (long_tail hdr @ body @ behind)
      = (k\<lparr>h_Token := h_Token hdr, h_Length := h_Length hdr\<rparr>, l + length (token_field hdr) + 2, None)" .
  have lt: "length (long_tail hdr) = l + length (token_field hdr) + 2" by (simp add: long_tail_def l_def)
  have pk: "k\<lparr>h_Token := h_Token hdr, h_Length := h_Length hdr, h_parsedLen := Suc (length (long_tail hdr))\<rparr> = parsed fb hdr"
    using v(1) by (simp add: k_def parsed_def)
  have "parseHeader (fb # long_tail hdr @ body @ behind) = (parsed fb hdr, None)"
    unfolding parseHeader_def using ph lt pk by simp
  moreover have "h_parsedLen (parsed fb hdr) + h_Length (parsed fb hdr) = length (fb # long_tail hdr @ body)"
    using assms(5) by (simp add: parsed_def hdr_def)
  ultimately show ?thesis
    unfolding hdr_def [symmetric] ParsePacket_def using assms(2) by (simp add: Let_def)
qed

definition extended :: "byte \<Rightarrow> ExtendedHeader \<Rightarrow> u32 \<Rightarrow> int \<Rightarrow> ExtendedHeader" where
  "extended fb h v pn =
    \<lparr>eh_Header = parsed fb (eh_Header h), eh_typeByte = long_first h v, eh_PacketNumberLen = eh_PacketNumberLen h,
     eh_PacketNumber = pn, eh_parsedLen = 1 + length (long_tail (eh_Header h)) + eh_PacketNumberLen h\<rparr>"

lemma ParseExtended_eq:
  assumes "header_ok h v"
  defines "n \<equiv> eh_PacketNumberLen h"
  shows "ParseExtended (parsed fb (eh_Header h)) (long_first h v # long_tail (eh_Header h) @ pn_bytes n pn @ rest)
    = Inr (extended fb h v (pn mod 256 ^ n), None)"
proof -
  have n: "1 \<le> n" "n \<le> 4" using assms by (simp_all add: header_ok_def)
  note bits = first_byte_bits(4,5) [OF assms(1), folded n_def]
  have "drop (Suc (length (long_tail (eh_Header h)))) (long_first h v # long_tail (eh_Header h) @ pn_bytes n pn @ rest)
      = pn_bytes n pn @ rest" by simp
  then show ?thesis
    unfolding ParseExtended_def ExtendedHeader_parse_def toExtendedHeader_def
    using bits readPacketNumber_append [OF n, of pn rest]
    by (simp add: Let_def parsed_def extended_def n_def [symmetric])
qed

text \<open>
  A long header that is written is read back, and the datagram is cut behind its packet:
  for every Initial, 0-RTT or Handshake header within the limits, followed by as many bytes as
  its length field counts behind the packet number and by anything else, parsing returns the
  same type, version, connection ids, token and length, the bytes of this packet and the bytes
  after it, and parsing the rest of the header the length of the packet number and its
  truncation.
\<close>

lemma long_header_roundtrip:
  assumes "header_ok h v" "length body + eh_PacketNumberLen h = h_Length (eh_Header h)"
  shows "\<exists>b hdr ext. ExtendedHeader_Append h [] v = Inr b \<and> ParsePacket (b @ body @ behind) = Inr (hdr, b @ body, behind)
    \<and> hdr = (eh_Header h)\<lparr>h_typeByte := b ! 0, h_parsedLen := length b - eh_PacketNumberLen h\<rparr>
    \<and> ParseExtended hdr (b @ body) = Inr (ext, None) \<and> eh_PacketNumberLen ext = eh_PacketNumberLen h
    \<and> eh_PacketNumber ext = eh_PacketNumber h mod 256 ^ eh_PacketNumberLen h \<and> eh_parsedLen ext = length b"
proof -
  define n where "n = eh_PacketNumberLen h"
  define pb where "pb = pn_bytes n (eh_PacketNumber h)"
  have len: "length (pb @ body) = h_Length (eh_Header h)" using assms(2) by (simp add: pb_def n_def)
  have append: "ExtendedHeader_Append h [] v = Inr (long_first h v # long_tail (eh_Header h) @ pb)"
    using ExtendedHeader_Append_eq [OF assms(1)] by (simp add: pb_def n_def)
  have "ParsePacket (long_first h v # long_tail (eh_Header h) @ (pb @ body) @ behind)
      = Inr (parsed (long_first h v) (eh_Header h), long_first h v # long_tail (eh_Header h) @ (pb @ body), behind)"
    by (rule ParsePacket_eq [OF assms(1) _ _ _ len]) (use first_byte_bits(1-3) [OF assms(1), of 0] in simp_all)
  moreover have "ParseExtended (parsed (long_first h v) (eh_Header h)) (long_first h v # long_tail (eh_Header h) @ pb @ body)
      = Inr (extended (long_first h v) h v (eh_PacketNumber h mod 256 ^ n), None)"
    using ParseExtended_eq [OF assms(1)] by (simp add: pb_def n_def)
  ultimately show ?thesis
    using append
    by (intro exI [of _ "long_first h v # long_tail (eh_Header h) @ pb"] exI [of _ "parsed (long_first h v) (eh_Header h)"]
        exI [of _ "extended (long_first h v) h v (eh_PacketNumber h mod 256 ^ n)"])
      (simp add: parsed_def extended_def n_def pb_def)
qed

definition toy_header :: ExtendedHeader where
  "toy_header = \<lparr>eh_Header = \<lparr>h_typeByte = 0, h_Type = PacketTypeInitial, h_Version = Version1, SrcConnectionID = [1, 2],
     DestConnectionID = [3, 4, 5], h_Length = 6, h_Token = [9], h_parsedLen = 0\<rparr>,
     eh_typeByte = 0, eh_PacketNumberLen = 2, eh_PacketNumber = 70000, eh_parsedLen = 0\<rparr>"

end
