(* ===== verification/KeyUpdate.thy ===== *)
theory KeyUpdate
  imports GmUpdatable
begin

text \<open>
  What the key updates of the 1-RTT codec achieve: the keys of every key phase are those of
  one numbered generation of the traffic secrets, only a packet authenticated under the next
  generation or a due local update moves on to it, and two endpoints at most one generation
  apart read each other's packets.
\<close>

section \<open>Generations of keys\<close>

primrec secret_at :: "'x gm_sym_scheme \<Rightarrow> bytes \<Rightarrow> nat \<Rightarrow> bytes" where
  "secret_at g s 0 = s"
| "secret_at g s (Suc n) = (case QUICKeyUpdate g (secret_at g s n) of Inr t \<Rightarrow> t | Inl _ \<Rightarrow> [])"

definition material :: "'x gm_sym_scheme \<Rightarrow> bytes \<Rightarrow> gmKeyMaterial option" where
  "material g secret =
    (case DeriveQUICPacketKeys g secret of
       Inl _ \<Rightarrow> None
     | Inr k \<Rightarrow> (case newGMKeyMaterial (Some k) of Inr km \<Rightarrow> Some km | Inl _ \<Rightarrow> None))"

definition phase_bit :: "nat \<Rightarrow> KeyPhaseBit" where
  "phase_bit n = (if even n then KeyPhaseZero else KeyPhaseOne)"

text \<open>The codec holds the keys of generation n, and of the one before to receive with.\<close>

definition generation :: "'x gm_sym_scheme \<Rightarrow> bytes \<Rightarrow> bytes \<Rightarrow> nat \<Rightarrow> gmUpdatableAEAD \<Rightarrow> bool" where
  "generation g sendSecret rcvSecret n u \<longleftrightarrow>
     sendKM u = material g (secret_at g sendSecret n) \<and> rcvKM u = material g (secret_at g rcvSecret n)
     \<and> nextSendSecret u = secret_at g sendSecret (Suc n) \<and> nextRcvSecret u = secret_at g rcvSecret (Suc n)
     \<and> keyPhase u = phase_bit n
     \<and> (prevRcvKM u = None \<or> n > 0 \<and> prevRcvKM u = material g (secret_at g rcvSecret (n - 1)))"

lemma QUICKeyUpdate_total:
  assumes "sm3_ok g" "length s = 32"
  obtains t where "QUICKeyUpdate g s = Inr t" "length t = 32"
proof -
  have "length LabelQUICKU \<le> 249" by (simp add: label_defs)
  then obtain t where "HKDFExpandLabel g s LabelQUICKU [] 32 = Inr t" "length t = 32"
    using HKDFExpandLabel_total [OF assms(1), of LabelQUICKU "[]" 32 s] by auto
  then show thesis using assms(2) that by (simp add: QUICKeyUpdate_def)
qed

lemma length_secret_at: "sm3_ok g \<Longrightarrow> length s = 32 \<Longrightarrow> length (secret_at g s n) = 32"
proof (induction n)
  case (Suc n)
  then have "length (secret_at g s n) = 32" by simp
  from QUICKeyUpdate_total [OF Suc.prems(1) this] obtain t
    where "QUICKeyUpdate g (secret_at g s n) = Inr t" "length t = 32" .
  then show ?case by simp
qed simp

lemma QUICKeyUpdate_secret:
  assumes "sm3_ok g" "length s = 32"
  shows "QUICKeyUpdate g s = Inr (secret_at g s 1)"
proof -
  obtain t where "QUICKeyUpdate g s = Inr t" by (rule QUICKeyUpdate_total [OF assms])
  then show ?thesis by simp
qed

lemma material_total:
  assumes "sm3_ok g" "length s = 32"
  obtains k km where "DeriveQUICPacketKeys g s = Inr k" "newGMKeyMaterial (Some k) = Inr km"
    "material g s = Some km" "aead_wf (km_aead km)" "length (km_hp km) = 16"
proof -
  have "s \<noteq> []" using assms(2) by auto
  from DeriveQUICPacketKeys_total [OF assms(1) this] obtain k where k: "DeriveQUICPacketKeys g s = Inr k"
    "length (AEADKey k) = 16" "length (AEADIV k) = 12" "length (HeaderKey k) = 16" .
  define km where "km = \<lparr>km_aead = \<lparr>aeadKey = AEADKey k, fixedNonce = AEADIV k\<rparr>, km_hp = HeaderKey k\<rparr>"
  have km: "newGMKeyMaterial (Some k) = Inr km"
    using k by (simp add: newGMKeyMaterial_def NewAEAD_def NewGCM_def km_def)
  show thesis
    by (rule that [OF k(1) km]) (use k km in \<open>simp_all add: material_def aead_wf_def km_def\<close>)
qed

section \<open>Rolling\<close>

definition rolled :: "'x gm_sym_scheme \<Rightarrow> gmUpdatableAEAD \<Rightarrow> gmUpdatableAEAD" where
  "rolled g u =
    u\<lparr>sendKM := material g (nextSendSecret u), rcvKM := material g (nextRcvSecret u), prevRcvKM := rcvKM u,
      nextSendSecret := secret_at g (nextSendSecret u) 1, nextRcvSecret := secret_at g (nextRcvSecret u) 1,
      keyPhase := (if keyPhase u = KeyPhaseZero then KeyPhaseOne else KeyPhaseZero),
      firstSent := InvalidPacketNumber, firstRcvd := InvalidPacketNumber, numSent := 0, numRcvd := 0\<rparr>"

lemma rollKeys_rolled:
  assumes "sm3_ok g" "length (nextSendSecret u) = 32" "length (nextRcvSecret u) = 32"
  shows "rollKeys g u = (rolled g u, Inr ())"
proof -
  obtain ks kms where s: "DeriveQUICPacketKeys g (nextSendSecret u) = Inr ks" "newGMKeyMaterial (Some ks) = Inr kms"
    "material g (nextSendSecret u) = Some kms" by (rule material_total [OF assms(1,2)])
  obtain kr kmr where r: "DeriveQUICPacketKeys g (nextRcvSecret u) = Inr kr" "newGMKeyMaterial (Some kr) = Inr kmr"
    "material g (nextRcvSecret u) = Some kmr" by (rule material_total [OF assms(1,3)])
  show ?thesis
    using s r QUICKeyUpdate_secret [OF assms(1,2)] QUICKeyUpdate_secret [OF assms(1,3)]
    by (simp add: rollKeys_def Let_def rolled_def del: secret_at.simps)
qed

text \<open>The documented behaviour of SM3 and the size of the traffic secrets.\<close>

definition secrets_ok :: "'x gm_sym_scheme \<Rightarrow> bytes \<Rightarrow> bytes \<Rightarrow> bool" where
  "secrets_ok g ss rs \<longleftrightarrow> sm3_ok g \<and> length ss = 32 \<and> length rs = 32"

lemma secrets_okD:
  assumes "secrets_ok g ss rs"
  shows "sm3_ok g" "length (secret_at g ss n) = 32" "length (secret_at g rs n) = 32"
  using assms by (simp_all add: secrets_ok_def length_secret_at)

lemma generation_rolled:
  assumes "secrets_ok g ss rs" "generation g ss rs n u"
  shows "rollKeys g u = (rolled g u, Inr ())" "generation g ss rs (Suc n) (rolled g u)"
proof -
  have u: "nextSendSecret u = secret_at g ss (Suc n)" "nextRcvSecret u = secret_at g rs (Suc n)"
    using assms(2) by (simp_all add: generation_def)
  show "rollKeys g u = (rolled g u, Inr ())"
    by (rule rollKeys_rolled) (simp_all only: u secrets_okD [OF assms(1)])
  show "generation g ss rs (Suc n) (rolled g u)"
    using assms(2) by (simp add: generation_def rolled_def phase_bit_def)
qed

lemma send_material:
  assumes "secrets_ok g ss rs" "generation g ss rs n u"
  obtains km where "sendKM u = Some km" "material g (secret_at g ss n) = Some km" "aead_wf (km_aead km)"
    "length (km_hp km) = 16"
proof -
  obtain km where "material g (secret_at g ss n) = Some km" "aead_wf (km_aead km)" "length (km_hp km) = 16"
    by (rule material_total [OF secrets_okD(1) [OF assms(1)] secrets_okD(2) [OF assms(1)]])
  then show thesis using that assms(2) by (simp add: generation_def)
qed

lemma rcv_material:
  assumes "secrets_ok g ss rs" "generation g ss rs n u"
  obtains km where "rcvKM u = Some km" "material g (secret_at g rs n) = Some km" "aead_wf (km_aead km)"
    "length (km_hp km) = 16"
proof -
  obtain km where "material g (secret_at g rs n) = Some km" "aead_wf (km_aead km)" "length (km_hp km) = 16"
    by (rule material_total [OF secrets_okD(1) [OF assms(1)] secrets_okD(3) [OF assms(1)]])
  then show thesis using that assms(2) by (simp add: generation_def)
qed

lemma next_material:
  assumes "secrets_ok g ss rs" "generation g ss rs n u"
  obtains km where "nextRcvKeyMaterial g u = Inr km" "material g (secret_at g rs (Suc n)) = Some km"
proof -
  obtain k km where k: "DeriveQUICPacketKeys g (secret_at g rs (Suc n)) = Inr k" "newGMKeyMaterial (Some k) = Inr km"
    "material g (secret_at g rs (Suc n)) = Some km"
    by (rule material_total [OF secrets_okD(1) [OF assms(1)] secrets_okD(3) [OF assms(1)]])
  show thesis
    by (rule that [OF _ k(3)])
       (use assms k in \<open>simp add: nextRcvKeyMaterial_def generation_def del: secret_at.simps\<close>)
qed

section \<open>Operations\<close>

lemma generation_cong:
  assumes "generation g ss rs n u"
    and "sendKM u' = sendKM u" "rcvKM u' = rcvKM u" "nextSendSecret u' = nextSendSecret u"
      "nextRcvSecret u' = nextRcvSecret u" "keyPhase u' = keyPhase u" "prevRcvKM u' = prevRcvKM u \<or> prevRcvKM u' = None"
  shows "generation g ss rs n u'"
  using assms by (auto simp: generation_def)

lemma dropExpired_generation [simp]:
  "generation g ss rs n u \<Longrightarrow> generation g ss rs n (dropExpired u t)"
  by (auto simp: dropExpired_def generation_def)

lemma decryptionFailed_eq:
  "fst (decryptionFailed u) = u\<lparr>invalidPacketCount := invalidPacketCount u + 1\<rparr>"
  "\<exists>e. snd (decryptionFailed u) = Inl e"
  by (simp_all add: decryptionFailed_def Let_def)

lemma raiseHighest_sel [simp]:
  "sendKM (raiseHighest u pn) = sendKM u" "rcvKM (raiseHighest u pn) = rcvKM u"
  "prevRcvKM (raiseHighest u pn) = prevRcvKM u" "nextSendSecret (raiseHighest u pn) = nextSendSecret u"
  "nextRcvSecret (raiseHighest u pn) = nextRcvSecret u" "keyPhase (raiseHighest u pn) = keyPhase u"
  "firstSent (raiseHighest u pn) = firstSent u" "firstRcvd (raiseHighest u pn) = firstRcvd u"
  "largestAcked (raiseHighest u pn) = largestAcked u" "handshakeConfirmed (raiseHighest u pn) = handshakeConfirmed u"
  "numSent (raiseHighest u pn) = numSent u"
  by (simp_all add: raiseHighest_def)

lemma startKeyDropTimer_sel [simp]:
  "sendKM (startKeyDropTimer u t) = sendKM u" "rcvKM (startKeyDropTimer u t) = rcvKM u"
  "prevRcvKM (startKeyDropTimer u t) = prevRcvKM u" "nextSendSecret (startKeyDropTimer u t) = nextSendSecret u"
  "nextRcvSecret (startKeyDropTimer u t) = nextRcvSecret u" "keyPhase (startKeyDropTimer u t) = keyPhase u"
  "firstSent (startKeyDropTimer u t) = firstSent u" "firstRcvd (startKeyDropTimer u t) = firstRcvd u"
  "largestAcked (startKeyDropTimer u t) = largestAcked u" "handshakeConfirmed (startKeyDropTimer u t) = handshakeConfirmed u"
  "numSent (startKeyDropTimer u t) = numSent u"
  by (simp_all add: startKeyDropTimer_def)

text \<open>A packet of the current phase changes the counters only.\<close>

lemma recordReceived_sel [simp]:
  "sendKM (recordReceived u t pn) = sendKM u" "rcvKM (recordReceived u t pn) = rcvKM u"
  "prevRcvKM (recordReceived u t pn) = prevRcvKM u" "nextSendSecret (recordReceived u t pn) = nextSendSecret u"
  "nextRcvSecret (recordReceived u t pn) = nextRcvSecret u" "keyPhase (recordReceived u t pn) = keyPhase u"
  by (simp_all add: recordReceived_def Let_def)

lemma openCurrentPhase_cases:
  assumes "openCurrentPhase g u dst src t pn ad = (u', r)"
  obtains (keeps) e where "u' = u" "r = Inl e"
  | (fails) e where "u' = u\<lparr>invalidPacketCount := invalidPacketCount u + 1\<rparr>" "r = Inl e"
  | (reads) pt where "u' = recordReceived u t pn" "r = Inr (dst @ pt)"
proof (cases "rcvKM u")
  case None
  then have "u' = u" "r = Inl GmPanic" using assms by (simp_all add: openCurrentPhase_def)
  then show thesis by (rule keeps)
next
  case (Some km)
  show thesis
  proof (cases "openWithEcho g km (prevRcvKM u) src pn ad")
    case (Inl e)
    then have "(u', r) = decryptionFailed u" using Some assms by (simp add: openCurrentPhase_def)
    then show thesis using decryptionFailed_eq [of u] fails by (metis fst_conv snd_conv)
  next
    case (Inr pt)
    then have "u' = recordReceived u t pn" "r = Inr (dst @ pt)"
      using Some assms by (simp_all add: openCurrentPhase_def)
    then show thesis by (rule reads)
  qed
qed

lemma openOtherPhase_next:
  assumes "keyPhase u = KeyPhaseZero \<or> firstRcvd u \<noteq> InvalidPacketNumber \<and> firstRcvd u \<le> pn"
    and "nextRcvKeyMaterial g u = Inr km"
  shows "openOtherPhase g u dst src t pn ad =
    (case AEAD_Open g (km_aead km) (word_of_int pn) src ad of
       Inl _ \<Rightarrow> decryptionFailed u
     | Inr pt \<Rightarrow>
         if keyPhase u \<noteq> KeyPhaseZero \<and> firstSent u = InvalidPacketNumber then (u, Inl KeysUpdatedTooQuickly)
         else
           (case rollKeys g u of
              (u, Inl e) \<Rightarrow> (u, Inl e)
            | (u, Inr _) \<Rightarrow> (startKeyDropTimer (raiseHighest (u\<lparr>firstRcvd := pn\<rparr>) pn) t, Inr (dst @ pt))))"
proof -
  have "\<not> (keyPhase u \<noteq> KeyPhaseZero \<and> (firstRcvd u = InvalidPacketNumber \<or> pn < firstRcvd u))"
    using assms(1) by auto
  then show ?thesis unfolding openOtherPhase_def by (simp only: if_False assms(2) tryS_simps Let_def)
qed

text \<open>A packet of another phase either leaves the keys or proves the next ones.\<close>

lemma openOtherPhase_cases:
  assumes "secrets_ok g ss rs" "generation g ss rs n u" "openOtherPhase g u dst src t pn ad = (u', r)"
  obtains (keeps) "u' = u" "\<And>pt. r = Inr pt \<Longrightarrow> prevRcvKM u \<noteq> None"
  | (fails) e where "u' = u\<lparr>invalidPacketCount := invalidPacketCount u + 1\<rparr>" "r = Inl e"
  | (rolls) km pt where "material g (secret_at g rs (Suc n)) = Some km"
      "AEAD_Open g (km_aead km) (word_of_int pn) src ad = Inr pt" "r = Inr (dst @ pt)"
      "u' = startKeyDropTimer (raiseHighest ((rolled g u)\<lparr>firstRcvd := pn\<rparr>) pn) t"
proof -
  obtain km where km: "nextRcvKeyMaterial g u = Inr km" "material g (secret_at g rs (Suc n)) = Some km"
    by (rule next_material [OF assms(1,2)])
  note roll = generation_rolled(1) [OF assms(1,2)]
  show thesis
  proof (cases "keyPhase u \<noteq> KeyPhaseZero \<and> (firstRcvd u = InvalidPacketNumber \<or> pn < firstRcvd u)")
    case True
    show thesis
    proof (cases "prevRcvKM u")
      case None
      then have "u' = u" "r = Inl ErrKeysDropped" using True assms(3) by (simp_all add: openOtherPhase_def)
      then show thesis using keeps by simp
    next
      case (Some prev)
      show thesis
      proof (cases "AEAD_Open g (km_aead prev) (word_of_int pn) src ad")
        case (Inl e)
        then have "(u', r) = decryptionFailed u" using True Some assms(3) by (simp add: openOtherPhase_def)
        then show thesis using decryptionFailed_eq [of u] fails by (metis fst_conv snd_conv)
      next
        case (Inr pt)
        then have "u' = u" using True Some assms(3) by (simp add: openOtherPhase_def)
        then show thesis using keeps Some by simp
      qed
    qed
  next
    case False
    then have "keyPhase u = KeyPhaseZero \<or> firstRcvd u \<noteq> InvalidPacketNumber \<and> firstRcvd u \<le> pn" by auto
    note nxt = openOtherPhase_next [OF this km(1), of dst src t ad]
    show thesis
    proof (cases "AEAD_Open g (km_aead km) (word_of_int pn) src ad")
      case (Inl e)
      then have "(u', r) = decryptionFailed u" using nxt assms(3) by simp
      then show thesis using decryptionFailed_eq [of u] fails by (metis fst_conv snd_conv)
    next
      case (Inr pt)
      show thesis
      proof (cases "keyPhase u \<noteq> KeyPhaseZero \<and> firstSent u = InvalidPacketNumber")
        case True
        then have "u' = u" "r = Inl KeysUpdatedTooQuickly"
          using nxt Inr assms(3) by simp_all
        then show thesis using keeps by simp
      next
        case not_quick: False
        have "u' = startKeyDropTimer (raiseHighest ((rolled g u)\<lparr>firstRcvd := pn\<rparr>) pn) t" "r = Inr (dst @ pt)"
          using nxt assms(3) unfolding Inr sum.case if_not_P [OF not_quick] roll by simp_all
        then show thesis using rolls km Inr by simp
      qed
    qed
  qed
qed

section \<open>Fresh codecs\<close>

definition fresh :: "'x gm_sym_scheme \<Rightarrow> bytes \<Rightarrow> bytes \<Rightarrow> gmUpdatableAEAD \<Rightarrow> bool" where
  "fresh g ss rs u \<longleftrightarrow> (\<exists>sk rk. DeriveQUICPacketKeys g ss = Inr sk \<and> DeriveQUICPacketKeys g rs = Inr rk
     \<and> newGMUpdatableAEAD g (Some sk) (Some rk) ss rs = Inr u)"

lemma fresh_codec:
  assumes "secrets_ok g ss rs"
  obtains u where "fresh g ss rs u" "generation g ss rs 0 u" "firstSent u = InvalidPacketNumber"
    "firstRcvd u = InvalidPacketNumber" "largestAcked u = InvalidPacketNumber" "numSent u = 0" "prevRcvKMExpiry u = 0"
proof -
  have len: "sm3_ok g" "length ss = 32" "length rs = 32" using assms by (simp_all add: secrets_ok_def)
  obtain ks kms where s: "DeriveQUICPacketKeys g ss = Inr ks" "newGMKeyMaterial (Some ks) = Inr kms" "material g ss = Some kms"
    by (rule material_total [OF len(1,2)])
  obtain kr kmr where r: "DeriveQUICPacketKeys g rs = Inr kr" "newGMKeyMaterial (Some kr) = Inr kmr" "material g rs = Some kmr"
    by (rule material_total [OF len(1,3)])
  note upd = QUICKeyUpdate_secret [OF len(1,2)] QUICKeyUpdate_secret [OF len(1,3)]
  define u where "u = \<lparr>sendKM = Some kms, rcvKM = Some kmr, prevRcvKM = None, prevRcvKMExpiry = 0,
      nextSendSecret = secret_at g ss 1, nextRcvSecret = secret_at g rs 1, keyPhase = KeyPhaseZero,
      largestAcked = InvalidPacketNumber, firstSent = InvalidPacketNumber, firstRcvd = InvalidPacketNumber,
      highestRcvdPN = InvalidPacketNumber, numSent = 0, numRcvd = 0, invalidPacketCount = 0,
      invalidPacketLimit = gmAEADInvalidPacketLimit, handshakeConfirmed = False\<rparr>"
  have new: "newGMUpdatableAEAD g (Some ks) (Some kr) ss rs = Inr u"
    using s r upd by (simp add: newGMUpdatableAEAD_def u_def del: secret_at.simps)
  show thesis
    by (rule that [of u])
       (use s r new in \<open>auto simp: fresh_def u_def generation_def phase_bit_def\<close>)
qed

lemma fresh_generation:
  assumes "secrets_ok g ss rs" "fresh g ss rs u"
  shows "generation g ss rs 0 u"
  using fresh_codec [OF assms(1)] assms(2) unfolding fresh_def by (metis sum.inject(2))

section \<open>Opening packets\<close>

lemma open_outcome:
  assumes "secrets_ok g ss rs" "generation g ss rs n u"
    and "updatable_Open g u dst src t pn kp ad = (u', r)"
  shows "(\<forall>e. r = Inl e \<longrightarrow> u' = dropExpired u t
        \<or> u' = (dropExpired u t)\<lparr>invalidPacketCount := invalidPacketCount u + 1\<rparr>)
    \<and> (generation g ss rs n u'
       \<or> (\<exists>km pt. material g (secret_at g rs (Suc n)) = Some km
            \<and> AEAD_Open g (km_aead km) (word_of_int pn) src ad = Inr pt
            \<and> r = Inr (dst @ pt) \<and> kp \<noteq> keyPhase u \<and> generation g ss rs (Suc n) u'))"
proof -
  define v where "v = dropExpired u t"
  have v: "generation g ss rs n v" "keyPhase v = keyPhase u" "invalidPacketCount v = invalidPacketCount u"
    using assms(2) unfolding v_def by simp (simp_all add: dropExpired_def)
  have count: "generation g ss rs n (v\<lparr>invalidPacketCount := invalidPacketCount v + 1\<rparr>)"
    by (rule generation_cong [OF v(1)]) simp_all
  show ?thesis
  proof (cases "kp = keyPhase u")
    case True
    then have "openCurrentPhase g v dst src t pn ad = (u', r)"
      using assms(3) v(2) by (simp add: updatable_Open_def v_def Let_def)
    then show ?thesis
    proof (cases rule: openCurrentPhase_cases)
      case (reads pt)
      have "generation g ss rs n (recordReceived v t pn)" by (rule generation_cong [OF v(1)]) simp_all
      then show ?thesis using reads by simp
    qed (use v count in \<open>auto simp flip: v_def\<close>)
  next
    case False
    then have "openOtherPhase g v dst src t pn ad = (u', r)"
      using assms(3) v(2) by (simp add: updatable_Open_def v_def Let_def)
    with assms(1) v(1) show ?thesis
    proof (cases rule: openOtherPhase_cases)
      case (rolls km pt)
      have "generation g ss rs (Suc n) u'"
        unfolding rolls(4) by (rule generation_cong [OF generation_rolled(2) [OF assms(1) v(1)]]) simp_all
      then show ?thesis using rolls False by (auto simp del: secret_at.simps)
    qed (use v count in \<open>auto simp flip: v_def\<close>)
  qed
qed

lemma open_keeps_or_moves:
  assumes "secrets_ok g ss rs" "generation g ss rs n u" "updatable_Open g u dst src t pn kp ad = (u', r)"
  shows "generation g ss rs n u' \<or> generation g ss rs (Suc n) u'"
  using open_outcome [OF assms] by blast

text \<open>
  C10. Only authentic packets move the receive keys. When \<open>Open\<close> returns an error, the codec is
  as before, except that keys whose time is over are gone and the failure is counted. When it
  succeeds, the codec keeps its generation of keys, or the packet was authenticated under the
  keys of the next generation and the codec has moved to exactly that one.
\<close>

theorem open_moves_on_authentic:
  assumes "secrets_ok g ss rs" "generation g ss rs n u"
    and "updatable_Open g u dst src t pn kp ad = (u', r)"
  shows "(\<forall>e. r = Inl e \<longrightarrow> u' = dropExpired u t
        \<or> u' = (dropExpired u t)\<lparr>invalidPacketCount := invalidPacketCount u + 1\<rparr>)
    \<and> (generation g ss rs n u'
       \<or> (\<exists>km pt. material g (secret_at g rs (Suc n)) = Some km
            \<and> AEAD_Open g (km_aead km) (word_of_int pn) src ad = Inr pt
            \<and> r = Inr (dst @ pt) \<and> kp \<noteq> keyPhase u \<and> generation g ss rs (Suc n) u'))"
  using assms by (rule open_outcome)

definition toy_secret :: bytes where "toy_secret = replicate 32 1"

lemma toy_secrets_ok: "secrets_ok toy_sym toy_secret toy_secret"
  by (simp add: secrets_ok_def toy_sm3_ok toy_secret_def)

theorem open_moves_on_authentic_witness:
  "\<exists>u u' r. generation toy_sym toy_secret toy_secret 0 u
    \<and> updatable_Open toy_sym u [] [1, 2, 3] 7 5 KeyPhaseOne [4] = (u', r)
    \<and> (\<forall>e. r = Inl e \<longrightarrow> u' = dropExpired u 7
        \<or> u' = (dropExpired u 7)\<lparr>invalidPacketCount := invalidPacketCount u + 1\<rparr>)"
proof -
  obtain u where u: "generation toy_sym toy_secret toy_secret 0 u" by (rule fresh_codec [OF toy_secrets_ok])
  obtain u' r where o: "updatable_Open toy_sym u [] [1, 2, 3] 7 5 KeyPhaseOne [4] = (u', r)" by fastforce
  show ?thesis using open_moves_on_authentic [OF toy_secrets_ok u o] u o by blast
qed

section \<open>Runs\<close>

inductive gm_step :: "'x gm_sym_scheme \<Rightarrow> u64 \<Rightarrow> gmUpdatableAEAD \<Rightarrow> gmUpdatableAEAD \<Rightarrow> bool" for g interval where
  seal: "updatable_Seal g u dst src pn ad = (u', r) \<Longrightarrow> gm_step g interval u u'"
| phase: "KeyPhase g interval u = (u', r) \<Longrightarrow> gm_step g interval u u'"
| opened: "updatable_Open g u dst src t pn kp ad = (u', r) \<Longrightarrow> gm_step g interval u u'"
| acked: "SetLargestAcked u pn = (u', r) \<Longrightarrow> gm_step g interval u u'"
| confirmed: "gm_step g interval u (updatable_SetHandshakeConfirmed u)"

lemma seal_generation:
  assumes "generation g ss rs n u" "updatable_Seal g u dst src pn ad = (u', r)"
  shows "generation g ss rs n u'"
  by (rule generation_cong [OF assms(1)])
     (use assms(2) in \<open>auto simp: updatable_Seal_def Let_def split: option.splits sum.splits if_splits\<close>)

lemma KeyPhase_cases:
  assumes "secrets_ok g ss rs" "generation g ss rs n u"
  shows "KeyPhase g interval u =
    (if shouldInitiateKeyUpdate interval u then (rolled g u, Inr (phase_bit (Suc n))) else (u, Inr (phase_bit n)))"
  using generation_rolled [OF assms] assms(2) by (simp add: KeyPhase_def generation_def)

lemma step_generation:
  assumes "secrets_ok g ss rs" "gm_step g interval u u'" "generation g ss rs n u"
  shows "generation g ss rs n u' \<or> generation g ss rs (Suc n) u'"
  using assms(2)
proof cases
  case (seal dst src pn ad r)
  then show ?thesis using seal_generation [OF assms(3)] by blast
next
  case (phase r)
  then show ?thesis
    using KeyPhase_cases [OF assms(1,3)] generation_rolled(2) [OF assms(1,3)] assms(3) by (auto split: if_splits)
next
  case (opened dst src t pn kp ad r)
  then show ?thesis using open_keeps_or_moves [OF assms(1,3)] by blast
next
  case (acked pn r)
  then have "u' = u \<or> u' = u\<lparr>largestAcked := pn\<rparr>" by (auto simp: SetLargestAcked_def split: if_splits)
  then show ?thesis using assms(3) by (auto intro: generation_cong)
next
  case confirmed
  then show ?thesis using assms(3) by (auto simp: updatable_SetHandshakeConfirmed_def intro: generation_cong)
qed

text \<open>
  C9. On every sequence of calls the codec holds the keys of one generation: there is a
  number n such that it seals with the n-th update of its send secret, opens with the n-th
  update of its receive secret, announces the parity of n as its key phase, will derive the
  next keys from the (n+1)-st update, and keeps for late packets no other keys than those of
  the generation before.
\<close>

theorem key_generations:
  assumes "secrets_ok g ss rs" "fresh g ss rs u0" "(gm_step g interval)\<^sup>*\<^sup>* u0 u"
  shows "\<exists>n. generation g ss rs n u"
  using assms(3)
proof induction
  case base
  then show ?case using fresh_generation [OF assms(1,2)] by blast
next
  case (step u u')
  then show ?case using step_generation [OF assms(1)] by blast
qed

theorem key_generations_witness:
  "\<exists>u. (\<exists>u0. fresh toy_sym toy_secret toy_secret u0 \<and> (gm_step toy_sym 100)\<^sup>*\<^sup>* u0 u)
    \<and> (\<exists>n. generation toy_sym toy_secret toy_secret n u)"
proof -
  obtain u0 where u0: "fresh toy_sym toy_secret toy_secret u0" by (rule fresh_codec [OF toy_secrets_ok])
  have "(gm_step toy_sym 100)\<^sup>*\<^sup>* u0 (updatable_SetHandshakeConfirmed u0)" by (rule r_into_rtranclp) (rule gm_step.confirmed)
  from key_generations [OF toy_secrets_ok u0 this] u0 this show ?thesis by blast
qed

section \<open>Two endpoints\<close>

lemma seal_ct:
  assumes "secrets_ok g ss rs" "generation g ss rs n u" "updatable_Seal g u [] src pn ad = (u', Inr ct)"
  obtains km where "material g (secret_at g ss n) = Some km" "aead_wf (km_aead km)"
    "AEAD_Seal g (km_aead km) (word_of_int pn) src ad = Inr ct"
proof -
  obtain km where km: "sendKM u = Some km" "material g (secret_at g ss n) = Some km" "aead_wf (km_aead km)"
    by (rule send_material [OF assms(1,2)])
  have "AEAD_Seal g (km_aead km) (word_of_int pn) src ad = Inr ct"
    using assms(3) km(1) by (auto simp: updatable_Seal_def Let_def split: sum.splits)
  then show thesis using km that by blast
qed

lemma opens_same:
  assumes "secrets_ok g ss rs" "generation g ss rs n u" "material g (secret_at g rs n) = Some km"
    and "AEAD_Open g (km_aead km) (word_of_int pn) ct ad = Inr src"
  shows "updatable_Open g u dst ct t pn (phase_bit n) ad = (recordReceived (dropExpired u t) t pn, Inr (dst @ src))"
proof -
  have v: "generation g ss rs n (dropExpired u t)" using assms(2) by simp
  then have "rcvKM (dropExpired u t) = Some km" "keyPhase (dropExpired u t) = phase_bit n"
    using assms(3) by (simp_all add: generation_def)
  then show ?thesis using assms(4) by (simp add: updatable_Open_def openCurrentPhase_def openWithEcho_def)
qed

lemma phase_bit_Suc: "phase_bit (Suc n) \<noteq> phase_bit n" "phase_bit n = KeyPhaseZero \<longleftrightarrow> even n"
  by (simp_all add: phase_bit_def)

lemma dropExpired_sel [simp]:
  "firstRcvd (dropExpired u t) = firstRcvd u" "firstSent (dropExpired u t) = firstSent u"
  "keyPhase (dropExpired u t) = keyPhase u" "largestAcked (dropExpired u t) = largestAcked u"
  "handshakeConfirmed (dropExpired u t) = handshakeConfirmed u" "numSent (dropExpired u t) = numSent u"
  by (simp_all add: dropExpired_def)

lemma opens_next:
  assumes "secrets_ok g ss rs" "generation g ss rs n u" "material g (secret_at g rs (Suc n)) = Some km"
    and "AEAD_Open g (km_aead km) (word_of_int pn) ct ad = Inr src"
    and "even n \<or> firstSent u \<noteq> InvalidPacketNumber \<and> firstRcvd u \<noteq> InvalidPacketNumber \<and> firstRcvd u \<le> pn"
  shows "updatable_Open g u dst ct t pn (phase_bit (Suc n)) ad =
    (startKeyDropTimer (raiseHighest ((rolled g (dropExpired u t))\<lparr>firstRcvd := pn\<rparr>) pn) t, Inr (dst @ src))"
proof -
  define v where "v = dropExpired u t"
  have v: "generation g ss rs n v" using assms(2) by (simp add: v_def)
  have phase: "keyPhase v = phase_bit n" using v by (simp add: generation_def)
  obtain km' where "nextRcvKeyMaterial g v = Inr km'" "material g (secret_at g rs (Suc n)) = Some km'"
    by (rule next_material [OF assms(1) v])
  with assms(3) have nk: "nextRcvKeyMaterial g v = Inr km" by simp
  have cond: "keyPhase v = KeyPhaseZero \<or> firstRcvd v \<noteq> InvalidPacketNumber \<and> firstRcvd v \<le> pn"
    "\<not> (keyPhase v \<noteq> KeyPhaseZero \<and> firstSent v = InvalidPacketNumber)"
    using assms(5) phase by (auto simp: phase_bit_Suc v_def)
  have "updatable_Open g u dst ct t pn (phase_bit (Suc n)) ad = openOtherPhase g v dst ct t pn ad"
    using phase phase_bit_Suc(1) [of n] by (simp add: updatable_Open_def Let_def v_def)
  also have "\<dots> = (startKeyDropTimer (raiseHighest ((rolled g v)\<lparr>firstRcvd := pn\<rparr>) pn) t, Inr (dst @ src))"
    unfolding openOtherPhase_next [OF cond(1) nk] assms(4) sum.case if_not_P [OF cond(2)]
      generation_rolled(1) [OF assms(1) v] by simp
  finally show ?thesis by (simp add: v_def)
qed

lemma opens_previous:
  assumes "generation g ss rs (Suc n) u" "material g (secret_at g rs n) = Some km"
    and "AEAD_Open g (km_aead km) (word_of_int pn) ct ad = Inr src"
    and "even n" "firstRcvd u = InvalidPacketNumber \<or> pn < firstRcvd u" "prevRcvKM (dropExpired u t) \<noteq> None"
  shows "updatable_Open g u dst ct t pn (phase_bit n) ad = (dropExpired u t, Inr (dst @ src))"
proof -
  define v where "v = dropExpired u t"
  have v: "generation g ss rs (Suc n) v" using assms(1) by (simp add: v_def)
  have phase: "keyPhase v = phase_bit (Suc n)" "prevRcvKM v = Some km"
    using v assms(2,6) by (auto simp: generation_def v_def simp del: secret_at.simps)
  then have "keyPhase v \<noteq> KeyPhaseZero" using assms(4) by (simp add: phase_bit_Suc)
  then have "openOtherPhase g v dst ct t pn ad = (v, Inr (dst @ src))"
    using assms(3,5) phase(2) by (auto simp: openOtherPhase_def v_def)
  then show ?thesis
    using phase(1) phase_bit_Suc(1) [of n] by (simp add: updatable_Open_def Let_def v_def)
qed



section \<open>Even phases are taken for the first one\<close>

text \<open>A packet of the peer under the next generation.\<close>

lemma peer_updates:
  assumes "secrets_ok g ss rs" "sm4_ok g" "generation g ss rs n u"
    and "even n \<or> firstSent u \<noteq> InvalidPacketNumber \<and> firstRcvd u \<noteq> InvalidPacketNumber \<and> firstRcvd u \<le> pn"
  obtains u' where "gm_step g interval u u'" "generation g ss rs (Suc n) u'" "firstRcvd u' = pn"
    "largestAcked u' = largestAcked u" "numSent u' = 0" "prevRcvKM u' \<noteq> None" "handshakeConfirmed u' = handshakeConfirmed u"
proof -
  obtain km where km: "material g (secret_at g rs (Suc n)) = Some km" "aead_wf (km_aead km)"
    by (rule material_total [OF secrets_okD(1) [OF assms(1)] secrets_okD(3) [OF assms(1)]])
  obtain ct where "AEAD_Seal g (km_aead km) (word_of_int pn) [] [] = Inr ct"
    by (rule AEAD_seal_total [OF assms(2) km(2), of "[]"]) simp_all
  then have op: "AEAD_Open g (km_aead km) (word_of_int pn) ct [] = Inr []" by (rule AEAD_open_seal [OF assms(2) km(2)])
  define v where "v = dropExpired u 0"
  define u' where "u' = startKeyDropTimer (raiseHighest ((rolled g v)\<lparr>firstRcvd := pn\<rparr>) pn) 0"
  have v: "generation g ss rs n v" using assms(3) by (simp add: v_def)
  obtain k where k: "rcvKM v = Some k" by (rule rcv_material [OF assms(1) v])
  have "updatable_Open g u [] ct 0 pn (phase_bit (Suc n)) [] = (u', Inr [])"
    using opens_next [OF assms(1,3) km(1) op assms(4), of "[]" 0] by (simp add: u'_def v_def)
  then have "gm_step g interval u u'" by (rule gm_step.opened)
  moreover have "generation g ss rs (Suc n) u'"
    unfolding u'_def by (rule generation_cong [OF generation_rolled(2) [OF assms(1) v]]) simp_all
  moreover have "firstRcvd u' = pn" "largestAcked u' = largestAcked u" "numSent u' = 0" "prevRcvKM u' \<noteq> None"
    "handshakeConfirmed u' = handshakeConfirmed u"
    using k by (simp_all add: u'_def v_def rolled_def)
  ultimately show thesis by (rule that)
qed

lemma sends:
  assumes "secrets_ok g ss rs" "sm4_ok g" "generation g ss rs n u"
  obtains u' where "gm_step g interval u u'" "generation g ss rs n u'" "numSent u' = numSent u + 1"
    "firstSent u' \<noteq> InvalidPacketNumber" "firstRcvd u' = firstRcvd u" "largestAcked u' = largestAcked u"
    "prevRcvKM u' = prevRcvKM u" "handshakeConfirmed u' = handshakeConfirmed u"
proof -
  obtain km where km: "sendKM u = Some km" "aead_wf (km_aead km)" by (rule send_material [OF assms(1,3)])
  obtain ct where ct: "AEAD_Seal g (km_aead km) (word_of_int 0) [] [] = Inr ct"
    by (rule AEAD_seal_total [OF assms(2) km(2), of "[]"]) simp_all
  define u' where "u' = (let u = u\<lparr>numSent := numSent u + 1\<rparr> in
      if firstSent u = InvalidPacketNumber then u\<lparr>firstSent := 0\<rparr> else u)"
  have seal: "updatable_Seal g u [] [] 0 [] = (u', Inr ct)"
    using km(1) ct by (simp add: updatable_Seal_def u'_def Let_def)
  show thesis
    by (rule that [OF gm_step.seal [OF seal] seal_generation [OF assms(3) seal]])
       (simp_all add: u'_def Let_def InvalidPacketNumber_def)
qed

lemma sends_many:
  assumes "secrets_ok g ss rs" "sm4_ok g" "generation g ss rs n u"
  shows "\<exists>u'. (gm_step g interval)\<^sup>*\<^sup>* u u' \<and> generation g ss rs n u' \<and> numSent u' = numSent u + of_nat k
    \<and> largestAcked u' = largestAcked u \<and> prevRcvKM u' = prevRcvKM u \<and> handshakeConfirmed u' = handshakeConfirmed u"
proof (induction k)
  case 0
  then show ?case using assms(3) by auto
next
  case (Suc k)
  then obtain v where v: "(gm_step g interval)\<^sup>*\<^sup>* u v" "generation g ss rs n v" "numSent v = numSent u + of_nat k"
    "largestAcked v = largestAcked u" "prevRcvKM v = prevRcvKM u" "handshakeConfirmed v = handshakeConfirmed u" by blast
  obtain w where w: "gm_step g interval v w" "generation g ss rs n w" "numSent w = numSent v + 1"
    "largestAcked w = largestAcked v" "prevRcvKM w = prevRcvKM v" "handshakeConfirmed w = handshakeConfirmed v"
    by (rule sends [OF assms(1,2) v(2)])
  have "(gm_step g interval)\<^sup>*\<^sup>* u w" by (rule rtranclp.rtrancl_into_rtrancl [OF v(1) w(1)])
  then show ?case using v w by (intro exI [of _ w]) simp
qed

lemma even_phase_ignores_previous:
  assumes "keyPhase u = KeyPhaseZero" "kp \<noteq> KeyPhaseZero"
  shows "snd (updatable_Open g (u\<lparr>prevRcvKM := None\<rparr>) dst src t pn kp ad) = snd (updatable_Open g u dst src t pn kp ad)"
proof -
  have strip: "snd (openOtherPhase g v dst src t pn ad) = snd (openOtherPhase g w dst src t pn ad)"
    if "keyPhase v = KeyPhaseZero" "w = v\<lparr>prevRcvKM := p, prevRcvKMExpiry := e\<rparr>" for v w p e
  proof -
    have "snd (case rollKeys g v of (u, Inl e) \<Rightarrow> (u, Inl e)
              | (u, Inr _) \<Rightarrow> (startKeyDropTimer (raiseHighest (u\<lparr>firstRcvd := pn\<rparr>) pn) t, Inr (dst @ pt)))
        = snd (case rollKeys g w of (u, Inl e) \<Rightarrow> (u, Inl e)
              | (u, Inr _) \<Rightarrow> (startKeyDropTimer (raiseHighest (u\<lparr>firstRcvd := pn\<rparr>) pn) t, Inr (dst @ pt)))" for pt
      unfolding that(2) by (simp add: rollKeys_def Let_def tryS_def split: sum.split)
    then show ?thesis
      using that(1) unfolding that(2)
      by (auto simp: openOtherPhase_def nextRcvKeyMaterial_def decryptionFailed_def Let_def tryS_def split: sum.split)
  qed
  have drop: "dropExpired (u\<lparr>prevRcvKM := None\<rparr>) t
      = (dropExpired u t)\<lparr>prevRcvKM := None, prevRcvKMExpiry := prevRcvKMExpiry u\<rparr>" by (simp add: dropExpired_def)
  have "snd (openOtherPhase g (dropExpired u t) dst src t pn ad)
      = snd (openOtherPhase g (dropExpired (u\<lparr>prevRcvKM := None\<rparr>) t) dst src t pn ad)"
    by (rule strip [OF _ drop]) (simp add: assms(1))
  then show ?thesis using assms by (simp add: updatable_Open_def Let_def)
qed

text \<open>
  C12. The phase bit cannot tell a later even phase from the first one. Every fresh codec can
  be brought, without a single acknowledgement, to generation 2, where after a hundred packets
  it starts a third key update of its own, though no packet of its current phase was ever
  acknowledged; and in that state the keys it keeps for late packets of generation 1 are
  never used, the result of opening such a packet being the same without them.
\<close>

theorem even_phase_taken_for_first:
  assumes "secrets_ok g ss rs" "sm4_ok g" "fresh g ss rs u0"
  shows "\<exists>u u'. (gm_step g interval)\<^sup>*\<^sup>* u0 u \<and> generation g ss rs 2 u
    \<and> largestAcked u = InvalidPacketNumber \<and> numSent u = 100
    \<and> KeyPhase g interval u = (u', Inr KeyPhaseOne) \<and> generation g ss rs 3 u'
    \<and> prevRcvKM u = material g (secret_at g rs 1) \<and> prevRcvKM u \<noteq> None
    \<and> (\<forall>dst src t pn ad. snd (updatable_Open g u dst src t pn KeyPhaseOne ad)
          = snd (updatable_Open g (u\<lparr>prevRcvKM := None\<rparr>) dst src t pn KeyPhaseOne ad))"
proof -
  obtain v where v: "fresh g ss rs v" "largestAcked v = InvalidPacketNumber" by (rule fresh_codec [OF assms(1)])
  have "u0 = v" using assms(3) v(1) unfolding fresh_def by auto
  then have g0: "generation g ss rs 0 u0" "largestAcked u0 = InvalidPacketNumber"
    using fresh_generation [OF assms(1,3)] v(2) by simp_all
  define w where "w = updatable_SetHandshakeConfirmed u0"
  have w: "gm_step g interval u0 w" "generation g ss rs 0 w" "largestAcked w = InvalidPacketNumber" "handshakeConfirmed w"
    using gm_step.confirmed [of g interval u0] g0 by (auto simp: w_def updatable_SetHandshakeConfirmed_def intro: generation_cong)
  obtain u1 where u1: "gm_step g interval w u1" "generation g ss rs (Suc 0) u1" "firstRcvd u1 = 0"
    "largestAcked u1 = largestAcked w" "handshakeConfirmed u1 = handshakeConfirmed w"
    by (rule peer_updates [OF assms(1,2) w(2)]) simp_all
  obtain u2 where u2: "gm_step g interval u1 u2" "generation g ss rs (Suc 0) u2" "firstSent u2 \<noteq> InvalidPacketNumber"
    "firstRcvd u2 = firstRcvd u1" "largestAcked u2 = largestAcked u1" "handshakeConfirmed u2 = handshakeConfirmed u1"
    by (rule sends [OF assms(1,2) u1(2)])
  have first: "odd (Suc 0)" "firstRcvd u2 \<noteq> InvalidPacketNumber" "firstRcvd u2 \<le> 1"
    using u2(4) u1(3) by (simp_all add: InvalidPacketNumber_def)
  obtain u3 where u3: "gm_step g interval u2 u3" "generation g ss rs (Suc (Suc 0)) u3" "largestAcked u3 = largestAcked u2"
    "numSent u3 = 0" "prevRcvKM u3 \<noteq> None" "handshakeConfirmed u3 = handshakeConfirmed u2"
    by (rule peer_updates [OF assms(1,2) u2(2), of 1]) (use first u2(3) in simp_all)
  obtain u where u: "(gm_step g interval)\<^sup>*\<^sup>* u3 u" "generation g ss rs (Suc (Suc 0)) u"
    "numSent u = numSent u3 + of_nat 100" "largestAcked u = largestAcked u3" "prevRcvKM u = prevRcvKM u3"
    "handshakeConfirmed u = handshakeConfirmed u3"
    using sends_many [OF assms(1,2) u3(2), of interval 100] by blast
  have run: "(gm_step g interval)\<^sup>*\<^sup>* u0 u"
    using w(1) u1(1) u2(1) u3(1) u(1) by (meson converse_rtranclp_into_rtranclp)
  have num: "numSent u = 100" using u(3) u3(4) by simp
  have two: "Suc (Suc 0) = 2" "Suc (Suc (Suc 0)) = 3" by simp_all
  note gen2 = u(2) [unfolded two]
  have zero: "keyPhase u = KeyPhaseZero" using gen2 by (simp add: generation_def phase_bit_def)
  have "handshakeConfirmed u" using u(6) u3(6) u2(6) u1(5) w(4) by simp
  then have "shouldInitiateKeyUpdate interval u"
    using zero num by (simp add: shouldInitiateKeyUpdate_def updateAllowed_def gmFirstKeyUpdateInterval_def)
  then have roll: "KeyPhase g interval u = (rolled g u, Inr KeyPhaseOne)" "generation g ss rs 3 (rolled g u)"
    using KeyPhase_cases [OF assms(1) u(2)] generation_rolled(2) [OF assms(1) u(2)]
    unfolding two by (simp_all add: phase_bit_def)
  have prev: "prevRcvKM u \<noteq> None" using u(5) u3(5) by simp
  then have prev1: "prevRcvKM u = material g (secret_at g rs 1)" using gen2 by (auto simp: generation_def)
  have "largestAcked u = InvalidPacketNumber" using u(4) u3(3) u2(5) u1(4) w(3) by simp
  moreover have "snd (updatable_Open g u dst src t pn KeyPhaseOne ad)
      = snd (updatable_Open g (u\<lparr>prevRcvKM := None\<rparr>) dst src t pn KeyPhaseOne ad)" for dst src t pn ad
    by (rule even_phase_ignores_previous [OF zero, symmetric]) simp
  ultimately show ?thesis using run gen2 num roll prev prev1 by blast
qed

theorem even_phase_taken_for_first_witness:
  "\<exists>u0 u. fresh toy_sym toy_secret toy_secret u0 \<and> (gm_step toy_sym 100000)\<^sup>*\<^sup>* u0 u
    \<and> generation toy_sym toy_secret toy_secret 2 u \<and> largestAcked u = InvalidPacketNumber
    \<and> snd (KeyPhase toy_sym 100000 u) = Inr KeyPhaseOne"
proof -
  obtain u0 where u0: "fresh toy_sym toy_secret toy_secret u0" by (rule fresh_codec [OF toy_secrets_ok])
  obtain u u' where "(gm_step toy_sym 100000)\<^sup>*\<^sup>* u0 u" "generation toy_sym toy_secret toy_secret 2 u"
    "largestAcked u = InvalidPacketNumber" "KeyPhase toy_sym 100000 u = (u', Inr KeyPhaseOne)"
    using even_phase_taken_for_first [OF toy_secrets_ok toy_sm4_ok u0, of 100000] by blast
  then show ?thesis using u0 by (intro exI [of _ u0] exI [of _ u]) simp
qed

end
