(* ===== verification/PacketPipeline.thy ===== *)
theory PacketPipeline
  imports PacketCodec WireRoundtrip KeyUpdate
begin

text \<open>
  A packet that is packed and sealed by one endpoint is unprotected and opened by the other.
  What packing and unpacking rely on is the contract of a matching sealer and opener; it is
  discharged for the long-header codecs over the same keys and for two 1-RTT codecs at the
  same key generation.
\<close>

lemma drop_past: "drop (length xs + k) (xs @ ys) = drop k ys"
  by simp

section \<open>Masks\<close>

lemma xorb_append: "length a \<le> length c \<Longrightarrow> xorb (a @ b) c = xorb a c @ xorb b (drop (length a) c)"
proof (induction a arbitrary: c)
  case (Cons x a)
  then show ?case by (cases c) (simp_all add: xorb_def)
qed (simp add: xorb_def)

text \<open>
  The four bytes taken for the packet number are its masked bytes and the first of the
  ciphertext; writing them back unmasked garbles the ciphertext, copying the saved ones
  restores it.
\<close>

lemma unmask:
  fixes f' f :: byte and h pnb m ct :: bytes
  assumes "1 \<le> length pnb" "length pnb \<le> 4" "length m = 16" "16 \<le> length ct"
  defines "n \<equiv> length pnb"
  defines "wire \<equiv> f' # h @ xorb pnb (drop 1 m) @ ct"
  defines "four \<equiv> take 4 (drop (1 + length h) wire)"
  shows "length four = 4" "four = xorb pnb (drop 1 m) @ take (4 - n) ct"
    "(copy_at wire (1 + length h) (xorb four (drop 1 m)))[0 := f]
      = f # h @ pnb @ xorb (take (4 - n) ct) (drop (Suc n) m) @ drop (4 - n) ct"
    "copy_at (f # h @ pnb @ xorb (take (4 - n) ct) (drop (Suc n) m) @ drop (4 - n) ct) (1 + length h + n) (drop n four)
      = f # h @ pnb @ ct"
proof -
  have x: "length (xorb pnb (drop 1 m)) = n" using assms(2,3) by (simp add: n_def)
  show four: "four = xorb pnb (drop 1 m) @ take (4 - n) ct"
    using x assms(2) by (simp add: four_def wire_def n_def)
  then show "length four = 4" using x assms(2,4) by (simp add: n_def)
  have "length pnb \<le> length (drop 1 m)" using assms(2,3) by simp
  then have "xorb (xorb pnb (drop 1 m)) (drop 1 m) = pnb" by (rule xorb_cancel)
  then have u: "xorb four (drop 1 m) = pnb @ xorb (take (4 - n) ct) (drop (Suc n) m)"
    unfolding four using xorb_append [of "xorb pnb (drop 1 m)" "drop 1 m"] x assms(2,3) by (simp add: n_def)
  have "drop (Suc (length h) + 4) wire = drop (4 - n) ct"
    using drop_past [of "f' # h" 4 "xorb pnb (drop 1 m) @ ct"] x assms(2) by (simp add: wire_def n_def)
  moreover have "length (xorb four (drop 1 m)) = 4" using u assms(2,3,4) by (simp add: n_def)
  ultimately show "(copy_at wire (1 + length h) (xorb four (drop 1 m)))[0 := f]
      = f # h @ pnb @ xorb (take (4 - n) ct) (drop (Suc n) m) @ drop (4 - n) ct"
    using u assms(2-4) by (simp add: copy_at_def wire_def n_def)
  have "drop n four = take (4 - n) ct" using four x by simp
  moreover have "length (xorb (take (4 - n) ct) (drop (Suc n) m)) = 4 - n" using assms(2,3,4) by (simp add: n_def)
  ultimately show "copy_at (f # h @ pnb @ xorb (take (4 - n) ct) (drop (Suc n) m) @ drop (4 - n) ct) (1 + length h + n) (drop n four)
      = f # h @ pnb @ ct"
    using assms(4) by (simp add: copy_at_def n_def)
qed

section \<open>The contract\<close>

locale codec_pair =
  fixes S :: "'s sealer"
    and dec :: "'o \<Rightarrow> bytes \<Rightarrow> byte \<Rightarrow> bytes \<Rightarrow> gm_error + (byte \<times> bytes)"
    and opn :: "'o \<Rightarrow> bytes \<Rightarrow> bytes \<Rightarrow> int \<Rightarrow> bytes \<Rightarrow> 'o \<times> (gm_error + bytes)"
    and sync :: "'s \<Rightarrow> 'o \<Rightarrow> bool"
    and low :: byte
  assumes seal_open: "sync s q \<Longrightarrow> length src \<le> gcm_max \<Longrightarrow>
      \<exists>s' ct q'. sl_Seal S s [] src pn ad = (s', Inr ct) \<and> length ct = length src + 16 \<and> sync s' q
        \<and> opn q [] ct pn ad = (q', Inr src)"
    and overhead: "sl_Overhead S s = 16"
    and header_mask: "sync s q \<Longrightarrow> length sample = 16 \<Longrightarrow> \<exists>m. length m = 16 \<and> (\<forall>fb pnb. length pnb \<le> 4 \<longrightarrow>
        sl_EncryptHeader S s sample fb pnb = Inr (fb XOR (m ! 0 AND low), xorb pnb (drop 1 m))
        \<and> dec q sample fb pnb = Inr (fb XOR (m ! 0 AND low), xorb pnb (drop 1 m)))"
begin

text \<open>
  The sealed packet is the header with its first byte and packet number masked, followed by
  the ciphertext; removing the mask gives back the first byte and the packet number.
\<close>

lemma encrypted_packet:
  assumes "sync s q" "1 \<le> length pnb" "length pnb \<le> 4" "length body \<le> gcm_max" "4 \<le> length pnb + length body"
  obtains s' ct q' m where "length m = 16" "length ct = length body + 16"
    "encryptPacket S s (f # h @ pnb @ body) pn (1 + length h + length pnb) (length pnb)
      = (s', Inr ((f XOR (m ! 0 AND low)) # h @ xorb pnb (drop 1 m) @ ct))"
    "\<And>fb four. length four = 4 \<Longrightarrow>
       dec q (take 16 (drop (4 - length pnb) ct)) fb four = Inr (fb XOR (m ! 0 AND low), xorb four (drop 1 m))"
    "opn q [] ct pn (f # h @ pnb) = (q', Inr body)"
proof -
  obtain s' ct q' where ct: "sl_Seal S s [] body pn (f # h @ pnb) = (s', Inr ct)" "length ct = length body + 16" "sync s' q"
    "opn q [] ct pn (f # h @ pnb) = (q', Inr body)"
    using seal_open [OF assms(1,4)] by blast
  define sample where "sample = take 16 (drop (4 - length pnb) ct)"
  have "length sample = 16" using ct(2) assms(5) by (simp add: sample_def)
  from header_mask [OF ct(3) this] obtain m where m: "length m = 16"
    "\<And>fb b. length b \<le> 4 \<Longrightarrow> sl_EncryptHeader S s' sample fb b = Inr (fb XOR (m ! 0 AND low), xorb b (drop 1 m))"
    "\<And>fb b. length b \<le> 4 \<Longrightarrow> dec q sample fb b = Inr (fb XOR (m ! 0 AND low), xorb b (drop 1 m))" by blast
  have "take 16 (drop (Suc (length h) + 4) (f # h @ pnb @ ct)) = sample"
    using drop_past [of "f # h" 4 "pnb @ ct"] assms(3) by (simp add: sample_def)
  then have enc: "encryptPacket S s (f # h @ pnb @ body) pn (1 + length h + length pnb) (length pnb)
      = (s', Inr ((f XOR (m ! 0 AND low)) # h @ xorb pnb (drop 1 m) @ ct))"
    using ct(1,2) overhead [of s'] m(2) [OF assms(3)] assms(3,5) m(1)
    by (simp add: encryptPacket_def copy_at_def Let_def)
  show thesis
    by (rule that [OF m(1) ct(2) enc _ ct(4)]) (simp add: m(3) flip: sample_def)
qed

lemma protected_packet:
  assumes "sync s q" "1 \<le> length pnb" "length pnb \<le> 4" "length body \<le> gcm_max" "4 \<le> length pnb + length body"
  obtains s' q' wire rest ct k four x where
    "encryptPacket S s (f # h @ pnb @ body) pn (1 + length h + length pnb) (length pnb) = (s', Inr wire)"
    "wire = (f XOR (k AND low)) # h @ rest" "length rest = length pnb + length body + 16"
    "dec q (take 16 (drop (1 + length h + 4) wire)) (wire ! 0) (take 4 (drop (1 + length h) wire)) = Inr (f, four)"
    "(copy_at wire (1 + length h) four)[0 := f] = f # h @ pnb @ x"
    "length pnb \<noteq> 4 \<Longrightarrow> copy_at (f # h @ pnb @ x) (1 + length h + length pnb)
       (drop (length pnb) (take 4 (drop (1 + length h) wire))) = f # h @ pnb @ ct"
    "length pnb = 4 \<Longrightarrow> x = ct"
    "opn q [] ct pn (f # h @ pnb) = (q', Inr body)"
proof -
  define n where "n = length pnb"
  obtain s' ct q' m where e: "length m = 16" "length ct = length body + 16"
    "encryptPacket S s (f # h @ pnb @ body) pn (1 + length h + length pnb) (length pnb)
      = (s', Inr ((f XOR (m ! 0 AND low)) # h @ xorb pnb (drop 1 m) @ ct))"
    "\<And>fb four. length four = 4 \<Longrightarrow>
       dec q (take 16 (drop (4 - length pnb) ct)) fb four = Inr (fb XOR (m ! 0 AND low), xorb four (drop 1 m))"
    "opn q [] ct pn (f # h @ pnb) = (q', Inr body)"
    by (rule encrypted_packet [OF assms, of f h pn]) blast
  define wire where "wire = (f XOR (m ! 0 AND low)) # h @ xorb pnb (drop 1 m) @ ct"
  define four where "four = take 4 (drop (1 + length h) wire)"
  have ct: "16 \<le> length ct" using e(2) by simp
  note un1 = unmask(1) [OF assms(2,3) e(1) ct, where f' = "f XOR (m ! 0 AND low)" and h = h,
      folded wire_def, folded four_def]
  note un = unmask(3,4) [OF assms(2,3) e(1) ct, where f' = "f XOR (m ! 0 AND low)" and h = h and f = f,
      folded wire_def, folded four_def]
  have x: "length (xorb pnb (drop 1 m)) = length pnb" using e(1) assms(3) by simp
  have sample: "take 16 (drop (1 + length h + 4) wire) = take 16 (drop (4 - length pnb) ct)"
    using drop_past [of "(f XOR (m ! 0 AND low)) # h" 4 "xorb pnb (drop 1 m) @ ct"] x assms(3)
    by (simp add: wire_def)
  have w0: "wire ! 0 XOR (m ! 0 AND low) = f" by (simp add: wire_def)
  show thesis
  proof (rule that [of s' wire "m ! 0" "xorb pnb (drop 1 m) @ ct" "xorb four (drop 1 m)"])
    show "dec q (take 16 (drop (1 + length h + 4) wire)) (wire ! 0) (take 4 (drop (1 + length h) wire))
        = Inr (f, xorb four (drop 1 m))"
      unfolding sample four_def [symmetric] e(4) [OF un1] w0 ..
    show "length pnb = 4 \<Longrightarrow> xorb (take (4 - length pnb) ct) (drop (Suc (length pnb)) m) @ drop (4 - length pnb) ct = ct"
      by (simp add: xorb_def)
  qed (use e(2,3,5) un x in \<open>simp_all add: wire_def four_def\<close>)
qed

lemma unpack_short:
  assumes "sync s q" "1 \<le> n" "n \<le> 4" "kp \<noteq> KeyPhaseUndefined" "length body \<le> gcm_max" "4 \<le> n + length body"
    and "hd_DecryptHeader iface = dec"
  obtains s' q' wire ct where
    "encryptPacket S s (short_header cid pn n kp @ pn_bytes n pn @ body) pn' (1 + length cid + n) n = (s', Inr wire)"
    "unpackShortHeader iface q (length cid) wire
      = Inr (short_header cid pn n kp @ pn_bytes n pn @ ct, 1 + length cid + n, pn mod 256 ^ n, n, kp, None)"
    "opn q [] ct pn' (short_header cid pn n kp @ pn_bytes n pn) = (q', Inr body)"
proof -
  obtain f where f: "short_header cid pn n kp = f # cid" by (simp add: short_header_def)
  have len: "length (pn_bytes n pn) = n" by simp
  obtain s' q' wire rest ct k four x where w:
    "encryptPacket S s (f # cid @ pn_bytes n pn @ body) pn' (1 + length cid + n) n = (s', Inr wire)"
    "wire = (f XOR (k AND low)) # cid @ rest" "length rest = n + length body + 16"
    "dec q (take 16 (drop (1 + length cid + 4) wire)) (wire ! 0) (take 4 (drop (1 + length cid) wire)) = Inr (f, four)"
    "(copy_at wire (1 + length cid) four)[0 := f] = f # cid @ pn_bytes n pn @ x"
    "n \<noteq> 4 \<Longrightarrow> copy_at (f # cid @ pn_bytes n pn @ x) (1 + length cid + n) (drop n (take 4 (drop (1 + length cid) wire)))
       = f # cid @ pn_bytes n pn @ ct"
    "n = 4 \<Longrightarrow> x = ct" "opn q [] ct pn' (f # cid @ pn_bytes n pn) = (q', Inr body)"
    by (rule protected_packet [OF assms(1), of "pn_bytes n pn" body f cid pn', unfolded len]) (use assms(2,3,5,6) in auto)
  have "length wire \<ge> 1 + length cid + 20" using w(2,3) assms(6) by simp
  moreover have "ParseShortHeader (f # cid @ pn_bytes n pn @ x) (length cid)
      = Inr (1 + length cid + n, pn mod 256 ^ n, n, kp, None)"
    using ParseShortHeader_eq [OF assms(2-4), of cid pn x] by (simp add: f)
  ultimately have "unpackShortHeader iface q (length cid) wire
      = Inr (f # cid @ pn_bytes n pn @ ct, 1 + length cid + n, pn mod 256 ^ n, n, kp, None)"
    unfolding unpackShortHeader_def Let_def assms(7) w(4)
    using w(5-7) by (simp add: Let_def)
  then show thesis using that w(1,8) by (simp add: f)
qed

lemma unpack_long:
  assumes "sync s q" "header_ok h v" "length body \<le> gcm_max" "low = 0x0f"
    and "eh_PacketNumberLen h + length body + 16 = h_Length (eh_Header h)" "4 \<le> eh_PacketNumberLen h + length body"
    and "hd_DecryptHeader iface = dec" "n = eh_PacketNumberLen h"
  obtains s' q' wire ct hdr fb where
    "encryptPacket S s (long_first h v # long_tail (eh_Header h) @ pn_bytes n (eh_PacketNumber h) @ body) pn'
       (1 + length (long_tail (eh_Header h)) + n) n = (s', Inr wire)"
    "\<And>behind. ParsePacket (wire @ behind) = Inr (parsed fb (eh_Header h), wire, behind)"
    "unpackLongHeader iface q (parsed fb (eh_Header h)) wire
      = Inr (long_first h v # long_tail (eh_Header h) @ pn_bytes n (eh_PacketNumber h) @ ct,
          extended fb h v (eh_PacketNumber h mod 256 ^ n), None)"
    "opn q [] ct pn' (long_first h v # long_tail (eh_Header h) @ pn_bytes n (eh_PacketNumber h)) = (q', Inr body)"
proof -
  define f t where "f = long_first h v" and "t = long_tail (eh_Header h)"
  define pnb where "pnb = pn_bytes n (eh_PacketNumber h)"
  have n: "1 \<le> n" "n \<le> 4" using assms(2,8) by (simp_all add: header_ok_def)
  have len: "length pnb = n" by (simp add: pnb_def)
  obtain s' q' wire rest ct k four x where w:
    "encryptPacket S s (f # t @ pnb @ body) pn' (1 + length t + n) n = (s', Inr wire)"
    "wire = (f XOR (k AND low)) # t @ rest" "length rest = n + length body + 16"
    "dec q (take 16 (drop (1 + length t + 4) wire)) (wire ! 0) (take 4 (drop (1 + length t) wire)) = Inr (f, four)"
    "(copy_at wire (1 + length t) four)[0 := f] = f # t @ pnb @ x"
    "n \<noteq> 4 \<Longrightarrow> copy_at (f # t @ pnb @ x) (1 + length t + n) (drop n (take 4 (drop (1 + length t) wire))) = f # t @ pnb @ ct"
    "n = 4 \<Longrightarrow> x = ct" "opn q [] ct pn' (f # t @ pnb) = (q', Inr body)"
    by (rule protected_packet [OF assms(1), of pnb body f t pn', unfolded len]) (use n assms(3,6,8) in auto)
  define fb where "fb = f XOR (k AND low)"
  note bits = first_byte_bits(1-3) [OF assms(2), of k, folded assms(4) f_def, folded fb_def]
  have "length rest = h_Length (eh_Header h)" using w(3) assms(5,8) by simp
  then have split: "ParsePacket (wire @ behind) = Inr (parsed fb (eh_Header h), wire, behind)" for behind
    using ParsePacket_eq [OF assms(2) bits, of rest behind] by (simp add: w(2) t_def fb_def)
  have hl: "h_parsedLen (parsed fb (eh_Header h)) = 1 + length t" by (simp add: parsed_def t_def)
  have ext: "ParseExtended (parsed fb (eh_Header h)) (f # t @ pnb @ x) = Inr (extended fb h v (eh_PacketNumber h mod 256 ^ n), None)"
    using ParseExtended_eq [OF assms(2)] by (simp add: f_def t_def pnb_def assms(8))
  have sel: "eh_PacketNumberLen (extended fb h v p) = n" "eh_parsedLen (extended fb h v p) = 1 + length t + n" for p
    by (simp_all add: extended_def assms(8) t_def)
  have "length wire \<ge> 1 + length t + 20" using w(2,3) assms(6,8) by simp
  then have "unpackLongHeader iface q (parsed fb (eh_Header h)) wire
      = Inr (f # t @ pnb @ ct, extended fb h v (eh_PacketNumber h mod 256 ^ n), None)"
    unfolding unpackLongHeader_def Let_def hl assms(7) w(4)
    using w(5-7) ext sel by (simp add: Let_def)
  then show thesis using that split w(1,8) by (simp add: f_def t_def pnb_def)
qed

end

section \<open>The codecs keep it\<close>

lemma applyGMHeaderMask_eq:
  assumes "sm4_ok g" "length hp = 16" "length sample = 16" "length pnb \<le> 4"
  shows "length (sm4_Encrypt g hp sample) = 16"
    "applyGMHeaderMask g hp long sample fb pnb =
      Inr (fb XOR (sm4_Encrypt g hp sample ! 0 AND (if long then 0x0f else 0x1f)),
        xorb pnb (drop 1 (sm4_Encrypt g hp sample)))"
proof -
  show len: "length (sm4_Encrypt g hp sample) = 16" using assms(1-3) by simp
  define m where "m = sm4_Encrypt g hp sample"
  have "xorb pnb (drop 1 m) = map (\<lambda>i. pnb ! i XOR m ! (1 + i)) [0..<length pnb]"
  proof (rule nth_equalityI)
    show "length (xorb pnb (drop 1 m)) = length (map (\<lambda>i. pnb ! i XOR m ! (1 + i)) [0..<length pnb])"
      using assms(4) len by (simp add: m_def)
  next
    fix i
    assume "i < length (xorb pnb (drop 1 m))"
    then show "xorb pnb (drop 1 m) ! i = map (\<lambda>i. pnb ! i XOR m ! (1 + i)) [0..<length pnb] ! i"
      using len by (simp add: xorb_def m_def)
  qed
  moreover have "\<not> (length sample < gmHeaderSampleLen \<or> length pnb \<ge> gmHeaderSampleLen)" "take gmHeaderSampleLen sample = sample"
    using assms(3,4) by (simp_all add: gmHeaderSampleLen_def)
  ultimately show "applyGMHeaderMask g hp long sample fb pnb =
      Inr (fb XOR (sm4_Encrypt g hp sample ! 0 AND (if long then 0x0f else 0x1f)),
        xorb pnb (drop 1 (sm4_Encrypt g hp sample)))"
    unfolding applyGMHeaderMask_def Let_def m_def by (cases long) simp_all
qed

lemma AEAD_sealed:
  assumes "sm4_ok g" "aead_wf a" "length pt \<le> gcm_max"
  obtains ct where "AEAD_Seal g a s pt aad = Inr ct" "length ct = length pt + 16" "AEAD_Open g a s ct aad = Inr pt"
proof -
  obtain ct where ct: "AEAD_Seal g a s pt aad = Inr ct" by (rule AEAD_seal_total [OF assms])
  show thesis by (rule that [OF ct AEAD_seal_length [OF assms(1,2) ct] AEAD_open_seal [OF assms(1,2) ct]])
qed

definition long_sync :: "'x gm_sym_scheme \<Rightarrow> gmLongSealer \<Rightarrow> gmLongOpener \<Rightarrow> bool" where
  "long_sync g s q \<longleftrightarrow> sm4_ok g \<and> ls_km s = lo_km q \<and> aead_wf (km_aead (lo_km q)) \<and> length (km_hp (lo_km q)) = 16
     \<and> ls_isLong s \<and> lo_isLong q"

interpretation lp: codec_pair "longSealer g" "gmLongOpener_DecryptHeader g" "gmLongOpener_Open g" "long_sync g" "0x0f"
  for g :: "'x gm_sym_scheme"
proof unfold_locales
  fix s q pn and src ad :: bytes
  assume sync: "long_sync g s q" and len: "length src \<le> gcm_max"
  have ok: "sm4_ok g" "aead_wf (km_aead (lo_km q))" and km: "ls_km s = lo_km q" using sync by (simp_all add: long_sync_def)
  obtain ct where ct: "AEAD_Seal g (km_aead (lo_km q)) (word_of_int pn) src ad = Inr ct"
    "length ct = length src + 16" "AEAD_Open g (km_aead (lo_km q)) (word_of_int pn) ct ad = Inr src"
    by (rule AEAD_sealed [OF ok len])
  then show "\<exists>s' ct q'. sl_Seal (longSealer g) s [] src pn ad = (s', Inr ct) \<and> length ct = length src + 16
      \<and> long_sync g s' q \<and> gmLongOpener_Open g q [] ct pn ad = (q', Inr src)"
    using sync km by (simp add: longSealer_def gmLongSealer_Seal_def gmLongOpener_Open_def Let_def)
next
  fix s q sample
  assume "long_sync g s q" and "length (sample :: bytes) = 16"
  then show "\<exists>m. length m = 16 \<and> (\<forall>fb pnb. length pnb \<le> 4 \<longrightarrow>
        sl_EncryptHeader (longSealer g) s sample fb pnb = Inr (fb XOR (m ! 0 AND 0x0f), xorb pnb (drop 1 m))
        \<and> gmLongOpener_DecryptHeader g q sample fb pnb = Inr (fb XOR (m ! 0 AND 0x0f), xorb pnb (drop 1 m)))"
    using applyGMHeaderMask_eq [of g "km_hp (lo_km q)" sample]
    by (intro exI [of _ "sm4_Encrypt g (km_hp (lo_km q)) sample"])
       (simp add: long_sync_def longSealer_def gmLongSealer_EncryptHeader_def gmLongOpener_DecryptHeader_def)
qed (simp add: longSealer_def gmLongSealer_Overhead_def)

definition short_sync :: "'x gm_sym_scheme \<Rightarrow> bytes \<Rightarrow> bytes \<Rightarrow> nat \<Rightarrow> gmUpdatableAEAD \<Rightarrow> gmUpdatableAEAD \<Rightarrow> bool" where
  "short_sync g ss rs n a b \<longleftrightarrow> sm4_ok g \<and> secrets_ok g ss rs \<and> generation g ss rs n a \<and> generation g rs ss n b"

lemma short_sync_material:
  assumes "short_sync g ss rs n a b"
  obtains km where "sendKM a = Some km" "rcvKM b = Some km" "material g (secret_at g ss n) = Some km"
    "aead_wf (km_aead km)" "length (km_hp km) = 16"
proof -
  have "secrets_ok g ss rs" "generation g ss rs n a" using assms by (simp_all add: short_sync_def)
  then obtain km where km: "sendKM a = Some km" "material g (secret_at g ss n) = Some km" "aead_wf (km_aead km)"
    "length (km_hp km) = 16" by (rule send_material)
  moreover have "rcvKM b = Some km" using assms km(2) by (simp add: short_sync_def generation_def)
  ultimately show thesis using that by blast
qed

interpretation up: codec_pair "updatableSealer g" "updatable_DecryptHeader g"
  "\<lambda>b dst ct pn ad. updatable_Open g b dst ct t pn (phase_bit n) ad" "short_sync g ss rs n" "0x1f"
  for g :: "'x gm_sym_scheme" and t n ss rs
proof unfold_locales
  fix a b pn and src ad :: bytes
  assume sync: "short_sync g ss rs n a b" and len: "length src \<le> gcm_max"
  obtain km where km: "sendKM a = Some km" "rcvKM b = Some km" "material g (secret_at g ss n) = Some km" "aead_wf (km_aead km)"
    by (rule short_sync_material [OF sync])
  have g: "sm4_ok g" "secrets_ok g rs ss" "generation g ss rs n a" "generation g rs ss n b"
    using sync by (simp_all add: short_sync_def secrets_ok_def)
  obtain ct where ct: "AEAD_Seal g (km_aead km) (word_of_int pn) src ad = Inr ct" "length ct = length src + 16"
    and op: "AEAD_Open g (km_aead km) (word_of_int pn) ct ad = Inr src"
    by (rule AEAD_sealed [OF g(1) km(4) len])
  obtain a' where a': "updatable_Seal g a [] src pn ad = (a', Inr ct)"
    using km(1) ct(1) by (simp add: updatable_Seal_def Let_def)
  have "short_sync g ss rs n a' b" using seal_generation [OF g(3) a'] sync by (simp add: short_sync_def)
  then show "\<exists>s' ct q'. sl_Seal (updatableSealer g) a [] src pn ad = (s', Inr ct) \<and> length ct = length src + 16
      \<and> short_sync g ss rs n s' b \<and> updatable_Open g b [] ct t pn (phase_bit n) ad = (q', Inr src)"
    using a' ct(2) opens_same [OF g(2,4) km(3) op, of "[]" t] by (auto simp: updatableSealer_def)
next
  fix a b sample
  assume sync: "short_sync g ss rs n a b" and len: "length (sample :: bytes) = 16"
  obtain km where "sendKM a = Some km" "rcvKM b = Some km" "length (km_hp km) = 16"
    by (rule short_sync_material [OF sync])
  moreover have "sm4_ok g" using sync by (simp add: short_sync_def)
  ultimately show "\<exists>m. length m = 16 \<and> (\<forall>fb pnb. length pnb \<le> 4 \<longrightarrow>
        sl_EncryptHeader (updatableSealer g) a sample fb pnb = Inr (fb XOR (m ! 0 AND 0x1f), xorb pnb (drop 1 m))
        \<and> updatable_DecryptHeader g b sample fb pnb = Inr (fb XOR (m ! 0 AND 0x1f), xorb pnb (drop 1 m)))"
    using applyGMHeaderMask_eq [of g "km_hp km" sample] len
    by (intro exI [of _ "sm4_Encrypt g (km_hp km) sample"])
       (simp add: updatableSealer_def updatable_EncryptHeader_def updatable_DecryptHeader_def)
qed (simp add: updatableSealer_def updatable_Overhead_def)

section \<open>Packets\<close>

lemma appendPacketPayload_eq:
  assumes "pl_length pl = length (pl_ack pl) + length (pl_frames pl)"
  shows "appendPacketPayload packet pl p = Inr (packet @ pl_ack pl @ replicate p 0 @ pl_frames pl)"
  using assms by (simp add: appendPacketPayload_def Let_def)

lemma padding_suffices: "pnLen \<le> 4 \<Longrightarrow> 4 \<le> pnLen + (pl_length pl + paddingFor pl pnLen padding)"
  unfolding paddingFor_def by (cases "pl_length pl < 4 - pnLen") simp_all

text \<open>The payload of a packet as the receiver sees it, with the zero bytes of the padding.\<close>

definition padded :: "payload \<Rightarrow> nat \<Rightarrow> nat \<Rightarrow> bytes" where
  "padded pl pnLen padding = pl_ack pl @ replicate (paddingFor pl pnLen padding) 0 @ pl_frames pl"

lemma length_padded:
  "pl_length pl = length (pl_ack pl) + length (pl_frames pl) \<Longrightarrow>
    length (padded pl pnLen padding) = pl_length pl + paddingFor pl pnLen padding"
  by (simp add: padded_def)

text \<open>
  C13. A 1-RTT packet arrives. For two endpoints in the same key generation, a packet number
  whose length was chosen from the largest acknowledged number, and a payload that fits, the
  packer builds a packet, and the unpacker of the receiver returns the full packet number,
  the key phase and the payload with its padding, and stays in its key generation.
\<close>

theorem short_packet_roundtrip:
  assumes "sm4_ok g" "secrets_ok g ss rs" "generation g ss rs n a" "generation g rs ss n b"
    and "0 \<le> pn" "pn < 2 ^ 62" "- 1 \<le> acked" "acked \<le> highestRcvdPN b" "pn - acked < 2 ^ 31" "highestRcvdPN b < pn + 32767"
    and "k = PacketNumberLengthForHeader pn acked"
    and "pl_length pl = length (pl_ack pl) + length (pl_frames pl)" "length (padded pl k padding) \<le> gcm_max"
    and "1 + length cid + k + length (padded pl k padding) + 16 \<le> maxPacketSize"
  shows "\<exists>a' b' packet. appendShortHeaderPacket (updatableSealer g) a cid pn k (keyPhase a) pl padding maxPacketSize mtu pn
      = (a', Inr packet)
    \<and> unpackShortHeaderPacket (updatableOpener g) b (length cid) t packet
      = (b', Inr (pn, k, keyPhase a, padded pl k padding)) \<and> generation g rs ss n b'"
proof -
  define body where "body = padded pl k padding"
  have ks: "1 \<le> k" "k \<le> 4" using length_for_header_window(1,2) [OF assms(5,7-11)] by simp_all
  have kp: "keyPhase a = phase_bit n" "phase_bit n \<noteq> KeyPhaseUndefined"
    using assms(3) by (simp_all add: generation_def phase_bit_def)
  have sync: "short_sync g ss rs n a b" using assms(1-4) by (simp add: short_sync_def)
  have dec: "hd_DecryptHeader (updatableOpener g) = updatable_DecryptHeader g" by (simp add: updatableOpener_def)
  have four: "4 \<le> k + length body" using padding_suffices [OF ks(2)] length_padded [OF assms(12)] by (simp add: body_def)
  obtain a' b' wire ct where w:
    "encryptPacket (updatableSealer g) a (short_header cid pn k (phase_bit n) @ pn_bytes k pn @ body) pn (1 + length cid + k) k
      = (a', Inr wire)"
    "unpackShortHeader (updatableOpener g) b (length cid) wire
      = Inr (short_header cid pn k (phase_bit n) @ pn_bytes k pn @ ct, 1 + length cid + k, pn mod 256 ^ k, k, phase_bit n, None)"
    "updatable_Open g b [] ct t pn (phase_bit n) (short_header cid pn k (phase_bit n) @ pn_bytes k pn) = (b', Inr body)"
    by (rule up.unpack_short [OF sync ks kp(2) assms(13) [folded body_def] four dec, of cid pn pn t])
  have hl: "length (short_header cid pn k (phase_bit n)) = 1 + length cid" by (simp add: short_header_def)
  have "appendShortHeaderPacket (updatableSealer g) a cid pn k (keyPhase a) pl padding maxPacketSize mtu pn = (a', Inr wire)"
    using w(1) assms(14) hl AppendShortHeader_eq [OF ks, of cid pn "phase_bit n"]
    by (simp add: appendShortHeaderPacket_def kp(1) Let_def appendPacketPayload_eq [OF assms(12)] body_def padded_def
        updatableSealer_def updatable_Overhead_def)
  moreover have "protocol_DecodePacketNumber k (highestRcvdPN b) (pn mod 256 ^ k) = pn"
    unfolding assms(11) by (rule decode_chosen [OF assms(5-10)])
  then have "unpackShortHeaderPacket (updatableOpener g) b (length cid) t wire = (b', Inr (pn, k, keyPhase a, body))"
    using w(2,3) hl
    by (simp add: unpackShortHeaderPacket_def updatableOpener_def updatable_DecodePacketNumber_def kp(1) Let_def)
  moreover have ok: "secrets_ok g rs ss" "phase_bit n = keyPhase b"
    using assms(2,4) by (simp_all add: secrets_ok_def generation_def)
  have "generation g rs ss n b'" using open_outcome [OF ok(1) assms(4) w(3)] ok(2) by blast
  ultimately show ?thesis by (auto simp: body_def)
qed

lemma fresh_highest: "fresh g ss rs u \<Longrightarrow> highestRcvdPN u = - 1"
  by (auto simp: fresh_def newGMUpdatableAEAD_def InvalidPacketNumber_def bindE_Inr_iff)

definition toy_payload :: payload where
  "toy_payload = \<lparr>pl_ack = [2], pl_frames = [], pl_length = 1\<rparr>"

theorem short_packet_roundtrip_witness:
  "\<exists>a b a' b' packet. fresh toy_sym toy_secret toy_secret a \<and> fresh toy_sym toy_secret toy_secret b
    \<and> appendShortHeaderPacket (updatableSealer toy_sym) a [5, 6] 0 2 KeyPhaseZero toy_payload 0 1200 False 0 = (a', Inr packet)
    \<and> unpackShortHeaderPacket (updatableOpener toy_sym) b 2 7 packet = (b', Inr (0, 2, KeyPhaseZero, [2, 0]))"
proof -
  obtain a where a: "fresh toy_sym toy_secret toy_secret a" "generation toy_sym toy_secret toy_secret 0 a"
    by (rule fresh_codec [OF toy_secrets_ok])
  have k: "2 = PacketNumberLengthForHeader 0 (- 1)" by (simp add: PacketNumberLengthForHeader_def InvalidPacketNumber_def)
  have p: "padded toy_payload 2 0 = [2, 0]" by (simp add: padded_def toy_payload_def paddingFor_def)
  have kp: "keyPhase a = KeyPhaseZero" using a(2) by (simp add: generation_def phase_bit_def)
  have hi: "highestRcvdPN a = - 1" by (rule fresh_highest [OF a(1)])
  have pl: "pl_length toy_payload = length (pl_ack toy_payload) + length (pl_frames toy_payload)"
    by (simp add: toy_payload_def)
  have "\<exists>a' b' packet. appendShortHeaderPacket (updatableSealer toy_sym) a [5, 6] 0 2 (keyPhase a) toy_payload 0 1200 False 0
      = (a', Inr packet)
    \<and> unpackShortHeaderPacket (updatableOpener toy_sym) a (length [5, 6 :: byte]) 7 packet
      = (b', Inr (0, 2, keyPhase a, padded toy_payload 2 0)) \<and> generation toy_sym toy_secret toy_secret 0 b'"
    by (rule short_packet_roundtrip [OF toy_sm4_ok toy_secrets_ok a(2,2) _ _ _ _ _ _ k pl]) (simp_all add: hi p gcm_max_def)
  then obtain a' b' packet where
    "appendShortHeaderPacket (updatableSealer toy_sym) a [5, 6] 0 2 (keyPhase a) toy_payload 0 1200 False 0 = (a', Inr packet)"
    "unpackShortHeaderPacket (updatableOpener toy_sym) a (length [5, 6 :: byte]) 7 packet
      = (b', Inr (0, 2, keyPhase a, padded toy_payload 2 0))" by blast
  then show ?thesis using a(1) unfolding kp p by (intro exI conjI) (assumption | simp add: numeral_2_eq_2)+
qed

text \<open>
  C14. An Initial, 0-RTT or Handshake packet arrives, also when more packets follow in its
  datagram. For a sealer and an opener with the same key material, a header within the limits
  and a packet number in the window of the opener, the packer builds a packet; parsing the
  datagram cuts it off behind the packet, and the unpacker returns the packet number, the
  fields of the header and the payload with its padding.
\<close>

theorem long_packet_roundtrip:
  assumes "sm4_ok g" "ls_km s = lo_km q" "aead_wf (km_aead (lo_km q))" "length (km_hp (lo_km q)) = 16" "ls_isLong s" "lo_isLong q"
    and "0 \<le> eh_PacketNumber h" "eh_PacketNumber h < 2 ^ 62" "- 1 \<le> acked" "acked \<le> lo_highestRcvdPN q"
    and "eh_PacketNumber h - acked < 2 ^ 31" "lo_highestRcvdPN q < eh_PacketNumber h + 32767"
    and "k = PacketNumberLengthForHeader (eh_PacketNumber h) acked" "eh_PacketNumberLen h = k"
    and "pl_length pl = length (pl_ack pl) + length (pl_frames pl)" "length (padded pl k padding) \<le> gcm_max"
    and "header_ok h' v" "h' = h\<lparr>eh_Header := (eh_Header h)\<lparr>h_Length := k + 16 + length (padded pl k padding)\<rparr>\<rparr>"
  shows "\<exists>s' q' packet hdr ext. appendLongHeaderPacket (longSealer g) s h pl padding v = (s', Inr (h', packet))
    \<and> ParsePacket (packet @ behind) = Inr (hdr, packet, behind)
    \<and> unpackLongHeaderPacket (longOpener g) q hdr packet = (q', Inr (ext, padded pl k padding))
    \<and> eh_PacketNumber ext = eh_PacketNumber h \<and> eh_PacketNumberLen ext = k
    \<and> h_Type (eh_Header ext) = h_Type (eh_Header h) \<and> h_Version (eh_Header ext) = h_Version (eh_Header h)
    \<and> DestConnectionID (eh_Header ext) = DestConnectionID (eh_Header h)
    \<and> SrcConnectionID (eh_Header ext) = SrcConnectionID (eh_Header h)
    \<and> h_Token (eh_Header ext) = h_Token (eh_Header h)"
proof -
  define body t pn where "body = padded pl k padding" and "t = long_tail (eh_Header h')" and "pn = eh_PacketNumber h"
  have ks: "1 \<le> k" "k \<le> 4" using length_for_header_window(1,2) [OF assms(7,9-13)] by simp_all
  have h': "eh_PacketNumberLen h' = k" "eh_PacketNumber h' = pn" "h_Length (eh_Header h') = k + length body + 16"
    using assms(14) by (simp_all add: assms(18) pn_def body_def)
  have sync: "long_sync g s q" using assms(1-6) by (simp add: long_sync_def)
  have dec: "hd_DecryptHeader (longOpener g) = gmLongOpener_DecryptHeader g" by (simp add: longOpener_def)
  have four: "4 \<le> eh_PacketNumberLen h' + length body"
    using padding_suffices [OF ks(2)] length_padded [OF assms(15)] by (simp add: body_def h'(1))
  obtain s' q' wire ct fb where w:
    "encryptPacket (longSealer g) s (long_first h' v # t @ pn_bytes k pn @ body) pn (1 + length t + k) k = (s', Inr wire)"
    "\<And>behind. ParsePacket (wire @ behind) = Inr (parsed fb (eh_Header h'), wire, behind)"
    "unpackLongHeader (longOpener g) q (parsed fb (eh_Header h')) wire
      = Inr (long_first h' v # t @ pn_bytes k pn @ ct, extended fb h' v (pn mod 256 ^ k), None)"
    "gmLongOpener_Open g q [] ct pn (long_first h' v # t @ pn_bytes k pn) = (q', Inr body)"
    using lp.unpack_long [OF sync assms(17) assms(16) [folded body_def] refl _ four dec refl, of pn] h'
    unfolding t_def by metis
  have hdr: "h\<lparr>eh_Header := (eh_Header h)\<lparr>h_Length := eh_PacketNumberLen h + sl_Overhead (longSealer g) s
      + pl_length pl + paddingFor pl (eh_PacketNumberLen h) padding\<rparr>\<rparr> = h'"
    using length_padded [OF assms(15)] by (simp add: assms(14,18) longSealer_def gmLongSealer_Overhead_def)
  have app: "ExtendedHeader_Append h' [] v = Inr (long_first h' v # t @ pn_bytes k pn)"
    using ExtendedHeader_Append_eq [OF assms(17)] by (simp add: h' t_def)
  have "appendLongHeaderPacket (longSealer g) s h pl padding v = (s', Inr (h', wire))"
    unfolding appendLongHeaderPacket_def Let_def hdr app
    using w(1) by (simp add: appendPacketPayload_eq [OF assms(15)] assms(14) h' body_def padded_def)
  moreover have "protocol_DecodePacketNumber k (lo_highestRcvdPN q) (pn mod 256 ^ k) = pn"
    unfolding assms(13) pn_def by (rule decode_chosen [OF assms(7-12)])
  then have "unpackLongHeaderPacket (longOpener g) q (parsed fb (eh_Header h')) wire
      = (q', Inr (extended fb h' v pn, body))"
    using w(3,4)
    by (simp add: unpackLongHeaderPacket_def longOpener_def gmLongOpener_DecodePacketNumber_def Let_def extended_def h' t_def)
  moreover have "eh_PacketNumber (extended fb h' v pn) = pn" "eh_PacketNumberLen (extended fb h' v pn) = k"
    "eh_Header (extended fb h' v pn) = parsed fb (eh_Header h')" by (simp_all add: extended_def h')
  ultimately show ?thesis using w(2) assms(18) unfolding body_def pn_def parsed_def
    by (intro exI conjI) (assumption | simp)+
qed

definition toy_material :: gmKeyMaterial where
  "toy_material = \<lparr>km_aead = \<lparr>aeadKey = replicate 16 1, fixedNonce = replicate 12 2\<rparr>, km_hp = replicate 16 3\<rparr>"

theorem long_packet_roundtrip_witness:
  "\<exists>s' q' packet hdr ext h'. appendLongHeaderPacket (longSealer toy_sym) \<lparr>ls_km = toy_material, ls_isLong = True\<rparr>
      toy_header toy_payload 0 Version1 = (s', Inr (h', packet))
    \<and> ParsePacket (packet @ [8]) = Inr (hdr, packet, [8])
    \<and> unpackLongHeaderPacket (longOpener toy_sym)
        \<lparr>lo_km = toy_material, lo_isLong = True, lo_highestRcvdPN = 69999, lo_invalidPacketCount = 0\<rparr> hdr packet
      = (q', Inr (ext, [2, 0])) \<and> eh_PacketNumber ext = 70000"
proof -
  let ?q = "\<lparr>lo_km = toy_material, lo_isLong = True, lo_highestRcvdPN = 69999, lo_invalidPacketCount = 0\<rparr>"
  let ?s = "\<lparr>ls_km = toy_material, ls_isLong = True\<rparr>"
  have p: "padded toy_payload 2 0 = [2, 0]" by (simp add: padded_def toy_payload_def paddingFor_def)
  have k: "2 = PacketNumberLengthForHeader (eh_PacketNumber toy_header) 69999"
    by (simp add: PacketNumberLengthForHeader_def InvalidPacketNumber_def toy_header_def)
  have h: "header_ok (toy_header\<lparr>eh_Header := (eh_Header toy_header)\<lparr>h_Length := 2 + 16 + length (padded toy_payload 2 0)\<rparr>\<rparr>) Version1"
    by (simp add: header_ok_def toy_header_def p)
  have km: "aead_wf (km_aead toy_material)" "length (km_hp toy_material) = 16"
    by (simp_all add: toy_material_def aead_wf_def)
  have pl: "pl_length toy_payload = length (pl_ack toy_payload) + length (pl_frames toy_payload)"
    by (simp add: toy_payload_def)
  have pn: "eh_PacketNumber toy_header = 70000" "eh_PacketNumberLen toy_header = 2" by (simp_all add: toy_header_def)
  have "length (padded toy_payload 2 0) \<le> gcm_max" by (simp add: p gcm_max_def)
  note r = long_packet_roundtrip [OF toy_sm4_ok _ _ _ _ _ _ _ _ _ _ _ k pn(2) pl this h refl,
      where s = ?s and q = ?q and behind = "[8]"]
  obtain s' q' packet hdr ext where
    "appendLongHeaderPacket (longSealer toy_sym) ?s toy_header toy_payload 0 Version1
      = (s', Inr (toy_header\<lparr>eh_Header := (eh_Header toy_header)\<lparr>h_Length := 2 + 16 + length (padded toy_payload 2 0)\<rparr>\<rparr>, packet))"
    "ParsePacket (packet @ [8]) = Inr (hdr, packet, [8])"
    "unpackLongHeaderPacket (longOpener toy_sym) ?q hdr packet = (q', Inr (ext, padded toy_payload 2 0))"
    "eh_PacketNumber ext = eh_PacketNumber toy_header"
    by (rule exE [OF r]) (simp_all add: km pn, blast)
  then show ?thesis unfolding p pn by (intro exI conjI)
qed

section \<open>Header keys\<close>

lemma xor_twice: "(a XOR b) XOR c = a \<longleftrightarrow> b = c" for a b c :: byte
  unfolding bit_eq_iff bit_xor_iff by blast

lemma xorb_twice:
  "length p \<le> length x \<Longrightarrow> length p \<le> length y \<Longrightarrow>
    xorb (xorb p x) y = p \<longleftrightarrow> take (length p) x = take (length p) y"
proof (induction p arbitrary: x y)
  case (Cons a p)
  then obtain b x' c y' where "x = b # x'" "y = c # y'"
    by (metis Suc_le_length_iff length_Cons)
  then show ?case using Cons by (simp add: xorb_def xor_twice)
qed (simp add: xorb_def)

text \<open>
  C15. A key update also replaces the header protection key. When the sender has moved to the
  next key generation and the receiver has not, removing the header protection returns the
  first byte and the packet number that were protected exactly when the masks of the two
  header keys agree in the bits used; the packet that announces the update is read only then.
\<close>

theorem header_keys_roll:
  assumes "sm4_ok g" "secrets_ok g ss rs" "generation g ss rs (Suc n) a" "generation g rs ss n b"
    and "length sample = 16" "length pnb \<le> 4"
    and "material g (secret_at g ss n) = Some old" "material g (secret_at g ss (Suc n)) = Some new"
    and "m = sm4_Encrypt g (km_hp old) sample" "m' = sm4_Encrypt g (km_hp new) sample"
  shows "\<exists>fb' pnb'. updatable_EncryptHeader g a sample fb pnb = Inr (fb', pnb')
    \<and> (updatable_DecryptHeader g b sample fb' pnb' = Inr (fb, pnb)
       \<longleftrightarrow> m' ! 0 AND 0x1f = m ! 0 AND 0x1f \<and> take (length pnb) (drop 1 m') = take (length pnb) (drop 1 m))"
proof -
  have km: "sendKM a = Some new" "rcvKM b = Some old"
    using assms(3,4,7,8) unfolding generation_def by simp_all
  have ok: "secrets_ok g rs ss" using assms(2) by (simp add: secrets_ok_def)
  have hp: "length (km_hp old) = 16" by (rule rcv_material [OF ok assms(4)]) (simp add: km)
  have hp': "length (km_hp new) = 16" by (rule send_material [OF assms(2,3)]) (simp add: km)
  note enc = applyGMHeaderMask_eq [OF assms(1) hp' assms(5), folded assms(10)]
  note dec = applyGMHeaderMask_eq [OF assms(1) hp assms(5), folded assms(9)]
  have len: "length (xorb pnb (drop 1 m')) \<le> 4" using assms(6) by (simp add: xorb_def)
  have "length pnb \<le> length (drop 1 m')" "length pnb \<le> length (drop 1 m)"
    using enc(1) [OF assms(6)] dec(1) [OF assms(6)] assms(6) by simp_all
  then show ?thesis
    using enc(2) [OF assms(6), of False fb] dec(2) [OF len, of False] xorb_twice [of pnb "drop 1 m'" "drop 1 m"] km
    by (simp add: updatable_EncryptHeader_def updatable_DecryptHeader_def xor_twice)
qed

text \<open>A hash that repeats the first byte of its input, under which the keys are easy to compute.\<close>

definition head_sym :: gm_sym where
  "head_sym = toy_sym\<lparr>sm3_Sum := \<lambda>m. replicate 32 (case m of [] \<Rightarrow> 0 | x # _ \<Rightarrow> x)\<rparr>"

lemma head_secrets_ok: "sm4_ok head_sym" "secrets_ok head_sym toy_secret toy_secret"
  by (simp_all add: secrets_ok_def sm3_ok_def head_sym_def toy_secret_def sm4_ok_def toy_sym_def xorb_self_cancel)

lemma head_hmac: "NewHMAC head_sym (replicate 32 c) msg = replicate 32 (0x5c XOR c)"
proof -
  have "replicate 32 c = c # replicate 31 c" using replicate_Suc [of 31 c] by simp
  then have "hmac_pad head_sym (replicate 32 c) = c # replicate 31 c @ replicate 32 0" by (simp add: hmac_pad_def)
  then show ?thesis by (simp add: NewHMAC_def Let_def head_sym_def)
qed

lemma head_expand:
  assumes "0 < len" "len \<le> 32" "length label \<le> 249"
  shows "HKDFExpandLabel head_sym (replicate 32 c) label [] len = Inr (replicate len (0x5c XOR c))"
proof -
  have "(len + 31) div 32 = Suc 0" using assms(1,2) by simp
  then have "HKDFExpand head_sym (replicate 32 c) info len = Inr (replicate len (0x5c XOR c))" for info
    using assms(1,2) by (simp add: HKDFExpand_def hkdfExpand_def head_hmac Let_def min_def)
  then show ?thesis using assms by (simp add: HKDFExpandLabel_def buildHKDFLabel_def Let_def)
qed

lemma head_material:
  "material head_sym (replicate 32 c) = Some \<lparr>km_aead = \<lparr>aeadKey = replicate 16 (0x5c XOR c), fixedNonce = replicate 12 (0x5c XOR c)\<rparr>,
     km_hp = replicate 16 (0x5c XOR c)\<rparr>"
  "secret_at head_sym (replicate 32 c) 1 = replicate 32 (0x5c XOR c)"
  by (simp_all add: material_def DeriveQUICPacketKeys_def QUICKeyUpdate_def newGMKeyMaterial_def head_expand label_defs
      NewAEAD_def NewGCM_def)

theorem header_keys_roll_witness:
  "\<exists>a b fb' pnb'. generation head_sym toy_secret toy_secret 1 a \<and> generation head_sym toy_secret toy_secret 0 b
    \<and> updatable_EncryptHeader head_sym a (replicate 16 0) 0x44 [0, 7] = Inr (fb', pnb')
    \<and> updatable_DecryptHeader head_sym b (replicate 16 0) fb' pnb' \<noteq> Inr (0x44, [0, 7])"
proof -
  obtain b where b: "generation head_sym toy_secret toy_secret 0 b" by (rule fresh_codec [OF head_secrets_ok(2)])
  have a: "generation head_sym toy_secret toy_secret (Suc 0) (rolled head_sym b)"
    by (rule generation_rolled(2) [OF head_secrets_ok(2) b])
  obtain old where old: "material head_sym (secret_at head_sym toy_secret 0) = Some old" "km_hp old = replicate 16 0x5d"
    using head_material(1) [of 1] by (simp add: toy_secret_def)
  obtain new where new: "material head_sym (secret_at head_sym toy_secret (Suc 0)) = Some new" "km_hp new = replicate 16 1"
    using head_material(1) [of "0x5d"] head_material(2) [of 1] by (simp add: toy_secret_def)
  have m: "sm4_Encrypt head_sym (replicate 16 k) (replicate 16 0) = k # k # k # replicate 13 k" for k
    by (simp add: head_sym_def toy_sym_def xorb_def numeral_eq_Suc)
  have "\<not> (sm4_Encrypt head_sym (km_hp new) (replicate 16 0) ! 0 AND 0x1f = sm4_Encrypt head_sym (km_hp old) (replicate 16 0) ! 0 AND 0x1f)"
    unfolding m old new by simp
  moreover have "length (replicate 16 (0 :: byte)) = 16" "length [0, 7 :: byte] \<le> 4" by simp_all
  from header_keys_roll [OF head_secrets_ok a b this old(1) new(1) refl refl, of "0x44"]
  obtain fb' pnb' where "updatable_EncryptHeader head_sym (rolled head_sym b) (replicate 16 0) 0x44 [0, 7] = Inr (fb', pnb')"
    "updatable_DecryptHeader head_sym b (replicate 16 0) fb' pnb' = Inr (0x44, [0, 7])
     \<longleftrightarrow> sm4_Encrypt head_sym (km_hp new) (replicate 16 0) ! 0 AND 0x1f = sm4_Encrypt head_sym (km_hp old) (replicate 16 0) ! 0 AND 0x1f
       \<and> take (length [0, 7 :: byte]) (drop 1 (sm4_Encrypt head_sym (km_hp new) (replicate 16 0)))
         = take (length [0, 7 :: byte]) (drop 1 (sm4_Encrypt head_sym (km_hp old) (replicate 16 0)))" by blast
  ultimately show ?thesis using a b unfolding One_nat_def by blast
qed

end
