(* ===== verification/Spec2Isabelle.thy ===== *)
theory Spec2Isabelle
  imports Varint PacketNumber CryptoFrame AntiReplay TicketKeys PacketRoundtrip ClientProperties ServerSafety
    ZeroRtt QuicVarint TransportParamsRoundtrip
    PacketPipeline
begin

text \<open>
  The GM TLS 1.3 stack of pollux-go: RFC 8998 handshakes and QUIC packet protection with
  SM2, SM3 and SM4.
\<close>

end
